theory Spec2Isabelle
  imports Complex_Main
begin

section \<open>Common Python notions\<close>

text \<open>
  Python integers are \<open>int\<close>. An exception that leaves a function is the \<open>Inl\<close> of its
  result.
\<close>

datatype py_error =
    ValueError string
  | ZeroDivisionError
  | AttributeError string
  | TypeError string
  | OSError string

text \<open>\<^verbatim>\<open>str(e)\<close>: the message of an exception.\<close>

definition error_text :: "py_error \<Rightarrow> string" where
  "error_text e =
     (case e of
        ValueError m \<Rightarrow> m
      | ZeroDivisionError \<Rightarrow> ''float division by zero''
      | AttributeError m \<Rightarrow> m
      | TypeError m \<Rightarrow> m
      | OSError m \<Rightarrow> m)"

subsection \<open>Floats\<close>

text \<open>
  A Python float is an IEEE 754 double. A finite double is embedded as the rational
  number it denotes, and every float operation of the source is the exact operation
  followed by the rounding to the nearest double, ties to the even significand: 53
  significant bits, with the unit in the last place taken from the binade
  \<open>2\<^sup>e \<le> \<bar>x\<bar> < 2\<^sup>e\<^sup>+\<^sup>1\<close> of the exact result. The exponent range is not modelled:
  results are taken to lie within the normal range of a double (no overflow to
  infinity, no subnormal result, no NaN), as frame rates, durations and timestamps of
  video files do.
\<close>

text \<open>\<^verbatim>\<open>n.bit_length()\<close>: the number of binary digits of a natural number.\<close>

fun bit_length :: "nat \<Rightarrow> nat" where
  "bit_length n = (if n = 0 then 0 else Suc (bit_length (n div 2)))"

declare bit_length.simps [simp del]

text \<open>The integer nearest to \<open>s\<close>; of the two nearest ones the even one.\<close>

definition round_half_even :: "rat \<Rightarrow> int" where
  "round_half_even s =
     (let f = \<lfloor>s\<rfloor>; r = s - of_int f
      in if r < 1 / 2 then f else if 1 / 2 < r then f + 1 else if even f then f else f + 1)"

text \<open>
  The exponent \<open>e\<close> with \<open>2\<^sup>e \<le> \<bar>x\<bar> < 2\<^sup>e\<^sup>+\<^sup>1\<close>, for \<open>x \<noteq> 0\<close>: the difference of the bit
  lengths of numerator and denominator, or one less.
\<close>

definition binade :: "rat \<Rightarrow> int" where
  "binade x =
     (let (p, q) = quotient_of \<bar>x\<bar>;
          d = int (bit_length (nat p)) - int (bit_length (nat q))
      in if 2 powi d \<le> \<bar>x\<bar> then d else d - 1)"

text \<open>The double nearest to \<open>x\<close>.\<close>

definition to_double :: "rat \<Rightarrow> rat" where
  "to_double x =
     (if x = 0 then 0
      else let ulp = 2 powi (binade x - 52)
           in sgn x * of_int (round_half_even (\<bar>x\<bar> / ulp)) * ulp)"

text \<open>
  \<^verbatim>\<open>float(n)\<close>, the conversion an integer operand of a float operation undergoes;
  \<^verbatim>\<open>a * b\<close> and \<^verbatim>\<open>a / b\<close> on floats (the division by zero, which raises, is written out
  where the source divides); \<^verbatim>\<open>a / b\<close> on two integers, which is the correctly rounded
  quotient.
\<close>

definition py_float :: "int \<Rightarrow> rat" where
  "py_float n = to_double (of_int n)"

definition float_mul :: "rat \<Rightarrow> rat \<Rightarrow> rat" where
  "float_mul a b = to_double (a * b)"

definition float_div :: "rat \<Rightarrow> rat \<Rightarrow> rat" where
  "float_div a b = to_double (a / b)"

definition int_true_div :: "int \<Rightarrow> int \<Rightarrow> rat" where
  "int_true_div a b = to_double (of_int a / of_int b)"

text \<open>\<^verbatim>\<open>int(x)\<close> on a float: truncation toward zero.\<close>

definition py_int :: "rat \<Rightarrow> int" where
  "py_int x = (if 0 \<le> x then \<lfloor>x\<rfloor> else \<lceil>x\<rceil>)"

subsection \<open>Ranges, strings and paths\<close>

text \<open>\<^verbatim>\<open>range(n)\<close>: the integers from 0 up to \<open>n - 1\<close>, none when \<open>n \<le> 0\<close>.\<close>

definition py_range :: "int \<Rightarrow> int list" where
  "py_range n = [0..n - 1]"

text \<open>\<^verbatim>\<open>str(n)\<close> of a natural number: its decimal digits.\<close>

fun digits10 :: "nat \<Rightarrow> string" where
  "digits10 n =
     (if n < 10 then [char_of (48 + n)]
      else digits10 (n div 10) @ [char_of (48 + n mod 10)])"

declare digits10.simps [simp del]

text \<open>\<^verbatim>\<open>os.path.join\<close> of two components on a POSIX system.\<close>

definition os_path_join :: "string \<Rightarrow> string \<Rightarrow> string" where
  "os_path_join a b =
     (if b \<noteq> [] \<and> hd b = CHR ''/'' then b
      else if a = [] \<or> last a = CHR ''/'' then a @ b
      else a @ ''/'' @ b)"

section \<open>video\_utils.py: the frame sampler\<close>

text \<open>
  What \<^verbatim>\<open>cv2.VideoCapture(video_path)\<close> delivers is the environment of the sampler:
  whether the file opened, the properties read from it, whether a read at a frame
  position yields a frame (\<^verbatim>\<open>ret\<close>), and whether \<^verbatim>\<open>cv2.imwrite\<close> of that frame
  succeeds. The properties are the doubles that \<^verbatim>\<open>cap.get\<close> returns.
\<close>

record video =
  video_path :: string
  is_opened :: bool
  cap_fps :: rat
  cap_frame_count :: rat
  cap_width :: rat
  cap_height :: rat
  read_ok :: "int \<Rightarrow> bool"
  write_ok :: "int \<Rightarrow> bool"

text \<open>The capture handle as the operation leaves it.\<close>

datatype cap_status = NotOpened | Opened | Released

text \<open>
  The frame file \<^verbatim>\<open>os.path.join(output_dir, f"frame_{i+1:02d}_{timestamp:.2f}s.jpg")\<close>,
  kept as the three values its name is built from: the directory, the ordinal \<open>i + 1\<close>
  and the timestamp.
\<close>

datatype frame_path = FramePath (path_dir: string) (path_ordinal: int) (path_stamp: rat)

type_synonym sampled_frame = "rat \<times> frame_path"

text \<open>Lines 39-45 of \<^verbatim>\<open>extract_fixed_frames\<close>: which frames to extract.\<close>

definition select_indices :: "int \<Rightarrow> int \<Rightarrow> int list" where
  "select_indices analysis_frames max_frames =
     (if analysis_frames \<le> max_frames then py_range analysis_frames
      else map (\<lambda>i. py_int (int_true_div (i * analysis_frames) max_frames))
             (py_range max_frames))"

text \<open>
  Lines 28-34: the number of frames in the analysis window, from a division and a
  multiplication of doubles. Only called with \<open>fps \<noteq> 0\<close>.
\<close>

definition analysis_frames_of :: "video \<Rightarrow> rat \<Rightarrow> int" where
  "analysis_frames_of cap max_duration =
     (let fps = cap_fps cap;
          total_frames = py_int (cap_frame_count cap);
          duration = float_div (py_float total_frames) fps;
          analysis_duration = min duration max_duration
      in py_int (float_mul fps analysis_duration))"

text \<open>
  Lines 52-71: the extraction loop over \<^verbatim>\<open>enumerate(frame_indices)\<close>. A frame that
  cannot be read is skipped (\<^verbatim>\<open>continue\<close>), one that cannot be written is not appended.
\<close>

fun extract_loop :: "video \<Rightarrow> string \<Rightarrow> rat \<Rightarrow> (nat \<times> int) list \<Rightarrow>
    sampled_frame list \<Rightarrow> sampled_frame list" where
  "extract_loop cap output_dir fps [] extracted_frames = extracted_frames"
| "extract_loop cap output_dir fps ((i, frame_index) # rest) extracted_frames =
     (if \<not> read_ok cap frame_index then extract_loop cap output_dir fps rest extracted_frames
      else
        let timestamp = float_div (py_float frame_index) fps;
            path = FramePath output_dir (int i + 1) timestamp
        in if write_ok cap frame_index
           then extract_loop cap output_dir fps rest (extracted_frames @ [(timestamp, path)])
           else extract_loop cap output_dir fps rest extracted_frames)"

text \<open>
  \<^verbatim>\<open>extract_fixed_frames\<close>, with the state of the handle at exit as second component.
  The division \<^verbatim>\<open>total_frames / fps\<close> of line 30 raises when the frame rate is zero;
  \<^verbatim>\<open>cap.release()\<close> is line 73, after the loop.
\<close>

definition extract_fixed_frames :: "video \<Rightarrow> string \<Rightarrow> int \<Rightarrow> rat \<Rightarrow>
    (py_error + sampled_frame list) \<times> cap_status" where
  "extract_fixed_frames cap output_dir max_frames max_duration =
     (if \<not> is_opened cap
      then (Inl (ValueError (''Error: Could not open video file '' @ video_path cap)), NotOpened)
      else if cap_fps cap = 0 then (Inl ZeroDivisionError, Opened)
      else
        let fps = cap_fps cap;
            analysis_frames = analysis_frames_of cap max_duration;
            frame_indices = select_indices analysis_frames max_frames;
            extracted_frames = extract_loop cap output_dir fps (enumerate 0 frame_indices) []
        in (Inr extracted_frames, Released))"

subsection \<open>Interval sampling\<close>

text \<open>
  The frame file \<^verbatim>\<open>os.path.join(output_dir, f"frame_{timestamp:.2f}s.jpg")\<close> of
  \<^verbatim>\<open>extract_frames\<close>: the directory and the timestamp.
\<close>

datatype stamp_path = StampPath string rat

type_synonym interval_frame = "rat \<times> stamp_path"

text \<open>
  Lines 111-130: the \<^verbatim>\<open>while True\<close> loop. It reads the next frame and stops at the first
  read that fails; \<open>read_ok cap k\<close> is the outcome of the read at position \<open>k\<close>. A loop
  that never meets a failing read does not return: the result is \<open>None\<close>. The
  \<^verbatim>\<open>%\<close> of line 117 raises when the interval is zero. Python's \<^verbatim>\<open>%\<close> and \<open>mod\<close> on
  \<open>int\<close> both take the sign of the divisor.
\<close>

partial_function (option) read_loop :: "video \<Rightarrow> string \<Rightarrow> rat \<Rightarrow> int \<Rightarrow> int \<Rightarrow>
    interval_frame list \<Rightarrow> (py_error + interval_frame list) option" where
  "read_loop cap output_dir fps frame_interval frame_count extracted_frames =
     (if \<not> read_ok cap frame_count then Some (Inr extracted_frames)
      else if frame_interval = 0 then Some (Inl ZeroDivisionError)
      else if frame_count mod frame_interval = 0 \<and> write_ok cap frame_count
      then read_loop cap output_dir fps frame_interval (frame_count + 1)
             (extracted_frames @
                [(float_div (py_float frame_count) fps,
                  StampPath output_dir (float_div (py_float frame_count) fps))])
      else read_loop cap output_dir fps frame_interval (frame_count + 1) extracted_frames)"

text \<open>\<^verbatim>\<open>extract_frames\<close>: line 106 truncates the product with \<^verbatim>\<open>int\<close>.\<close>

definition extract_frames :: "video \<Rightarrow> string \<Rightarrow> rat \<Rightarrow>
    (py_error + interval_frame list) option" where
  "extract_frames cap output_dir interval_seconds =
     (if \<not> is_opened cap
      then Some (Inl (ValueError (''Error: Could not open video file '' @ video_path cap)))
      else if cap_fps cap = 0 then Some (Inl ZeroDivisionError)
      else
        let fps = cap_fps cap;
            frame_interval = py_int (float_mul fps interval_seconds)
        in read_loop cap output_dir fps frame_interval 0 [])"

section \<open>The oracle\<close>

text \<open>
  The chat completion endpoint is the environment of every analysis function. A request
  is kept as the values that are interpolated into its prompt template, not as the text
  of the template. A call returns the generated text with the token count, or raises; the
  message of the exception (\<^verbatim>\<open>str(e)\<close>) is the \<open>Inl\<close> of the outcome. An exception
  raised while the response is taken apart (\<^verbatim>\<open>response.choices[0]\<close>) is caught by the same
  handler and is an \<open>Inl\<close> outcome too.
\<close>

datatype prompt = FRAME_ANALYSIS_PROMPT | CustomPrompt string

record video_info =
  vi_fps :: rat
  vi_total_frames :: int
  vi_duration_seconds :: rat
  vi_width :: int
  vi_height :: int

text \<open>One entry of the list \<^verbatim>\<open>prepare_video_summaries\<close> builds.\<close>

record video_summary_info =
  vs_video_index :: nat
  vs_url :: string
  vs_title :: string
  vs_duration_analyzed :: rat
  vs_frames_analyzed :: nat
  vs_summary :: string
  vs_frame_descriptions :: "(rat \<times> string) list"

datatype request =
    VisionRequest prompt string
  | SummaryRequest video_info "(int \<times> rat \<times> string) list"
  | SimilarityRequest "video_summary_info list"
  | PairRequest string string string string

record completion =
  content :: string
  total_tokens :: int

text \<open>
  The oracle answers a request knowing how many requests came before it. The log is the
  list of the requests sent so far; a function that may call the oracle takes the log and
  returns it extended by the requests it sent.
\<close>

type_synonym llm = "nat \<Rightarrow> request \<Rightarrow> string + completion"

definition chat_completions_create :: "llm \<Rightarrow> request list \<Rightarrow> request \<Rightarrow>
    (string + completion) \<times> request list" where
  "chat_completions_create llm sent req = (llm (length sent) req, sent @ [req])"

section \<open>gpt\_utils.py: frame analysis and summary\<close>

text \<open>The files on disk: the content of the file at a path, if it exists.\<close>

type_synonym files = "string \<Rightarrow> string option"

text \<open>
  \<^verbatim>\<open>encode_image_to_base64\<close>: raises \<^verbatim>\<open>FileNotFoundError\<close> for a missing file. The
  base64 text of the content is represented by the content.
\<close>

definition encode_image_to_base64 :: "files \<Rightarrow> string \<Rightarrow> string + string" where
  "encode_image_to_base64 fs image_path =
     (case fs image_path of
        None \<Rightarrow> Inl (''Image file not found: '' @ image_path)
      | Some data \<Rightarrow> Inr data)"

text \<open>
  The dict \<^verbatim>\<open>analyze_frame_async\<close> returns. The keys \<^verbatim>\<open>tokens_used\<close> and \<^verbatim>\<open>model\<close>
  are present on success only, \<^verbatim>\<open>error\<close> on failure only.
\<close>

record analysis_result =
  success :: bool
  description :: string
  error :: "string option"
  tokens_used :: "int option"
  model :: "string option"

text \<open>
  \<^verbatim>\<open>analyze_frame_async\<close>: everything happens inside \<^verbatim>\<open>try\<close>, and
  \<^verbatim>\<open>except Exception\<close> turns whatever was raised into the failure dict.
\<close>

definition analyze_frame_async :: "files \<Rightarrow> llm \<Rightarrow> request list \<Rightarrow> string \<Rightarrow>
    string option \<Rightarrow> analysis_result \<times> request list" where
  "analyze_frame_async fs llm sent image_path custom_prompt =
     (case encode_image_to_base64 fs image_path of
        Inl e \<Rightarrow>
          (\<lparr>success = False, description = ''Error analyzing frame: '' @ e,
            error = Some e, tokens_used = None, model = None\<rparr>, sent)
      | Inr base64_image \<Rightarrow>
          let prompt = (case custom_prompt of
                          None \<Rightarrow> FRAME_ANALYSIS_PROMPT
                        | Some p \<Rightarrow> if p = [] then FRAME_ANALYSIS_PROMPT else CustomPrompt p);
              (outcome, sent') =
                chat_completions_create llm sent (VisionRequest prompt base64_image)
          in case outcome of
               Inr response \<Rightarrow>
                 (\<lparr>success = True, description = content response, error = None,
                   tokens_used = Some (total_tokens response), model = Some ''gpt-4o''\<rparr>, sent')
             | Inl e \<Rightarrow>
                 (\<lparr>success = False, description = ''Error analyzing frame: '' @ e,
                   error = Some e, tokens_used = None, model = None\<rparr>, sent'))"

text \<open>
  The dict of \<^verbatim>\<open>analyze_multiple_frames_async\<close>: the three metadata keys, then the keys
  of the analysis result (\<^verbatim>\<open>**analysis_result\<close>).
\<close>

record frame_analysis = analysis_result +
  timestamp :: rat
  frame_path :: string
  frame_number :: int

definition with_metadata :: "rat \<Rightarrow> string \<Rightarrow> nat \<Rightarrow> analysis_result \<Rightarrow> frame_analysis" where
  "with_metadata ts path frame_idx r =
     analysis_result.extend r
       (frame_analysis.fields ts path (int frame_idx + 1))"

text \<open>
  \<^verbatim>\<open>asyncio.gather\<close> over the tasks of one batch: the results come in the order of the
  tasks. The tasks send their requests in that order; no task reads what another one
  returns.
\<close>

fun gather :: "files \<Rightarrow> llm \<Rightarrow> request list \<Rightarrow> string list \<Rightarrow>
    analysis_result list \<times> request list" where
  "gather fs llm sent [] = ([], sent)"
| "gather fs llm sent (image_path # tasks) =
     (let (r, sent1) = analyze_frame_async fs llm sent image_path None;
          (rs, sent2) = gather fs llm sent1 tasks
      in (r # rs, sent2))"

text \<open>Lines 239-262: one batch, starting at index \<open>i\<close>.\<close>

definition run_batch :: "files \<Rightarrow> llm \<Rightarrow> request list \<Rightarrow> nat \<Rightarrow> (rat \<times> string) list \<Rightarrow>
    frame_analysis list \<times> request list" where
  "run_batch fs llm sent i batch =
     (let batch_tasks = map (\<lambda>(j, (ts, path)). (ts, path, i + j)) (enumerate 0 batch);
          (batch_results, sent') = gather fs llm sent (map (\<lambda>(ts, path, idx). path) batch_tasks)
      in (map (\<lambda>((ts, path, frame_idx), analysis_result).
                 with_metadata ts path frame_idx analysis_result)
            (zip batch_tasks batch_results), sent'))"

text \<open>
  Lines 238-274: \<^verbatim>\<open>for i in range(0, total_frames, batch_size)\<close>, for a positive step.
\<close>

function batch_loop :: "files \<Rightarrow> llm \<Rightarrow> (rat \<times> string) list \<Rightarrow> nat \<Rightarrow> nat \<Rightarrow>
    frame_analysis list \<times> request list \<Rightarrow> frame_analysis list \<times> request list" where
  "batch_loop fs llm frame_data batch_size i (results, sent) =
     (if i < length frame_data \<and> 0 < batch_size
      then
        let batch = take batch_size (drop i frame_data);
            (batch_results, sent') = run_batch fs llm sent i batch
        in batch_loop fs llm frame_data batch_size (i + batch_size)
             (results @ batch_results, sent')
      else (results, sent))"
  by pat_completeness auto
termination
  by (relation "measure (\<lambda>(fs, llm, frame_data, batch_size, i, st). length frame_data - i)")
    auto

declare batch_loop.simps [simp del]

text \<open>
  \<^verbatim>\<open>analyze_multiple_frames_async\<close> with \<^verbatim>\<open>progress_callback=None\<close>. A step of zero
  makes \<^verbatim>\<open>range\<close> raise; a negative step gives the empty range.
\<close>

definition analyze_multiple_frames_async :: "files \<Rightarrow> llm \<Rightarrow> request list \<Rightarrow>
    (rat \<times> string) list \<Rightarrow> int \<Rightarrow> (py_error + frame_analysis list) \<times> request list" where
  "analyze_multiple_frames_async fs llm sent frame_data batch_size =
     (if batch_size = 0 then (Inl (ValueError ''range() arg 3 must not be zero''), sent)
      else if batch_size < 0 then (Inr [], sent)
      else
        let (results, sent') = batch_loop fs llm frame_data (nat batch_size) 0 ([], sent)
        in (Inr results, sent'))"

text \<open>The dict \<^verbatim>\<open>generate_comprehensive_summary\<close> returns.\<close>

record summary_result =
  sum_success :: bool
  sum_summary :: "string option"
  sum_error :: "string option"
  sum_tokens_used :: "int option"
  sum_frames_analyzed :: "nat option"

text \<open>
  \<^verbatim>\<open>generate_comprehensive_summary\<close>: the check for an empty list of successful
  descriptions comes before the prompt is built and the oracle is called.
\<close>

definition generate_comprehensive_summary :: "llm \<Rightarrow> request list \<Rightarrow> frame_analysis list \<Rightarrow>
    video_info \<Rightarrow> summary_result \<times> request list" where
  "generate_comprehensive_summary llm sent frame_analyses info =
     (let successful_descriptions =
            map (\<lambda>result. (frame_number result, timestamp result, description result))
              (filter success frame_analyses)
      in if successful_descriptions = []
         then (\<lparr>sum_success = False, sum_summary = None,
                 sum_error = Some ''No successful frame analyses to summarize'',
                 sum_tokens_used = None, sum_frames_analyzed = None\<rparr>, sent)
         else
           let (outcome, sent') =
                 chat_completions_create llm sent (SummaryRequest info successful_descriptions)
           in case outcome of
                Inr response \<Rightarrow>
                  (\<lparr>sum_success = True, sum_summary = Some (content response), sum_error = None,
                    sum_tokens_used = Some (total_tokens response),
                    sum_frames_analyzed = Some (length successful_descriptions)\<rparr>, sent')
              | Inl e \<Rightarrow>
                  (\<lparr>sum_success = False, sum_summary = Some (''Error generating summary: '' @ e),
                    sum_error = Some e, sum_tokens_used = None,
                    sum_frames_analyzed = None\<rparr>, sent'))"

section \<open>youtube\_utils.py: validating and downloading\<close>

text \<open>
  A Python \<^verbatim>\<open>str\<close> is embedded as the list of its code points. A \<open>char\<close> holds the code
  points 0 to 255, so the URLs of the model are the Latin-1 ones. On a \<^verbatim>\<open>str\<close> the class
  \<^verbatim>\<open>\w\<close> is Unicode-aware: among these code points it matches the ASCII letters and
  digits and the underscore, and the letters and numerals of Latin-1, which are 0xaa,
  0xb2, 0xb3, 0xb5, 0xb9, 0xba, 0xbc to 0xbe, 0xc0 to 0xd6, 0xd8 to 0xf6 and 0xf8 to 0xff.
\<close>

definition word_char :: "char \<Rightarrow> bool" where
  "word_char c =
     (let n = (of_char c :: nat)
      in (of_char CHR ''a'' \<le> n \<and> n \<le> of_char CHR ''z'')
       \<or> (of_char CHR ''A'' \<le> n \<and> n \<le> of_char CHR ''Z'')
       \<or> (of_char CHR ''0'' \<le> n \<and> n \<le> of_char CHR ''9'')
       \<or> c = CHR ''_''
       \<or> n = 0xaa \<or> n = 0xb2 \<or> n = 0xb3 \<or> n = 0xb5 \<or> n = 0xb9 \<or> n = 0xba
       \<or> (0xbc \<le> n \<and> n \<le> 0xbe) \<or> (0xc0 \<le> n \<and> n \<le> 0xd6)
       \<or> (0xd8 \<le> n \<and> n \<le> 0xf6) \<or> (0xf8 \<le> n \<and> n \<le> 0xff))"

text \<open>The class \<^verbatim>\<open>[\w-]\<close> of the video id.\<close>

definition id_char :: "char \<Rightarrow> bool" where
  "id_char c = (word_char c \<or> c = CHR ''-'')"

text \<open>
  \<^verbatim>\<open>is_valid_youtube_url\<close>: \<^verbatim>\<open>re.match\<close> of five patterns, each an optional scheme, an
  optional \<^verbatim>\<open>www.\<close>, a fixed text and at least one character of \<^verbatim>\<open>[\w-]\<close>. The match is
  anchored at the start of the URL only.
\<close>

definition url_prefixes :: "string list" where
  "url_prefixes = [''https://www.'', ''https://'', ''http://www.'', ''http://'', ''www.'', []]"

definition youtube_patterns :: "string list" where
  "youtube_patterns = [''youtube.com/watch?v='', ''youtu.be/'', ''youtube.com/embed/'',
      ''youtube.com/v/'', ''youtube.com/shorts/'']"

definition starts_with_id :: "string \<Rightarrow> string \<Rightarrow> bool" where
  "starts_with_id fixed url =
     (take (length fixed) url = fixed
      \<and> (case drop (length fixed) url of [] \<Rightarrow> False | c # rest \<Rightarrow> id_char c))"

definition is_valid_youtube_url :: "string \<Rightarrow> bool" where
  "is_valid_youtube_url url =
     list_ex (\<lambda>pattern. list_ex (\<lambda>prefix. starts_with_id (prefix @ pattern) url) url_prefixes)
       youtube_patterns"

definition validate_urls :: "string list \<Rightarrow> string list \<times> string list" where
  "validate_urls urls =
     (filter is_valid_youtube_url urls, filter (\<lambda>url. \<not> is_valid_youtube_url url) urls)"

text \<open>
  The info dict of \<^verbatim>\<open>get_video_info\<close> (the keys the pipeline reads, an id and a title
  that are strings) and the dict of one download. A download result always has the key \<^verbatim>\<open>info\<close> (its value is \<^verbatim>\<open>None\<close>
  when the lookup failed); it has the key \<^verbatim>\<open>error\<close> only after a failure and the key
  \<^verbatim>\<open>duration_limited_to\<close> only when the lookup succeeded.
\<close>

record yt_info =
  yt_id :: string
  yt_title :: string

record download_result =
  dl_url :: string
  dl_success :: bool
  dl_video_path :: "string option"
  dl_info :: "yt_info option"
  dl_error :: "string option"
  dl_duration_limited_to :: "int option"

text \<open>
  \<^verbatim>\<open>YouTubeDownloader.get_video_info\<close> and \<^verbatim>\<open>download_video\<close> wrap the downloader
  library and turn every exception of it into \<^verbatim>\<open>None\<close>: which lookups and downloads
  succeed is the environment's.
\<close>

record downloader =
  yt_get_video_info :: "string \<Rightarrow> yt_info option"
  download_video :: "string \<Rightarrow> int \<Rightarrow> string option"

text \<open>\<^verbatim>\<open>xs[:n]\<close>: a negative \<open>n\<close> counts from the end.\<close>

definition py_take :: "int \<Rightarrow> 'a list \<Rightarrow> 'a list" where
  "py_take n xs = (if 0 \<le> n then take (nat n) xs else take (length xs - nat (- n)) xs)"

text \<open>
  Lines 276-305: the body of the loop of \<^verbatim>\<open>download_multiple_videos\<close> for one URL.
  \<^verbatim>\<open>if not video_path\<close> holds for \<^verbatim>\<open>None\<close> and for the empty string.
\<close>

definition download_one :: "downloader \<Rightarrow> int \<Rightarrow> string \<Rightarrow> download_result" where
  "download_one yt duration_seconds url =
     (case yt_get_video_info yt url of
        None \<Rightarrow>
          \<lparr>dl_url = url, dl_success = False, dl_video_path = None, dl_info = None,
           dl_error = Some ''Failed to get video info'', dl_duration_limited_to = None\<rparr>
      | Some info \<Rightarrow>
          let video_path = download_video yt url duration_seconds
          in \<lparr>dl_url = url, dl_success = (video_path \<noteq> None), dl_video_path = video_path,
              dl_info = Some info,
              dl_error = (if video_path = None \<or> video_path = Some []
                          then Some ''Download failed'' else None),
              dl_duration_limited_to = Some duration_seconds\<rparr>)"

fun download_loop :: "downloader \<Rightarrow> int \<Rightarrow> string list \<Rightarrow> download_result list \<Rightarrow>
    download_result list" where
  "download_loop yt duration_seconds [] results = results"
| "download_loop yt duration_seconds (url # rest) results =
     download_loop yt duration_seconds rest (results @ [download_one yt duration_seconds url])"

text \<open>
  \<^verbatim>\<open>download_multiple_videos\<close>: the invalid URLs are printed as a warning and dropped;
  the valid ones are cut to the first \<^verbatim>\<open>max_videos\<close>.
\<close>

definition download_multiple_videos :: "downloader \<Rightarrow> string list \<Rightarrow> int \<Rightarrow> int \<Rightarrow>
    download_result list" where
  "download_multiple_videos yt urls duration_seconds max_videos =
     (let (valid_urls, invalid_urls) = validate_urls urls;
          valid_urls = (if int (length valid_urls) > max_videos
                        then py_take max_videos valid_urls else valid_urls)
      in download_loop yt duration_seconds valid_urls [])"

section \<open>similarity\_analyzer.py: the similarity engine\<close>

text \<open>
  The dicts the batch processor hands over. A video result is the download result with
  the keys of the breakdown added (\<^verbatim>\<open>**download_result\<close>); after a failed breakdown the
  keys from \<^verbatim>\<open>breakdown_data\<close> on are absent, after a successful one
  \<^verbatim>\<open>breakdown_error\<close> is.
\<close>

record breakdown =
  bd_video_file :: string
  bd_video_info :: video_info
  bd_frame_analyses :: "frame_analysis list"
  bd_video_summary :: summary_result

record video_result = download_result +
  breakdown_success :: bool
  breakdown_error :: "string option"
  breakdown_data :: "breakdown option"
  vr_frames_extracted :: "nat option"
  vr_frames_analyzed :: "nat option"
  vr_total_tokens :: "int option"
  vr_video_index :: "nat option"

text \<open>
  \<^verbatim>\<open>prepare_video_summaries\<close>: one entry per video result with \<^verbatim>\<open>breakdown_success\<close>,
  in the order of the input, numbered by the position in the input.
  \<^verbatim>\<open>video_result.get('info', {}).get('title', \<dots>)\<close> raises when the value under
  \<^verbatim>\<open>info\<close> is \<^verbatim>\<open>None\<close>; the other lookups fall back to their defaults.
\<close>

definition summary_entry :: "nat \<Rightarrow> video_result \<Rightarrow> py_error + video_summary_info" where
  "summary_entry i video_result =
     (let frame_analyses = (case breakdown_data video_result of
                              None \<Rightarrow> [] | Some b \<Rightarrow> bd_frame_analyses b)
      in case dl_info video_result of
           None \<Rightarrow> Inl (AttributeError ''NoneType object has no attribute get'')
         | Some info \<Rightarrow>
             Inr \<lparr>vs_video_index = i + 1,
                  vs_url = dl_url video_result,
                  vs_title = yt_title info,
                  vs_duration_analyzed =
                    (case breakdown_data video_result of
                       None \<Rightarrow> 0 | Some b \<Rightarrow> vi_duration_seconds (bd_video_info b)),
                  vs_frames_analyzed = length frame_analyses,
                  vs_summary =
                    (case breakdown_data video_result of
                       None \<Rightarrow> []
                     | Some b \<Rightarrow>
                         if sum_success (bd_video_summary b)
                         then (case sum_summary (bd_video_summary b) of
                                 None \<Rightarrow> [] | Some s \<Rightarrow> s)
                         else []),
                  vs_frame_descriptions =
                    map (\<lambda>frame. (timestamp frame, description frame))
                      (filter success frame_analyses)\<rparr>)"

fun prepare_loop :: "(nat \<times> video_result) list \<Rightarrow> video_summary_info list \<Rightarrow>
    py_error + video_summary_info list" where
  "prepare_loop [] summaries = Inr summaries"
| "prepare_loop ((i, video_result) # rest) summaries =
     (if \<not> breakdown_success video_result then prepare_loop rest summaries
      else case summary_entry i video_result of
             Inl e \<Rightarrow> Inl e
           | Inr video_info \<Rightarrow> prepare_loop rest (summaries @ [video_info]))"

definition prepare_video_summaries :: "video_result list \<Rightarrow> py_error + video_summary_info list" where
  "prepare_video_summaries video_results = prepare_loop (enumerate 0 video_results) []"

text \<open>The dict of \<^verbatim>\<open>analyze_similarities_async\<close>.\<close>

record similarity_result =
  sim_success :: bool
  sim_error :: "string option"
  sim_analysis :: "string option"
  sim_tokens_used :: "int option"
  sim_videos_analyzed :: "nat option"
  sim_videos_compared :: "nat option"
  sim_video_titles :: "string list option"

text \<open>
  \<^verbatim>\<open>analyze_similarities_async\<close>: the length check of line 91 comes before the prompt
  is built and the oracle is called.
\<close>

definition analyze_similarities_async :: "llm \<Rightarrow> request list \<Rightarrow> video_result list \<Rightarrow>
    (py_error + similarity_result) \<times> request list" where
  "analyze_similarities_async llm sent video_results =
     (case prepare_video_summaries video_results of
        Inl e \<Rightarrow> (Inl e, sent)
      | Inr summaries \<Rightarrow>
          if length summaries < 2
          then (Inr \<lparr>sim_success = False,
                  sim_error = Some ''Need at least 2 successfully analyzed videos for comparison'',
                  sim_analysis = None, sim_tokens_used = None,
                  sim_videos_analyzed = Some (length summaries),
                  sim_videos_compared = None, sim_video_titles = None\<rparr>, sent)
          else
            let (outcome, sent') = chat_completions_create llm sent (SimilarityRequest summaries)
            in case outcome of
                 Inr response \<Rightarrow>
                   (Inr \<lparr>sim_success = True, sim_error = None,
                      sim_analysis = Some (content response),
                      sim_tokens_used = Some (total_tokens response),
                      sim_videos_analyzed = None,
                      sim_videos_compared = Some (length summaries),
                      sim_video_titles = Some (map vs_title summaries)\<rparr>, sent')
               | Inl e \<Rightarrow>
                   (Inr \<lparr>sim_success = False, sim_error = Some e, sim_analysis = None,
                      sim_tokens_used = None, sim_videos_analyzed = None,
                      sim_videos_compared = Some (length summaries),
                      sim_video_titles = None\<rparr>, sent'))"

text \<open>One entry of \<^verbatim>\<open>pairwise_comparisons\<close>.\<close>

record comparison =
  video1_index :: nat
  video2_index :: nat
  video1_title :: string
  video2_title :: string
  comparison_text :: string
  cmp_tokens_used :: int

text \<open>
  Lines 282-329: the body of the inner loop for the pair \<open>(i, j)\<close>. The prompt takes the
  titles and the first 500 characters of the summaries.
\<close>

definition compare_pair :: "llm \<Rightarrow> video_summary_info list \<Rightarrow> nat \<Rightarrow> nat \<Rightarrow>
    comparison list \<times> request list \<Rightarrow> comparison list \<times> request list" where
  "compare_pair llm summaries i j st =
     (let (comparisons, sent) = st;
          video1 = summaries ! i;
          video2 = summaries ! j;
          prompt = PairRequest (vs_title video1) (take 500 (vs_summary video1))
                     (vs_title video2) (take 500 (vs_summary video2));
          (outcome, sent') = chat_completions_create llm sent prompt
      in case outcome of
           Inr response \<Rightarrow>
             (comparisons @
                [\<lparr>video1_index = i + 1, video2_index = j + 1,
                  video1_title = vs_title video1, video2_title = vs_title video2,
                  comparison_text = content response,
                  cmp_tokens_used = total_tokens response\<rparr>], sent')
         | Inl e \<Rightarrow>
             (comparisons @
                [\<lparr>video1_index = i + 1, video2_index = j + 1,
                  video1_title = vs_title video1, video2_title = vs_title video2,
                  comparison_text = ''Error: '' @ e,
                  cmp_tokens_used = 0\<rparr>], sent'))"

text \<open>
  Lines 280-281: \<^verbatim>\<open>for i in range(len(summaries)): for j in range(i + 1, len(summaries))\<close>.
\<close>

definition pair_loops :: "llm \<Rightarrow> video_summary_info list \<Rightarrow> request list \<Rightarrow>
    comparison list \<times> request list" where
  "pair_loops llm summaries sent =
     fold (\<lambda>i. fold (\<lambda>j. compare_pair llm summaries i j) [i + 1..<length summaries])
       [0..<length summaries] ([], sent)"

text \<open>The dict of \<^verbatim>\<open>generate_pairwise_comparisons\<close>.\<close>

record pairwise_result =
  pw_success :: bool
  pw_error :: "string option"
  pairwise_comparisons :: "comparison list option"
  total_pairs :: "nat option"
  total_tokens_used :: "int option"
  videos_analyzed :: "nat option"

definition generate_pairwise_comparisons :: "llm \<Rightarrow> request list \<Rightarrow> video_result list \<Rightarrow>
    (py_error + pairwise_result) \<times> request list" where
  "generate_pairwise_comparisons llm sent video_results =
     (case prepare_video_summaries video_results of
        Inl e \<Rightarrow> (Inl e, sent)
      | Inr summaries \<Rightarrow>
          if length summaries < 2
          then (Inr \<lparr>pw_success = False,
                  pw_error = Some ''Need at least 2 successfully analyzed videos for comparison'',
                  pairwise_comparisons = None, total_pairs = None,
                  total_tokens_used = None, videos_analyzed = None\<rparr>, sent)
          else
            let (comparisons, sent') = pair_loops llm summaries sent;
                tokens = sum_list (map cmp_tokens_used comparisons)
            in (Inr \<lparr>pw_success = True, pw_error = None,
                  pairwise_comparisons = Some comparisons,
                  total_pairs = Some (length comparisons),
                  total_tokens_used = Some tokens,
                  videos_analyzed = Some (length summaries)\<rparr>, sent'))"

section \<open>video\_utils.py: validation and measurement\<close>

text \<open>
  \<^verbatim>\<open>validate_video_file\<close>: the file exists and opens. \<^verbatim>\<open>get_video_info\<close>: raises when
  the file does not open, and at the division \<^verbatim>\<open>total_frames / fps\<close> when the frame rate
  is zero.
\<close>

definition validate_video_file :: "bool \<Rightarrow> video \<Rightarrow> bool" where
  "validate_video_file path_exists cap = (path_exists \<and> is_opened cap)"

definition get_video_info :: "video \<Rightarrow> py_error + video_info" where
  "get_video_info cap =
     (if \<not> is_opened cap
      then Inl (ValueError (''Could not open video file '' @ video_path cap))
      else if cap_fps cap = 0 then Inl ZeroDivisionError
      else Inr \<lparr>vi_fps = cap_fps cap,
                vi_total_frames = py_int (cap_frame_count cap),
                vi_duration_seconds = float_div (py_float (py_int (cap_frame_count cap))) (cap_fps cap),
                vi_width = py_int (cap_width cap),
                vi_height = py_int (cap_height cap)\<rparr>)"

section \<open>batch\_processor.py: the orchestrator\<close>

text \<open>
  The JSON files the orchestrator writes, named by what their paths are built from: the
  breakdown of video \<open>i\<close> with its id, the similarity analysis, and the final report.
\<close>

datatype out_file = BreakdownFile nat string | SimilarityFile | ReportFile

text \<open>
  The environment of a batch run: the downloader, which paths exist, what opening a
  video file gives, the image files as the analyzer finds them, the text of a frame
  path, the oracle, and for each JSON file the message of the exception its writing
  raises, if any. Directories are taken to be creatable.
\<close>

record world =
  w_downloader :: downloader
  w_exists :: "string \<Rightarrow> bool"
  w_capture :: "string \<Rightarrow> video"
  w_files :: files
  w_path_text :: "frame_path \<Rightarrow> string"
  w_llm :: llm
  w_write_error :: "out_file \<Rightarrow> string option"

text \<open>The two failure dicts of \<^verbatim>\<open>process_single_video\<close> and its success dict.\<close>

definition breakdown_failed :: "download_result \<Rightarrow> string \<Rightarrow> video_result" where
  "breakdown_failed download_result msg =
     download_result.extend download_result
       (video_result.fields False (Some msg) None None None None None)"

definition breakdown_done :: "download_result \<Rightarrow> breakdown \<Rightarrow> nat \<Rightarrow> nat \<Rightarrow> int \<Rightarrow> nat \<Rightarrow>
    video_result" where
  "breakdown_done download_result data n_extracted n_analyzed tokens idx =
     download_result.extend download_result
       (video_result.fields True None (Some data) (Some n_extracted) (Some n_analyzed)
          (Some tokens) (Some idx))"

definition none_type_error :: "string \<Rightarrow> py_error" where
  "none_type_error what = TypeError ([CHR 0x27] @ ''NoneType'' @ [CHR 0x27] @ what)"

text \<open>
  The \<^verbatim>\<open>try\<close> block of \<^verbatim>\<open>process_single_video\<close> (lines 168-261): the dict it returns,
  or the exception that leaves it, with the requests sent until then. The integer
  \<^verbatim>\<open>duration_seconds\<close> is the \<^verbatim>\<open>max_duration\<close> of the extraction: compared and multiplied
  with floats there, it counts as its conversion to a float.
\<close>

definition single_video_try :: "world \<Rightarrow> request list \<Rightarrow> download_result \<Rightarrow> int \<Rightarrow> int \<Rightarrow> int \<Rightarrow>
    nat \<Rightarrow> string \<Rightarrow> (py_error + video_result) \<times> request list" where
  "single_video_try w sent download_result duration_seconds max_frames_per_video batch_size
       video_index frames_dir =
     (case dl_video_path download_result of
        None \<Rightarrow> (Inl (none_type_error '' is not a path''), sent)
      | Some path \<Rightarrow>
          let cap = w_capture w path
          in if \<not> validate_video_file (w_exists w path) cap
             then (Inr (breakdown_failed download_result ''Video file validation failed''), sent)
             else
               case get_video_info cap of
                 Inl e \<Rightarrow> (Inl e, sent)
               | Inr detailed_info \<Rightarrow>
                   (case dl_info download_result of
                      None \<Rightarrow> (Inl (none_type_error '' object is not subscriptable''), sent)
                    | Some video_info \<Rightarrow>
                        let video_id = yt_id video_info;
                            video_frames_dir =
                              os_path_join frames_dir
                                (''video_'' @ digits10 video_index @ ''_'' @ video_id)
                        in case fst (extract_fixed_frames cap video_frames_dir
                                       max_frames_per_video (py_float duration_seconds)) of
                             Inl e \<Rightarrow> (Inl e, sent)
                           | Inr extracted_frames \<Rightarrow>
                               if extracted_frames = []
                               then (Inr (breakdown_failed download_result
                                            ''No frames were extracted''), sent)
                               else
                                 let frame_data =
                                       map (\<lambda>(ts, path). (ts, w_path_text w path))
                                         extracted_frames
                                 in case analyze_multiple_frames_async (w_files w) (w_llm w)
                                           sent frame_data batch_size of
                                      (Inl e, sent1) \<Rightarrow> (Inl e, sent1)
                                    | (Inr frame_analyses, sent1) \<Rightarrow>
                                        let (video_summary, sent2) =
                                              generate_comprehensive_summary (w_llm w) sent1
                                                frame_analyses detailed_info;
                                            n_successful =
                                              length (filter success frame_analyses);
                                            n_tokens =
                                              sum_list
                                                (map (\<lambda>r. case tokens_used r of
                                                            None \<Rightarrow> 0 | Some t \<Rightarrow> t)
                                                   (filter success frame_analyses))
                                              + (if sum_success video_summary
                                                 then (case sum_tokens_used video_summary of
                                                         None \<Rightarrow> 0 | Some t \<Rightarrow> t)
                                                 else 0);
                                            data =
                                              \<lparr>bd_video_file = path,
                                               bd_video_info = detailed_info,
                                               bd_frame_analyses = frame_analyses,
                                               bd_video_summary = video_summary\<rparr>
                                        in case w_write_error w
                                                  (BreakdownFile video_index video_id) of
                                             Some msg \<Rightarrow> (Inl (OSError msg), sent2)
                                           | None \<Rightarrow>
                                               (Inr (breakdown_done download_result data
                                                       (length extracted_frames)
                                                       n_successful n_tokens
                                                       video_index), sent2)))"

text \<open>
  \<^verbatim>\<open>process_single_video\<close>: \<^verbatim>\<open>except Exception\<close> turns the exception into the failure
  dict with its message.
\<close>

definition process_single_video :: "world \<Rightarrow> request list \<Rightarrow> download_result \<Rightarrow> int \<Rightarrow> int \<Rightarrow>
    int \<Rightarrow> nat \<Rightarrow> string \<Rightarrow> video_result \<times> request list" where
  "process_single_video w sent download_result duration_seconds max_frames_per_video batch_size
       video_index frames_dir =
     (case single_video_try w sent download_result duration_seconds max_frames_per_video
             batch_size video_index frames_dir of
        (Inr video_result, sent') \<Rightarrow> (video_result, sent')
      | (Inl e, sent') \<Rightarrow> (breakdown_failed download_result (error_text e), sent'))"

text \<open>
  The dict of \<^verbatim>\<open>analyze_video_similarities\<close>: the combined result, or the failure dict
  of its \<^verbatim>\<open>except\<close> branch.
\<close>

datatype similarity_analysis =
    Combined similarity_result pairwise_result int
  | SimilarityFailed string

definition analyze_video_similarities :: "world \<Rightarrow> request list \<Rightarrow> video_result list \<Rightarrow>
    similarity_analysis \<times> request list" where
  "analyze_video_similarities w sent video_results =
     (case analyze_similarities_async (w_llm w) sent video_results of
        (Inl e, sent1) \<Rightarrow> (SimilarityFailed (error_text e), sent1)
      | (Inr similarity_result, sent1) \<Rightarrow>
          (case generate_pairwise_comparisons (w_llm w) sent1 video_results of
             (Inl e, sent2) \<Rightarrow> (SimilarityFailed (error_text e), sent2)
           | (Inr pairwise_result, sent2) \<Rightarrow>
               (case w_write_error w SimilarityFile of
                  Some msg \<Rightarrow> (SimilarityFailed msg, sent2)
                | None \<Rightarrow>
                    (Combined similarity_result pairwise_result
                       ((case sim_tokens_used similarity_result of None \<Rightarrow> 0 | Some t \<Rightarrow> t)
                        + (case total_tokens_used pairwise_result of None \<Rightarrow> 0 | Some t \<Rightarrow> t)),
                     sent2))))"

text \<open>The final report: the counts of its summary and the lists it carries.\<close>

record final_report =
  total_urls_provided :: nat
  successful_downloads :: nat
  successful_analyses :: nat
  total_frames_extracted :: nat
  total_frames_analyzed :: nat
  report_tokens_used :: int
  estimated_cost_usd :: rat
  download_results :: "download_result list"
  video_analyses :: "video_result list"
  similarity_analysis :: similarity_analysis
  video_titles :: "string list"

text \<open>
  \<^verbatim>\<open>generate_final_report\<close>. The titles are read with
  \<^verbatim>\<open>r.get('info', {}).get('title', 'Unknown')\<close>, which raises for an \<^verbatim>\<open>info\<close> of
  \<^verbatim>\<open>None\<close>.
\<close>

fun titles_of :: "video_result list \<Rightarrow> py_error + string list" where
  "titles_of [] = Inr []"
| "titles_of (r # rs) =
     (case dl_info r of
        None \<Rightarrow> Inl (AttributeError ([CHR 0x27] @ ''NoneType'' @ [CHR 0x27]
                       @ '' object has no attribute '' @ [CHR 0x27] @ ''get'' @ [CHR 0x27]))
      | Some info \<Rightarrow>
          (case titles_of rs of Inl e \<Rightarrow> Inl e | Inr titles \<Rightarrow> Inr (yt_title info # titles)))"

definition generate_final_report :: "download_result list \<Rightarrow> video_result list \<Rightarrow>
    similarity_analysis \<Rightarrow> py_error + final_report" where
  "generate_final_report downloads video_results similarity_result =
     (let successful_videos = filter breakdown_success video_results;
          n_extracted =
            sum_list (map (\<lambda>r. case vr_frames_extracted r of None \<Rightarrow> 0 | Some n \<Rightarrow> n)
                        successful_videos);
          n_analyzed =
            sum_list (map (\<lambda>r. case vr_frames_analyzed r of None \<Rightarrow> 0 | Some n \<Rightarrow> n)
                        successful_videos);
          n_tokens =
            sum_list (map (\<lambda>r. case vr_total_tokens r of None \<Rightarrow> 0 | Some t \<Rightarrow> t)
                        successful_videos)
            + (case similarity_result of Combined s p t \<Rightarrow> t | SimilarityFailed e \<Rightarrow> 0)
      in case titles_of successful_videos of
           Inl e \<Rightarrow> Inl e
         | Inr titles \<Rightarrow>
             Inr \<lparr>total_urls_provided = length downloads,
                  successful_downloads = length (filter dl_success downloads),
                  successful_analyses = length successful_videos,
                  total_frames_extracted = n_extracted,
                  total_frames_analyzed = n_analyzed,
                  report_tokens_used = n_tokens,
                  estimated_cost_usd = float_mul (py_float n_tokens) (to_double (15 / 1000000)),
                  download_results = downloads,
                  video_analyses = video_results,
                  similarity_analysis = similarity_result,
                  video_titles = titles\<rparr>)"

text \<open>Lines 104-115: the loop over \<^verbatim>\<open>enumerate(successful_downloads, 1)\<close>.\<close>

fun video_loop :: "world \<Rightarrow> int \<Rightarrow> int \<Rightarrow> int \<Rightarrow> string \<Rightarrow> (nat \<times> download_result) list \<Rightarrow>
    video_result list \<times> request list \<Rightarrow> video_result list \<times> request list" where
  "video_loop w duration_seconds max_frames_per_video batch_size frames_dir [] st = st"
| "video_loop w duration_seconds max_frames_per_video batch_size frames_dir
       ((i, download_result) # rest) st =
     (let (video_results, sent) = st;
          (video_result, sent') =
            process_single_video w sent download_result duration_seconds max_frames_per_video
              batch_size i frames_dir
      in video_loop w duration_seconds max_frames_per_video batch_size frames_dir rest
           (video_results @ [video_result], sent'))"

text \<open>
  What \<^verbatim>\<open>process_youtube_urls\<close> returns: the early failure dict when no video was
  downloaded, or the final report.
\<close>

datatype batch_result = NoDownloads "download_result list" | Report final_report

definition process_youtube_urls :: "world \<Rightarrow> request list \<Rightarrow> string \<Rightarrow> string list \<Rightarrow> int \<Rightarrow> int \<Rightarrow>
    int \<Rightarrow> int \<Rightarrow> (py_error + batch_result) \<times> request list" where
  "process_youtube_urls w sent output_dir urls duration_seconds max_videos max_frames_per_video
       batch_size =
     (let downloads =
            download_multiple_videos (w_downloader w) urls duration_seconds max_videos;
          successes = filter dl_success downloads
      in if successes = [] then (Inr (NoDownloads downloads), sent)
         else
           let (video_results, sent1) =
                 video_loop w duration_seconds max_frames_per_video batch_size
                   (os_path_join output_dir ''frames'')
                   (enumerate 1 successes) ([], sent);
               (similarity_result, sent2) = analyze_video_similarities w sent1 video_results
           in case generate_final_report downloads video_results similarity_result of
                Inl e \<Rightarrow> (Inl e, sent2)
              | Inr report \<Rightarrow>
                  (case w_write_error w ReportFile of
                     Some msg \<Rightarrow> (Inl (OSError msg), sent2)
                   | None \<Rightarrow> (Inr (Report report), sent2)))"

section \<open>Concrete videos\<close>

text \<open>A five second clip at 10 frames per second, every frame readable and writable.\<close>

definition clip_5s :: video where
  "clip_5s = \<lparr>video_path = ''clip.mp4'', is_opened = True, cap_fps = 10, cap_frame_count = 50, cap_width = 640, cap_height = 360,
      read_ok = (\<lambda>_. True), write_ok = (\<lambda>_. True)\<rparr>"

text \<open>A file that opens and has no frames; one that does not open; one that opens and
  reports a frame rate of zero; one whose first frame cannot be decoded.\<close>

definition empty_clip :: video where
  "empty_clip = \<lparr>video_path = ''empty.mp4'', is_opened = True, cap_fps = 30, cap_frame_count = 0, cap_width = 640, cap_height = 360,
      read_ok = (\<lambda>_. True), write_ok = (\<lambda>_. True)\<rparr>"

definition missing_clip :: video where
  "missing_clip = \<lparr>video_path = ''missing.mp4'', is_opened = False, cap_fps = 0, cap_frame_count = 0, cap_width = 640, cap_height = 360,
      read_ok = (\<lambda>_. False), write_ok = (\<lambda>_. False)\<rparr>"

definition stalled_clip :: video where
  "stalled_clip = \<lparr>video_path = ''stalled.mp4'', is_opened = True, cap_fps = 0, cap_frame_count = 0, cap_width = 640, cap_height = 360,
      read_ok = (\<lambda>_. False), write_ok = (\<lambda>_. True)\<rparr>"

definition gap_clip :: video where
  "gap_clip = \<lparr>video_path = ''gap.mp4'', is_opened = True, cap_fps = 10, cap_frame_count = 30, cap_width = 640, cap_height = 360,
      read_ok = (\<lambda>k. k \<noteq> 0), write_ok = (\<lambda>_. True)\<rparr>"

text \<open>Nine frames at 7.75 frames per second; the tenth read fails.\<close>

definition odd_rate_clip :: video where
  "odd_rate_clip = \<lparr>video_path = ''odd.mp4'', is_opened = True, cap_fps = 31 / 4,
      cap_frame_count = 9, cap_width = 640, cap_height = 360, read_ok = (\<lambda>k. 0 \<le> k \<and> k < 9), write_ok = (\<lambda>_. True)\<rparr>"

text \<open>
  Fifteen frames at 11 frames per second: the duration \<open>15 / 11\<close> is no double, and the
  product of the frame rate and the rounded duration is the double just below 15.
\<close>

definition short_clip :: video where
  "short_clip = \<lparr>video_path = ''short.mp4'', is_opened = True, cap_fps = 11,
      cap_frame_count = 15, cap_width = 640, cap_height = 360,
      read_ok = (\<lambda>k. 0 \<le> k \<and> k < 15), write_ok = (\<lambda>_. True)\<rparr>"

text \<open>
  Forty frames at 8 frames per second; the frame at position 10 cannot be decoded and
  the one at position 30 cannot be written.
\<close>

definition skip_clip :: video where
  "skip_clip = \<lparr>video_path = ''skip.mp4'', is_opened = True, cap_fps = 8,
      cap_frame_count = 40, cap_width = 640, cap_height = 360,
      read_ok = (\<lambda>k. 0 \<le> k \<and> k < 40 \<and> k \<noteq> 10), write_ok = (\<lambda>k. k \<noteq> 30)\<rparr>"

text \<open>
  Sixty frames at 25 frames per second; the read at position 60 fails. The double
  nearest to 1.16, an interval in seconds.
\<close>

definition pal_clip :: video where
  "pal_clip = \<lparr>video_path = ''pal.mp4'', is_opened = True, cap_fps = 25,
      cap_frame_count = 60, cap_width = 720, cap_height = 576,
      read_ok = (\<lambda>k. 0 \<le> k \<and> k < 60), write_ok = (\<lambda>_. True)\<rparr>"

definition interval_1_16 :: rat where
  "interval_1_16 = 5224175567749775 / 2 ^ 52"

section \<open>Concrete frames and oracles\<close>

text \<open>Three frame files on disk, and an oracle whose second answer is a timeout.\<close>

definition demo_files :: files where
  "demo_files = [''f1.jpg'' \<mapsto> ''AAA'', ''f2.jpg'' \<mapsto> ''BBB'', ''f3.jpg'' \<mapsto> ''CCC'']"

definition demo_frames :: "(rat \<times> string) list" where
  "demo_frames = [(0, ''f1.jpg''), (1, ''f2.jpg''), (2, ''f3.jpg'')]"

definition flaky_llm :: llm where
  "flaky_llm n req =
     (if n = 1 then Inl ''Request timed out''
      else Inr \<lparr>content = ''a scene'', total_tokens = 100\<rparr>)"

section \<open>Concrete analyses and video results\<close>

text \<open>
  The measurements of a video, two frame analyses that both failed, and the result of a
  video titled \<open>title\<close> whose breakdown succeeded or not; four video results of which the
  second failed.
\<close>

definition demo_info :: video_info where
  "demo_info = \<lparr>vi_fps = 10, vi_total_frames = 50, vi_duration_seconds = 5,
      vi_width = 640, vi_height = 360\<rparr>"

definition failed_analyses :: "frame_analysis list" where
  "failed_analyses =
     [\<lparr>success = False, description = ''Error analyzing frame: Request timed out'',
       error = Some ''Request timed out'', tokens_used = None, model = None,
       timestamp = 0, frame_path = ''f1.jpg'', frame_number = 1\<rparr>,
      \<lparr>success = False, description = ''Error analyzing frame: Image file not found: f2.jpg'',
       error = Some ''Image file not found: f2.jpg'', tokens_used = None, model = None,
       timestamp = 1, frame_path = ''f2.jpg'', frame_number = 2\<rparr>]"

definition demo_video :: "string \<Rightarrow> bool \<Rightarrow> video_result" where
  "demo_video title ok =
     \<lparr>dl_url = ''https://youtu.be/'' @ title, dl_success = True,
      dl_video_path = Some (title @ ''.mp4''),
      dl_info = Some \<lparr>yt_id = title, yt_title = title\<rparr>, dl_error = None,
      dl_duration_limited_to = Some 20,
      breakdown_success = ok,
      breakdown_error = (if ok then None else Some ''No frames were extracted''),
      breakdown_data =
        (if ok
         then Some \<lparr>bd_video_file = title @ ''.mp4'', bd_video_info = demo_info,
                bd_frame_analyses = [],
                bd_video_summary = \<lparr>sum_success = True, sum_summary = Some (''about '' @ title),
                  sum_error = None, sum_tokens_used = Some 50, sum_frames_analyzed = Some 1\<rparr>\<rparr>
         else None),
      vr_frames_extracted = (if ok then Some 1 else None),
      vr_frames_analyzed = (if ok then Some 1 else None),
      vr_total_tokens = (if ok then Some 150 else None),
      vr_video_index = (if ok then Some 1 else None)\<rparr>"

definition demo_videos :: "video_result list" where
  "demo_videos = [demo_video ''a'' True, demo_video ''b'' False, demo_video ''c'' True,
      demo_video ''d'' True]"

section \<open>A concrete batch\<close>

text \<open>
  Five URLs, the second of which is no video URL; a downloader that finds every video and
  fails to download the third; a world in which the downloaded file of the fourth URL
  does not exist, every other downloaded file is the five second clip, every frame file
  exists, every JSON file can be written, and the oracle's second answer is a timeout.
\<close>

definition demo_urls :: "string list" where
  "demo_urls = [''https://youtu.be/first1'', ''not a url'',
      ''https://www.youtube.com/watch?v=broken'', ''https://youtu.be/third3'',
      ''https://youtu.be/fourth4'']"

definition demo_downloader :: downloader where
  "demo_downloader =
     \<lparr>yt_get_video_info = (\<lambda>url. Some \<lparr>yt_id = drop 17 url, yt_title = ''video '' @ drop 17 url\<rparr>),
      download_video = (\<lambda>url duration_seconds.
         if url = ''https://www.youtube.com/watch?v=broken'' then None
         else Some (''downloads/'' @ drop 17 url @ ''.mp4''))\<rparr>"

definition demo_world :: world where
  "demo_world =
     \<lparr>w_downloader = demo_downloader,
      w_exists = (\<lambda>path. path \<noteq> ''downloads/third3.mp4''),
      w_capture = (\<lambda>path. clip_5s),
      w_files = (\<lambda>path. Some ''jpeg''), w_path_text = (\<lambda>path. ''frame.jpg''),
      w_llm = flaky_llm, w_write_error = (\<lambda>file. None)\<rparr>"

text \<open>A URL whose video id is the letter at code point 0xe9.\<close>

definition latin1_url :: string where
  "latin1_url = ''https://youtu.be/'' @ [CHR 0xe9]"

section \<open>Auxiliary notions\<close>

text \<open>
  Notions the proofs use to say what the loops of the model compute. None of them is
  part of the program.
\<close>

text \<open>What one selected position contributes when its frame is read and written.\<close>

definition frame_of :: "string \<Rightarrow> rat \<Rightarrow> nat \<times> int \<Rightarrow> sampled_frame" where
  "frame_of output_dir fps p =
     (float_div (py_float (snd p)) fps,
      FramePath output_dir (int (fst p) + 1) (float_div (py_float (snd p)) fps))"

definition kept :: "video \<Rightarrow> nat \<times> int \<Rightarrow> bool" where
  "kept cap p = (read_ok cap (snd p) \<and> write_ok cap (snd p))"

definition interval_frame_of :: "string \<Rightarrow> rat \<Rightarrow> int \<Rightarrow> interval_frame" where
  "interval_frame_of output_dir fps k =
     (float_div (py_float k) fps, StampPath output_dir (float_div (py_float k) fps))"

text \<open>
  What the \<^verbatim>\<open>try\<close> block of \<^verbatim>\<open>analyze_frame_async\<close> comes to when \<open>n\<close> requests were
  sent before: the exception of the encoder, or the oracle's outcome for this request.
\<close>

definition prompt_of :: "string option \<Rightarrow> prompt" where
  "prompt_of custom_prompt =
     (case custom_prompt of
        None \<Rightarrow> FRAME_ANALYSIS_PROMPT
      | Some p \<Rightarrow> if p = [] then FRAME_ANALYSIS_PROMPT else CustomPrompt p)"

definition frame_try :: "files \<Rightarrow> llm \<Rightarrow> nat \<Rightarrow> string \<Rightarrow> string option \<Rightarrow> string + completion" where
  "frame_try fs llm n image_path custom_prompt =
     (case fs image_path of
        None \<Rightarrow> Inl (''Image file not found: '' @ image_path)
      | Some data \<Rightarrow> llm n (VisionRequest (prompt_of custom_prompt) data))"

text \<open>The dict built from the outcome of the \<^verbatim>\<open>try\<close> block.\<close>

definition analysis_of :: "string + completion \<Rightarrow> analysis_result" where
  "analysis_of outcome =
     (case outcome of
        Inl e \<Rightarrow> \<lparr>success = False, description = ''Error analyzing frame: '' @ e,
                  error = Some e, tokens_used = None, model = None\<rparr>
      | Inr response \<Rightarrow> \<lparr>success = True, description = content response, error = None,
                  tokens_used = Some (total_tokens response), model = Some ''gpt-4o''\<rparr>)"

definition frame_requests :: "files \<Rightarrow> string option \<Rightarrow> string \<Rightarrow> request list" where
  "frame_requests fs custom_prompt image_path =
     (case fs image_path of
        None \<Rightarrow> []
      | Some data \<Rightarrow> [VisionRequest (prompt_of custom_prompt) data])"

text \<open>The frames of a list analysed one after the other, the first one with index \<open>i\<close>.\<close>

fun seq_run :: "files \<Rightarrow> llm \<Rightarrow> request list \<Rightarrow> nat \<Rightarrow> (rat \<times> string) list \<Rightarrow>
    frame_analysis list \<times> request list" where
  "seq_run fs llm sent i [] = ([], sent)"
| "seq_run fs llm sent i ((ts, path) # rest) =
     (let (r, sent1) = analyze_frame_async fs llm sent path None;
          (rs, sent2) = seq_run fs llm sent1 (Suc i) rest
      in (with_metadata ts path i r # rs, sent2))"

text \<open>The number of requests the frames before position \<open>k\<close> send: one per existing image.\<close>

definition calls_before :: "files \<Rightarrow> (rat \<times> string) list \<Rightarrow> nat \<Rightarrow> nat" where
  "calls_before fs frame_data k = length (filter (\<lambda>(ts, path). fs path \<noteq> None) (take k frame_data))"

text \<open>The entry of a video result whose \<^verbatim>\<open>info\<close> is not \<^verbatim>\<open>None\<close>.\<close>

definition entry_of :: "nat \<times> video_result \<Rightarrow> video_summary_info" where
  "entry_of p = projr (summary_entry (fst p) (snd p))"

definition well_formed :: "video_result \<Rightarrow> bool" where
  "well_formed v = (breakdown_success v \<longrightarrow> dl_info v \<noteq> None)"

text \<open>The pairs \<open>(i, j)\<close> with \<open>i < j < m\<close> in the order of the two nested loops.\<close>

definition index_pairs :: "nat \<Rightarrow> (nat \<times> nat) list" where
  "index_pairs m = concat (map (\<lambda>i. map (Pair i) [i + 1..<m]) [0..<m])"

definition pair_request :: "video_summary_info list \<Rightarrow> nat \<times> nat \<Rightarrow> request" where
  "pair_request summaries p =
     PairRequest (vs_title (summaries ! fst p)) (take 500 (vs_summary (summaries ! fst p)))
       (vs_title (summaries ! snd p)) (take 500 (vs_summary (summaries ! snd p)))"

definition pair_entry :: "video_summary_info list \<Rightarrow> nat \<times> nat \<Rightarrow> string + completion \<Rightarrow>
    comparison" where
  "pair_entry summaries p outcome =
     \<lparr>video1_index = fst p + 1, video2_index = snd p + 1,
      video1_title = vs_title (summaries ! fst p), video2_title = vs_title (summaries ! snd p),
      comparison_text = (case outcome of Inr response \<Rightarrow> content response
                                       | Inl e \<Rightarrow> ''Error: '' @ e),
      cmp_tokens_used = (case outcome of Inr response \<Rightarrow> total_tokens response | Inl e \<Rightarrow> 0)\<rparr>"

text \<open>What a video result is to the download it was made from.\<close>

definition result_of :: "download_result \<Rightarrow> video_result \<Rightarrow> bool" where
  "result_of dr r =
     (download_result.truncate r = dr
      \<and> (\<not> breakdown_success r \<longrightarrow> breakdown_error r \<noteq> None)
      \<and> (breakdown_success r \<longrightarrow> dl_info r \<noteq> None \<and> breakdown_data r \<noteq> None))"

text \<open>
  What the orchestrator makes of a downloaded video with file \<open>path\<close> and info \<open>info\<close>,
  processed as video number \<open>i\<close>: the failure record of a file that does not validate, the
  failure record of an extraction without frames, and the success record otherwise (for
  a positive frame rate, a positive batch size and a breakdown file that can be written).
\<close>

definition processed :: "world \<Rightarrow> int \<Rightarrow> int \<Rightarrow> int \<Rightarrow> string \<Rightarrow> nat \<Rightarrow> string \<Rightarrow> yt_info \<Rightarrow>
    video_result \<Rightarrow> bool" where
  "processed w duration_seconds max_frames_per_video batch_size frames_dir i path info r =
     (let cap = w_capture w path;
          extracted = fst (extract_fixed_frames cap
              (os_path_join frames_dir (''video_'' @ digits10 i @ ''_'' @ yt_id info))
              max_frames_per_video (py_float duration_seconds))
      in (\<not> (w_exists w path \<and> is_opened cap) \<longrightarrow>
            \<not> breakdown_success r
            \<and> breakdown_error r = Some ''Video file validation failed'')
       \<and> (w_exists w path \<and> is_opened cap \<and> 0 < cap_fps cap \<and> extracted = Inr [] \<longrightarrow>
            \<not> breakdown_success r
            \<and> breakdown_error r = Some ''No frames were extracted'')
       \<and> (\<forall>frames. w_exists w path \<and> is_opened cap \<and> 0 < cap_fps cap
              \<and> extracted = Inr frames \<and> frames \<noteq> [] \<and> 0 < batch_size
              \<and> w_write_error w (BreakdownFile i (yt_id info)) = None \<longrightarrow>
            breakdown_success r \<and> breakdown_error r = None
            \<and> vr_video_index r = Some i
            \<and> vr_frames_extracted r = Some (length frames)
            \<and> (\<exists>data. breakdown_data r = Some data \<and> bd_video_file data = path
                  \<and> length (bd_frame_analyses data) = length frames)))"

text \<open>The relation between an enumerated download and its video result.\<close>

definition video_outcome :: "world \<Rightarrow> int \<Rightarrow> int \<Rightarrow> int \<Rightarrow> string \<Rightarrow> nat \<times> download_result \<Rightarrow>
    video_result \<Rightarrow> bool" where
  "video_outcome w duration_seconds max_frames_per_video batch_size frames_dir p r =
     (result_of (snd p) r
      \<and> (\<forall>path info. dl_video_path (snd p) = Some path \<and> dl_info (snd p) = Some info \<longrightarrow>
            processed w duration_seconds max_frames_per_video batch_size frames_dir (fst p)
              path info r))"

section \<open>Properties of the rounding to a double\<close>

lemma bit_length_bounds: "0 < n \<Longrightarrow> 2 ^ (bit_length n - 1) \<le> n \<and> n < 2 ^ bit_length n"
proof (induction n rule: bit_length.induct)
  case (1 n)
  show ?case
  proof (cases "n div 2 = 0")
    case True
    with 1(2) have "n = Suc 0" by (simp add: div_eq_0_iff) 
    then show ?thesis by (simp add: bit_length.simps [of "Suc 0"] bit_length.simps [of 0])
  next
    case False
    with 1 have IH: "2 ^ (bit_length (n div 2) - 1) \<le> n div 2" "n div 2 < 2 ^ bit_length (n div 2)"
      by simp_all
    from False have pos: "0 < bit_length (n div 2)" by (simp add: bit_length.simps [of "n div 2"])
    from 1(2) have bl: "bit_length n = Suc (bit_length (n div 2))"
      by (simp add: bit_length.simps [of n])
    from IH(1) have "2 * 2 ^ (bit_length (n div 2) - 1) \<le> n" by simp
    moreover from pos have "2 * (2::nat) ^ (bit_length (n div 2) - 1) = 2 ^ bit_length (n div 2)"
      by (cases "bit_length (n div 2)") simp_all
    moreover from IH(2) have "n < 2 * 2 ^ bit_length (n div 2)" by simp
    ultimately show ?thesis by (simp add: bl)
  qed
qed

lemma bit_length_pos: "0 < n \<Longrightarrow> 0 < bit_length n"
  by (simp add: bit_length.simps [of n])

lemma binade_bounds:
  assumes "x \<noteq> 0"
  shows "2 powi binade x \<le> \<bar>x\<bar> \<and> \<bar>x\<bar> < 2 powi (binade x + 1)"
proof -
  obtain p q where pq: "quotient_of \<bar>x\<bar> = (p, q)" by (cases "quotient_of \<bar>x\<bar>")
  then have q: "0 < q" by (rule quotient_of_denom_pos)
  from pq have x: "\<bar>x\<bar> = of_int p / of_int q" by (rule quotient_of_div)
  from assms have "0 < \<bar>x\<bar>" by simp
  with x q have p: "0 < p" by (simp add: zero_less_divide_iff)
  define bp where "bp = bit_length (nat p)"
  define bq where "bq = bit_length (nat q)"
  define d where "d = int bp - int bq"
  from p have bpp: "0 < bp" by (simp add: bp_def bit_length_pos)
  from q have bqp: "0 < bq" by (simp add: bq_def bit_length_pos)
  from bit_length_bounds [of "nat p"] p
  have "2 ^ (bp - 1) \<le> nat p" "nat p < 2 ^ bp" by (simp_all add: bp_def)
  then have "int (2 ^ (bp - 1)) \<le> p" "p < int (2 ^ bp)" using p by linarith+
  then have P: "(2::rat) ^ (bp - 1) \<le> of_int p" "(of_int p :: rat) < 2 ^ bp"
    by (metis of_int_le_iff of_int_of_nat_eq of_nat_numeral of_nat_power,
        metis of_int_less_iff of_int_of_nat_eq of_nat_numeral of_nat_power)
  from bit_length_bounds [of "nat q"] q
  have "2 ^ (bq - 1) \<le> nat q" "nat q < 2 ^ bq" by (simp_all add: bq_def)
  then have "int (2 ^ (bq - 1)) \<le> q" "q < int (2 ^ bq)" using q by linarith+
  then have Q: "(2::rat) ^ (bq - 1) \<le> of_int q" "(of_int q :: rat) < 2 ^ bq"
    by (metis of_int_le_iff of_int_of_nat_eq of_nat_numeral of_nat_power,
        metis of_int_less_iff of_int_of_nat_eq of_nat_numeral of_nat_power)
  have "of_int p / of_int q < (2::rat) ^ bp / 2 ^ (bq - 1)"
    using p P(2) Q(1) by (intro frac_less) simp_all
  also have "(2::rat) ^ bp / 2 ^ (bq - 1) = 2 powi (int bp - int (bq - 1))"
    by (simp add: power_int_diff)
  also from bqp have "int bp - int (bq - 1) = d + 1" by (simp add: d_def)
  finally have up: "\<bar>x\<bar> < 2 powi (d + 1)" by (simp add: x)
  have "(2::rat) ^ (bp - 1) / 2 ^ bq < of_int p / of_int q"
    using q P(1) Q(2) by (intro frac_less2) simp_all
  moreover have "(2::rat) ^ (bp - 1) / 2 ^ bq = 2 powi (int (bp - 1) - int bq)"
    by (simp add: power_int_diff)
  moreover from bpp have "int (bp - 1) - int bq = d - 1" by (simp add: d_def)
  ultimately have lo: "2 powi (d - 1) < \<bar>x\<bar>" by (simp add: x)
  have b: "binade x = (if 2 powi d \<le> \<bar>x\<bar> then d else d - 1)"
    by (simp add: binade_def pq d_def bp_def bq_def Let_def)
  show ?thesis
  proof (cases "2 powi d \<le> \<bar>x\<bar>")
    case True
    with up b show ?thesis by simp
  next
    case False
    with lo b show ?thesis by simp
  qed
qed

lemma binade_unique:
  assumes "2 powi k \<le> \<bar>x\<bar>" "\<bar>x\<bar> < 2 powi (k + 1)"
  shows "binade x = k"
proof -
  have "(0::rat) < 2 powi k" by (simp add: zero_less_power_int)
  with assms(1) have "0 < \<bar>x\<bar>" by linarith
  then have nz: "x \<noteq> 0" by simp
  from binade_bounds [OF nz] assms
  have "(2::rat) powi binade x < 2 powi (k + 1)" "(2::rat) powi k < 2 powi (binade x + 1)"
    by linarith+
  then have "binade x < k + 1" "k < binade x + 1"
    by (metis not_less power_int_increasing one_le_numeral)+
  then show ?thesis by simp
qed

lemma round_half_even_error: "\<bar>of_int (round_half_even s) - s\<bar> \<le> 1 / 2"
proof -
  have "of_int \<lfloor>s\<rfloor> \<le> s" "s < of_int \<lfloor>s\<rfloor> + 1" by linarith+
  then show ?thesis
    by (auto simp: round_half_even_def Let_def)
qed

lemma round_half_even_unique:
  assumes "\<bar>s - of_int m\<bar> < 1 / 2"
  shows "round_half_even s = m"
proof -
  from round_half_even_error [of s] assms
  have "\<bar>(of_int (round_half_even s) :: rat) - of_int m\<bar> < 1" by linarith
  then have "\<bar>(of_int (round_half_even s - m) :: rat)\<bar> < 1" by simp
  then have "\<bar>round_half_even s - m\<bar> < 1"
    by (metis of_int_abs of_int_less_1_iff)
  then show ?thesis by simp
qed

lemma round_half_even_of_int [simp]: "round_half_even (of_int k) = k"
  by (rule round_half_even_unique) simp

lemma to_double_zero [simp]: "to_double 0 = 0"
  by (simp add: to_double_def)

lemma to_double_error: "\<bar>to_double x - x\<bar> \<le> \<bar>x\<bar> / 2 ^ 53"
proof (cases "x = 0")
  case True
  then show ?thesis by simp
next
  case False
  define u :: rat where "u = 2 powi (binade x - 52)"
  define s where "s = \<bar>x\<bar> / u"
  have u: "0 < u" by (simp add: u_def zero_less_power_int)
  have "u = 2 powi binade x / 2 ^ 52"
    by (simp add: u_def power_int_diff)
  with binade_bounds [OF False] have ule: "u \<le> \<bar>x\<bar> / 2 ^ 52"
    by (simp add: divide_right_mono)
  from False have td: "to_double x = sgn x * of_int (round_half_even s) * u"
    by (simp add: to_double_def Let_def u_def s_def)
  from u have "x = sgn x * s * u"
    by (simp add: s_def sgn_mult_abs)
  then have "to_double x - x = sgn x * (of_int (round_half_even s) - s) * u"
    by (simp add: td algebra_simps)
  then have "\<bar>to_double x - x\<bar> = \<bar>of_int (round_half_even s) - s\<bar> * u"
    using False u by (simp add: abs_mult abs_sgn_eq)
  also have "\<dots> \<le> (1 / 2) * u"
    using u by (intro mult_right_mono round_half_even_error) simp
  also have "\<dots> \<le> \<bar>x\<bar> / 2 ^ 53"
    using ule by simp
  finally show ?thesis .
qed

lemma to_double_dyadic:
  assumes "\<bar>m\<bar> < 2 ^ 53"
  shows "to_double (of_int m * 2 powi k) = of_int m * 2 powi k"
proof (cases "m = 0")
  case True
  then show ?thesis by simp
next
  case False
  define x :: rat where "x = of_int m * 2 powi k"
  have p2: "(0::rat) < 2 powi j" for j by (simp add: zero_less_power_int)
  from False have nz: "x \<noteq> 0" using p2 [of k] by (simp add: x_def)
  have ax: "\<bar>x\<bar> = of_int \<bar>m\<bar> * 2 powi k"
    using p2 [of k] by (simp add: x_def abs_mult)
  from assms have "(of_int \<bar>m\<bar> :: rat) < 2 ^ 53"
    by (metis of_int_less_iff of_int_numeral of_int_power)
  then have "\<bar>x\<bar> < 2 ^ 53 * 2 powi k"
    using p2 [of k] by (simp add: ax)
  also have "\<dots> = 2 powi (53 + k)"
    by (simp add: power_int_add)
  finally have "(2::rat) powi binade x < 2 powi (53 + k)"
    using binade_bounds [OF nz] by linarith
  then have "binade x < 53 + k"
    by (metis not_less power_int_increasing one_le_numeral)
  define j where "j = nat (k - (binade x - 52))"
  with \<open>binade x < 53 + k\<close> have j: "k - (binade x - 52) = int j" by simp
  have "\<bar>x\<bar> / 2 powi (binade x - 52) = of_int \<bar>m\<bar> * 2 powi (k - (binade x - 52))"
    by (simp add: ax power_int_diff)
  also have "\<dots> = of_int (\<bar>m\<bar> * 2 ^ j)"
    by (simp add: j)
  finally have "round_half_even (\<bar>x\<bar> / 2 powi (binade x - 52)) = \<bar>m\<bar> * 2 ^ j"
    by (simp only: round_half_even_of_int)
  then have "to_double x = sgn x * (of_int \<bar>m\<bar> * 2 ^ j) * 2 powi (binade x - 52)"
    using nz by (simp add: to_double_def Let_def)
  also have "(2::rat) ^ j = 2 powi (k - (binade x - 52))" by (simp add: j)
  also have "sgn x * (of_int \<bar>m\<bar> * 2 powi (k - (binade x - 52))) * 2 powi (binade x - 52)
      = sgn x * \<bar>x\<bar>"
    by (simp add: ax power_int_diff)
  finally show ?thesis by (simp add: x_def [symmetric] sgn_mult_abs)
qed

lemma to_double_of_int: "\<bar>m\<bar> < 2 ^ 53 \<Longrightarrow> to_double (of_int m) = of_int m"
  using to_double_dyadic [of m 0] by simp

lemma to_double_half: "\<bar>to_double x - x\<bar> \<le> \<bar>x\<bar> / 2"
proof -
  have "\<bar>x\<bar> / 2 ^ 53 \<le> \<bar>x\<bar> / 2" by (intro divide_left_mono) simp_all
  with to_double_error [of x] show ?thesis by linarith
qed

lemma to_double_nonneg: "0 \<le> x \<Longrightarrow> 0 \<le> to_double x"
  using to_double_half [of x] by linarith

lemma to_double_pos: "0 < x \<Longrightarrow> 0 < to_double x"
  using to_double_half [of x] by linarith

lemma to_double_nonpos: "x \<le> 0 \<Longrightarrow> to_double x \<le> 0"
  using to_double_half [of x] by linarith

lemma to_double_eqI:
  assumes "0 < x" "2 ^ 52 \<le> x / 2 powi k" "x / 2 powi k < 2 ^ 53"
    "\<bar>x / 2 powi k - of_int m\<bar> < 1 / 2" "y = of_int m * 2 powi k"
  shows "to_double x = y"
proof -
  have p2: "(0::rat) < 2 powi k" by (simp add: zero_less_power_int)
  from assms(2) p2 have "2 ^ 52 * 2 powi k \<le> x" by (simp add: field_simps)
  then have lo: "2 powi (k + 52) \<le> \<bar>x\<bar>" using assms(1) by (simp add: power_int_add mult.commute)
  from assms(3) p2 have "x < 2 ^ 53 * 2 powi k" by (simp add: field_simps)
  then have "\<bar>x\<bar> < 2 powi (k + 53)" using assms(1) by (simp add: power_int_add mult.commute)
  then have "\<bar>x\<bar> < 2 powi (k + 52 + 1)" by (simp add: add.assoc)
  with lo have "binade x = k + 52" by (rule binade_unique)
  moreover from assms(1,4) have "round_half_even (\<bar>x\<bar> / 2 powi k) = m"
    by (intro round_half_even_unique) simp
  ultimately show ?thesis using assms(1,5) by (simp add: to_double_def)
qed

lemma py_int_eqI: "0 \<le> z \<Longrightarrow> of_int z \<le> x \<Longrightarrow> x < of_int z + 1 \<Longrightarrow> py_int x = z"
  by (simp add: py_int_def floor_unique)

lemma py_int_true_div:
  assumes "0 \<le> a" "a < 2 ^ 53" "0 < b"
  shows "py_int (int_true_div a b) = a div b"
proof -
  define x :: rat where "x = of_int a / of_int b"
  define t where "t = to_double x"
  from assms have x0: "0 \<le> x" by (simp add: x_def)
  then have t0: "0 \<le> t" unfolding t_def by (rule to_double_nonneg)
  have fl: "\<lfloor>x\<rfloor> = a div b" by (simp add: x_def floor_divide_of_int_eq)
  have "\<lfloor>t\<rfloor> = a div b"
  proof (cases "a mod b = 0")
    case True
    then have "a = b * (a div b)" by auto
    then have "x = of_int (a div b)" using assms(3)
      by (metis x_def nonzero_mult_div_cancel_left of_int_0_eq_iff of_int_mult less_irrefl)
    moreover have "\<bar>a div b\<bar> < 2 ^ 53"
    proof -
      from assms have "0 \<le> a div b" by (simp add: pos_imp_zdiv_nonneg_iff)
      moreover from assms have "a div b \<le> a" using zdiv_mono2 [of a 1 b] by simp
      ultimately show ?thesis using assms(2) by simp
    qed
    ultimately have "t = of_int (a div b)" by (simp add: t_def to_double_of_int)
    then show ?thesis by simp
  next
    case False
    with assms(3) have r: "1 \<le> a mod b" "a mod b \<le> b - 1"
      using pos_mod_sign [of b a] pos_mod_bound [of b a] by linarith+
    have b: "(0::rat) < of_int b" using assms(3) by simp
    have "x = of_int (a div b) + of_int (a mod b) / of_int b"
      using assms(3) by (simp add: x_def field_simps flip: of_int_mult of_int_add)
    moreover from r b have "1 / of_int b \<le> (of_int (a mod b) :: rat) / of_int b"
      "(of_int (a mod b) :: rat) / of_int b \<le> 1 - 1 / of_int b"
      by (simp_all add: field_simps flip: of_int_diff)
    ultimately have xb: "of_int (a div b) + 1 / of_int b \<le> x" "x \<le> of_int (a div b) + 1 - 1 / of_int b"
      by linarith+
    from assms have "(of_int a :: rat) < 2 ^ 53"
      by (metis of_int_less_iff of_int_numeral of_int_power)
    with b have "x / 2 ^ 53 < 1 / of_int b"
      by (simp add: x_def field_simps)
    moreover from to_double_error [of x] x0 have "\<bar>t - x\<bar> \<le> x / 2 ^ 53" by (simp add: t_def)
    ultimately have "\<bar>t - x\<bar> < 1 / of_int b" by linarith
    with xb have "of_int (a div b) < t" "t < of_int (a div b) + 1" by linarith+
    then show ?thesis by linarith
  qed
  with t0 show ?thesis by (simp add: py_int_def int_true_div_def t_def x_def)
qed

lemma to_double_quot_strict:
  assumes "0 < fps" "0 \<le> a" "a < b" "b < 2 ^ 52"
  shows "to_double (of_int a / fps) < to_double (of_int b / fps)"
proof -
  define x where "x = of_int a / fps"
  define y where "y = of_int b / fps"
  from assms have x0: "0 \<le> x" and y0: "0 < y" by (simp_all add: x_def y_def)
  from assms have "a + b < 2 ^ 53" by simp
  then have "(of_int (a + b) :: rat) < 2 ^ 53"
    by (metis of_int_less_iff of_int_numeral of_int_power)
  then have "(of_int a + of_int b :: rat) / 2 ^ 53 < 1" by simp
  moreover from assms(3) have "(1::rat) \<le> of_int b - of_int a"
    by (metis of_int_diff of_int_1_le_iff diff_ge_0_iff_ge add_le_imp_le_diff zless_imp_add1_zle add.commute)
  ultimately have "(of_int a :: rat) + of_int a / 2 ^ 53 < of_int b - of_int b / 2 ^ 53"
    by (simp add: add_divide_distrib) 
  then have "(of_int a + of_int a / 2 ^ 53) / fps < (of_int b - of_int b / 2 ^ 53) / fps"
    using assms(1) by (rule divide_strict_right_mono)
  then have "x + x / 2 ^ 53 < y - y / 2 ^ 53"
    by (simp add: x_def y_def add_divide_distrib diff_divide_distrib)
  moreover from x0 have "\<bar>x\<bar> = x" by simp
  with to_double_error [of x] have "to_double x \<le> x + x / 2 ^ 53" by linarith
  moreover from y0 have "\<bar>y\<bar> = y" by simp
  with to_double_error [of y] have "y - y / 2 ^ 53 \<le> to_double y" by linarith
  ultimately show ?thesis unfolding x_def y_def by linarith
qed

lemma py_float_exact: "\<bar>n\<bar> < 2 ^ 53 \<Longrightarrow> py_float n = of_int n"
  by (simp add: py_float_def to_double_of_int)

lemma py_float_zero [simp]: "py_float 0 = 0"
  by (simp add: py_float_def)

lemma float_div_zero [simp]: "float_div 0 b = 0"
  by (simp add: float_div_def)

lemma float_mul_zero [simp]: "float_mul a 0 = 0"
  by (simp add: float_mul_def)

lemma timestamp_strict:
  assumes "0 < fps" "0 \<le> a" "a < b" "b < 2 ^ 52"
  shows "float_div (py_float a) fps < float_div (py_float b) fps"
proof -
  from assms have "\<bar>a\<bar> < 2 ^ 53" "\<bar>b\<bar> < 2 ^ 53" by simp_all
  then have "py_float a = of_int a" "py_float b = of_int b" by (simp_all add: py_float_exact)
  with to_double_quot_strict [OF assms] show ?thesis by (simp add: float_div_def)
qed

lemma to_double_exactI:
  assumes "x = of_int m * 2 powi k" "\<bar>m\<bar> < 2 ^ 53"
  shows "to_double x = x"
  unfolding assms(1) using assms(2) by (rule to_double_dyadic)

lemma to_double_numeral: "(numeral n :: int) < 2 ^ 53 \<Longrightarrow> to_double (numeral n) = numeral n"
  using to_double_of_int [of "numeral n"] by simp

lemma to_double_one [simp]: "to_double 1 = 1"
  using to_double_of_int [of 1] by simp

lemma py_float_numeral: "(numeral n :: int) < 2 ^ 53 \<Longrightarrow> py_float (numeral n) = numeral n"
  using py_float_exact [of "numeral n"] by simp

lemma py_float_one [simp]: "py_float 1 = 1"
  using py_float_exact [of 1] by simp

section \<open>Properties of the index selection\<close>

lemma py_int_floor_eq: "0 \<le> x \<Longrightarrow> py_int x = \<lfloor>x\<rfloor>"
  by (simp add: py_int_def)

lemma length_py_range: "length (py_range n) = nat n"
  by (simp add: py_range_def)

lemma set_py_range: "set (py_range n) = {0..<n}"
  by (auto simp: py_range_def)

lemma sorted_wrt_py_range: "sorted_wrt (<) (py_range n)"
  by (simp add: py_range_def)

lemma nth_py_range: "k < nat n \<Longrightarrow> py_range n ! k = int k"
  by (simp add: py_range_def)

lemma int_div_less:
  fixes x a m :: int
  assumes "0 < m" "x < a * m"
  shows "x div m < a"
proof (rule ccontr)
  assume "\<not> x div m < a"
  then have "a \<le> x div m" by simp
  with assms(1) have "a * m \<le> (x div m) * m" by (simp add: mult_right_mono)
  also have "\<dots> \<le> x"
    using div_mult_mod_eq [of x m] pos_mod_sign [OF assms(1), of x] by linarith
  finally show False using assms(2) by simp
qed

lemma sparse_index_eq:
  assumes "0 < max_frames" "0 \<le> analysis_frames" "analysis_frames * max_frames \<le> 2 ^ 53"
    "i \<in> set (py_range max_frames)"
  shows "py_int (int_true_div (i * analysis_frames) max_frames)
           = (i * analysis_frames) div max_frames"
proof -
  from assms(4) have i: "0 \<le> i" "i \<le> max_frames - 1" by (simp_all add: set_py_range)
  with assms(2) have nonneg: "0 \<le> i * analysis_frames" by simp
  from i(2) assms(2) have "i * analysis_frames \<le> (max_frames - 1) * analysis_frames"
    by (rule mult_right_mono)
  also have "\<dots> = analysis_frames * max_frames - analysis_frames"
    by (simp add: algebra_simps)
  finally have "i * analysis_frames < 2 ^ 53 \<or> analysis_frames = 0"
    using assms(2,3) by linarith
  then have "i * analysis_frames < 2 ^ 53" by auto
  with nonneg show ?thesis using assms(1) by (rule py_int_true_div)
qed

lemma sparse_step:
  assumes "0 < (m::int)" "m \<le> n" "0 \<le> i" "i < j"
  shows "(i * n) div m < (j * n) div m"
proof -
  from assms have "i * n + m \<le> j * n"
  proof -
    from \<open>i < j\<close> have "i + 1 \<le> j" by simp
    moreover from assms have "0 \<le> n" by simp
    ultimately have "(i + 1) * n \<le> j * n" by (rule mult_right_mono)
    with \<open>m \<le> n\<close> show ?thesis by (simp add: algebra_simps)
  qed
  then have "(i * n + m) div m \<le> (j * n) div m" by (rule zdiv_mono1) (rule assms(1))
  moreover from assms(1) have "(i * n + m) div m = (i * n) div m + 1" by simp
  ultimately show ?thesis by simp
qed

lemma sparse_indices_div:
  assumes "0 < max_frames" "max_frames < analysis_frames"
    "analysis_frames * max_frames \<le> 2 ^ 53"
  shows "select_indices analysis_frames max_frames
           = map (\<lambda>i. (i * analysis_frames) div max_frames) (py_range max_frames)"
proof -
  from assms have nonneg: "0 \<le> analysis_frames" by simp
  have "map (\<lambda>i. py_int (int_true_div (i * analysis_frames) max_frames))
          (py_range max_frames)
        = map (\<lambda>i. (i * analysis_frames) div max_frames) (py_range max_frames)"
    by (rule map_cong [OF refl]) (rule sparse_index_eq [OF assms(1) nonneg assms(3)])
  with assms(2) show ?thesis
    by (simp only: select_indices_def) simp
qed

lemma sparse_indices_strict:
  assumes "0 < max_frames" "max_frames < analysis_frames"
    "analysis_frames * max_frames \<le> 2 ^ 53"
  shows "sorted_wrt (<) (select_indices analysis_frames max_frames)"
proof -
  have "sorted_wrt (\<lambda>i j. (i * analysis_frames) div max_frames
          < (j * analysis_frames) div max_frames) (py_range max_frames)"
  proof (rule sorted_wrt_mono_rel [OF _ sorted_wrt_py_range [of max_frames]])
    fix i j
    assume "i \<in> set (py_range max_frames)" "j \<in> set (py_range max_frames)" "i < j"
    then have "0 \<le> i" by (simp add: set_py_range)
    with assms \<open>i < j\<close>
    show "(i * analysis_frames) div max_frames < (j * analysis_frames) div max_frames"
      by (intro sparse_step) simp_all
  qed
  then show ?thesis
    by (simp add: sparse_indices_div [OF assms] sorted_wrt_map)
qed

lemma select_indices_strict:
  assumes "max_frames < analysis_frames \<Longrightarrow> analysis_frames * max_frames \<le> 2 ^ 53"
  shows "sorted_wrt (<) (select_indices analysis_frames max_frames)"
proof (cases "analysis_frames \<le> max_frames")
  case True
  then show ?thesis by (simp add: select_indices_def sorted_wrt_py_range)
next
  case False
  show ?thesis
  proof (cases "0 < max_frames")
    case True
    with False assms show ?thesis by (intro sparse_indices_strict) simp_all
  next
    case False
    then have "py_range max_frames = []" by (simp add: py_range_def)
    with \<open>\<not> analysis_frames \<le> max_frames\<close> show ?thesis by (simp add: select_indices_def)
  qed
qed

lemma select_indices_bounds:
  assumes "max_frames < analysis_frames \<Longrightarrow> analysis_frames * max_frames \<le> 2 ^ 53"
    and "k \<in> set (select_indices analysis_frames max_frames)"
  shows "0 \<le> k \<and> k < analysis_frames"
proof (cases "analysis_frames \<le> max_frames")
  case True
  with assms(2) show ?thesis by (simp add: select_indices_def set_py_range)
next
  case False
  then have lt: "max_frames < analysis_frames" by simp
  show ?thesis
  proof (cases "0 < max_frames")
    case True
    from assms(2) sparse_indices_div [OF True lt assms(1) [OF lt]]
    obtain i where i: "0 \<le> i" "i < max_frames" and k: "k = (i * analysis_frames) div max_frames"
      by (auto simp: set_py_range)
    from True lt have af: "0 < analysis_frames" by simp
    from i af have "0 \<le> i * analysis_frames" by simp
    with True have lo: "0 \<le> k" by (simp add: k pos_imp_zdiv_nonneg_iff)
    from i(2) af have "i * analysis_frames < max_frames * analysis_frames"
      by (simp add: mult_strict_right_mono)
    with True have "(i * analysis_frames) div max_frames < analysis_frames"
      by (intro int_div_less) (simp_all add: mult.commute)
    with lo show ?thesis by (simp add: k)
  next
    case False
    then have "py_range max_frames = []" by (simp add: py_range_def)
    with \<open>\<not> analysis_frames \<le> max_frames\<close> assms(2) show ?thesis
      by (simp add: select_indices_def)
  qed
qed

lemma length_select_indices:
  "length (select_indices analysis_frames max_frames) = nat (min analysis_frames max_frames)"
  by (simp add: select_indices_def length_py_range min_def)

lemma select_indices_nonpos: "max_frames \<le> 0 \<Longrightarrow> select_indices analysis_frames max_frames = []"
  by (simp add: select_indices_def py_range_def)

lemma select_indices_empty_window:
  "analysis_frames \<le> 0 \<Longrightarrow> select_indices analysis_frames max_frames = []"
  by (simp add: select_indices_def py_range_def)

lemma hd_sparse_indices:
  assumes "0 < max_frames" "max_frames < analysis_frames"
  shows "hd (select_indices analysis_frames max_frames) = 0"
proof -
  from assms(1) have "py_range max_frames = 0 # [1..max_frames - 1]"
    by (simp add: py_range_def upto_rec1)
  with assms(2) show ?thesis
    by (simp add: select_indices_def int_true_div_def py_int_def)
qed

lemma analysis_frames_floor:
  fixes cap :: video and max_duration :: rat
  defines "x \<equiv> float_mul (cap_fps cap)
      (min (float_div (py_float (py_int (cap_frame_count cap))) (cap_fps cap)) max_duration)"
  shows "select_indices (analysis_frames_of cap max_duration) max_frames
           = select_indices \<lfloor>x\<rfloor> max_frames"
    and "0 \<le> x \<Longrightarrow> analysis_frames_of cap max_duration = \<lfloor>x\<rfloor>"
proof -
  have af: "analysis_frames_of cap max_duration = py_int x"
    by (simp add: analysis_frames_of_def Let_def x_def)
  show "select_indices (analysis_frames_of cap max_duration) max_frames
           = select_indices \<lfloor>x\<rfloor> max_frames"
  proof (cases "0 \<le> x")
    case True
    then show ?thesis by (simp add: af py_int_def)
  next
    case False
    then have "py_int x = \<lceil>x\<rceil>" by (simp add: py_int_def)
    moreover from False have "\<lceil>x\<rceil> \<le> 0" by (simp add: ceiling_le_iff)
    moreover from False have "\<lfloor>x\<rfloor> \<le> 0" by (simp add: floor_le_iff)
    ultimately show ?thesis by (simp add: af select_indices_empty_window)
  qed
  show "analysis_frames_of cap max_duration = \<lfloor>x\<rfloor>" if "0 \<le> x"
    using that by (simp add: af py_int_def)
qed

lemma window_nonneg:
  assumes "0 \<le> fps" "0 \<le> n" "0 \<le> max_duration"
  shows "0 \<le> float_mul fps (min (float_div (py_float n) fps) max_duration)"
proof -
  from assms(2) have "0 \<le> py_float n"
    by (simp add: py_float_def to_double_nonneg)
  with assms(1) have "0 \<le> float_div (py_float n) fps"
    by (simp add: float_div_def to_double_nonneg)
  with assms(3) have "0 \<le> min (float_div (py_float n) fps) max_duration" by simp
  with assms(1) show ?thesis
    by (simp add: float_mul_def to_double_nonneg)
qed

section \<open>Properties of the extraction loop\<close>

lemma extract_loop_eq:
  "extract_loop cap output_dir fps ps acc
     = acc @ map (frame_of output_dir fps) (filter (kept cap) ps)"
  by (induction ps arbitrary: acc) (auto simp: frame_of_def kept_def Let_def)

lemma extract_fixed_frames_ok:
  assumes "is_opened cap" "cap_fps cap \<noteq> 0"
  shows "extract_fixed_frames cap output_dir max_frames max_duration
           = (Inr (map (frame_of output_dir (cap_fps cap))
                    (filter (kept cap)
                      (enumerate 0 (select_indices (analysis_frames_of cap max_duration) max_frames)))),
              Released)"
  using assms by (simp add: extract_fixed_frames_def Let_def extract_loop_eq)

lemma zero_fps_raises:
  assumes "is_opened cap" "cap_fps cap = 0"
  shows "extract_fixed_frames cap output_dir max_frames max_duration
           = (Inl ZeroDivisionError, Opened)"
  using assms by (simp add: extract_fixed_frames_def)

lemma enumerate_fst_strict: "sorted_wrt (\<lambda>p q. fst p < fst q) (enumerate n xs)"
proof -
  have "sorted_wrt (<) (map fst (enumerate n xs))" by simp
  then show ?thesis by (simp only: sorted_wrt_map)
qed

lemma enumerate_snd_strict:
  assumes "sorted_wrt (<) xs"
  shows "sorted_wrt (\<lambda>p q. snd p < snd q) (enumerate n xs)"
proof -
  from assms have "sorted_wrt (<) (map snd (enumerate n xs))" by simp
  then show ?thesis by (simp only: sorted_wrt_map)
qed

lemma ordinals_strict:
  "sorted_wrt (<) (map (path_ordinal \<circ> snd)
      (map (frame_of output_dir fps) (filter (kept cap) (enumerate 0 xs))))"
proof -
  have "sorted_wrt (\<lambda>p q. fst p < fst q) (filter (kept cap) (enumerate 0 xs))"
    by (rule sorted_wrt_filter) (rule enumerate_fst_strict)
  then have "sorted_wrt (\<lambda>p q. int (fst p) + 1 < int (fst q) + 1)
      (filter (kept cap) (enumerate 0 xs))"
    by (rule sorted_wrt_mono_rel [rotated]) simp
  then show ?thesis
    by (simp only: sorted_wrt_map frame_of_def comp_def snd_conv frame_path.sel)
qed

lemma ordinals_range:
  assumes "f \<in> set (map (frame_of output_dir fps) (filter (kept cap) (enumerate 0 xs)))"
  shows "1 \<le> path_ordinal (snd f) \<and> path_ordinal (snd f) \<le> int (length xs)"
proof -
  from assms obtain p where p: "p \<in> set (enumerate 0 xs)" and f: "f = frame_of output_dir fps p"
    by auto
  obtain i k where ik: "p = (i, k)" by (cases p)
  with p have "i < length xs" by (simp add: in_set_enumerate_eq)
  with f ik show ?thesis by (simp add: frame_of_def)
qed

lemma timestamps_strict:
  assumes "0 < fps" "sorted_wrt (<) xs" "\<forall>k \<in> set xs. 0 \<le> k \<and> k < 2 ^ 52"
  shows "sorted_wrt (<) (map fst
      (map (frame_of output_dir fps) (filter (kept cap) (enumerate 0 xs))))"
proof -
  have "sorted_wrt (\<lambda>p q. snd p < snd q) (filter (kept cap) (enumerate 0 xs))"
    by (rule sorted_wrt_filter) (rule enumerate_snd_strict [OF assms(2)])
  moreover have "float_div (py_float (snd p)) fps < float_div (py_float (snd q)) fps"
    if "p \<in> set (filter (kept cap) (enumerate 0 xs))"
      "q \<in> set (filter (kept cap) (enumerate 0 xs))" "snd p < snd q" for p q
  proof -
    from that(1,2) have "fst p < length xs" "xs ! fst p = snd p"
      "fst q < length xs" "xs ! fst q = snd q"
      by (auto simp: in_set_enumerate_eq)
    then have "snd p \<in> set xs" "snd q \<in> set xs"
      by (metis nth_mem)+
    with assms(3) have "0 \<le> snd p" "snd q < 2 ^ 52" by simp_all
    with assms(1) that(3) show ?thesis by (intro timestamp_strict) simp_all
  qed
  ultimately have "sorted_wrt
      (\<lambda>p q. float_div (py_float (snd p)) fps < float_div (py_float (snd q)) fps)
      (filter (kept cap) (enumerate 0 xs))"
    by (rule sorted_wrt_mono_rel [rotated])
  then show ?thesis
    by (simp add: sorted_wrt_map frame_of_def)
qed

lemma ordinals_all_kept:
  assumes "\<forall>k \<in> set xs. read_ok cap k \<and> write_ok cap k"
  shows "map (path_ordinal \<circ> snd)
           (map (frame_of output_dir fps) (filter (kept cap) (enumerate 0 xs)))
         = map (\<lambda>n. int n + 1) [0..<length xs]"
proof -
  have "filter (kept cap) (enumerate 0 xs) = enumerate 0 xs"
  proof (rule filter_True, rule ballI)
    fix p assume p: "p \<in> set (enumerate 0 xs)"
    obtain i k where ik: "p = (i, k)" by (cases p)
    with p have "k \<in> set xs" by (auto simp: in_set_enumerate_eq)
    with assms ik show "kept cap p" by (simp add: kept_def)
  qed
  moreover have "map (path_ordinal \<circ> snd \<circ> frame_of output_dir fps) (enumerate 0 xs)
      = map (\<lambda>n. int n + 1) [0..<length xs]"
  proof -
    have "map (path_ordinal \<circ> snd \<circ> frame_of output_dir fps) (enumerate 0 xs)
        = map ((\<lambda>n. int n + 1) \<circ> fst) (enumerate 0 xs)"
      by (simp add: frame_of_def comp_def)
    also have "\<dots> = map (\<lambda>n. int n + 1) (map fst (enumerate 0 xs))"
      by (simp only: map_map)
    finally show ?thesis by simp
  qed
  ultimately show ?thesis by simp
qed

section \<open>Properties of interval sampling\<close>

lemma read_loop_eq:
  assumes "frame_interval \<noteq> 0" "\<forall>k. frame_count \<le> k \<and> k < n \<longrightarrow> read_ok cap k" "\<not> read_ok cap n"
    "frame_count \<le> n"
  shows "read_loop cap output_dir fps frame_interval frame_count acc
     = Some (Inr (acc @ map (interval_frame_of output_dir fps)
         (filter (\<lambda>k. k mod frame_interval = 0 \<and> write_ok cap k) [frame_count..n - 1])))"
  using assms(2,4)
proof (induction "nat (n - frame_count)" arbitrary: frame_count acc)
  case 0
  then have "frame_count = n" by simp
  with assms(3) show ?case
    by (subst read_loop.simps) simp
next
  case (Suc m)
  then have lt: "frame_count < n" by simp
  with Suc.prems have r: "read_ok cap frame_count" by simp
  from lt have up: "[frame_count..n - 1] = frame_count # [frame_count + 1..n - 1]"
    by (simp add: upto_rec1)
  have IH: "read_loop cap output_dir fps frame_interval (frame_count + 1) acc'
     = Some (Inr (acc' @ map (interval_frame_of output_dir fps)
         (filter (\<lambda>k. k mod frame_interval = 0 \<and> write_ok cap k) [frame_count + 1..n - 1])))"
    for acc'
    using Suc.hyps(2) Suc.prems lt by (intro Suc.hyps(1)) auto
  show ?case
    using r assms(1)
    by (subst read_loop.simps) (simp add: IH up interval_frame_of_def)
qed

section \<open>Properties of the frame analyzer and the batch scheduler\<close>

lemma analyze_frame_async_eq:
  "analyze_frame_async fs llm sent image_path custom_prompt
     = (analysis_of (frame_try fs llm (length sent) image_path custom_prompt),
        sent @ frame_requests fs custom_prompt image_path)"
  by (simp add: analyze_frame_async_def encode_image_to_base64_def chat_completions_create_def
      analysis_of_def frame_try_def frame_requests_def prompt_of_def Let_def
      split: option.splits sum.splits)

lemma analysis_of_failure:
  "analysis_of (Inl e)
     = \<lparr>success = False, description = ''Error analyzing frame: '' @ e, error = Some e,
        tokens_used = None, model = None\<rparr>"
  by (simp add: analysis_of_def)

lemma gather_length: "length (fst (gather fs llm sent ps)) = length ps"
  by (induction ps arbitrary: sent) (simp_all add: split_beta Let_def)

lemma batch_tasks_shift_from:
  "map (\<lambda>(j, (ts, path)). (ts, path, i + j)) (enumerate n batch)
     = map (\<lambda>(idx, (ts, path)). (ts, path, idx)) (enumerate (i + n) batch)"
  by (induction batch arbitrary: n) auto

lemma batch_tasks_shift:
  "map (\<lambda>(j, (ts, path)). (ts, path, i + j)) (enumerate 0 batch)
     = map (\<lambda>(idx, (ts, path)). (ts, path, idx)) (enumerate i batch)"
  using batch_tasks_shift_from [where i = i and n = 0 and batch = batch] by simp

lemma gather_seq:
  "seq_run fs llm sent i batch
     = (map (\<lambda>((ts, path, frame_idx), analysis_result).
               with_metadata ts path frame_idx analysis_result)
          (zip (map (\<lambda>(idx, (ts, path)). (ts, path, idx)) (enumerate i batch))
               (fst (gather fs llm sent (map snd batch)))),
        snd (gather fs llm sent (map snd batch)))"
proof (induction batch arbitrary: sent i)
  case Nil
  show ?case by simp
next
  case (Cons x xs)
  obtain ts path where x: "x = (ts, path)" by (cases x)
  show ?case
    by (simp add: x Cons.IH Let_def split_beta)
qed

lemma run_batch_seq: "run_batch fs llm sent i batch = seq_run fs llm sent i batch"
proof -
  have paths: "map (\<lambda>(ts, path, idx). path)
      (map (\<lambda>(idx, (ts, path)). (ts, path, idx)) (enumerate i batch)) = map snd batch"
    by (induction batch arbitrary: i) auto
  show ?thesis
    by (simp only: run_batch_def batch_tasks_shift Let_def paths gather_seq split_beta)
qed

lemma seq_run_append:
  "seq_run fs llm sent i (xs @ ys)
     = (let (rs, sent1) = seq_run fs llm sent i xs;
            (rs', sent2) = seq_run fs llm sent1 (i + length xs) ys
        in (rs @ rs', sent2))"
proof (induction xs arbitrary: sent i)
  case Nil
  show ?case by (simp add: split_beta)
next
  case (Cons x xs)
  obtain ts path where x: "x = (ts, path)" by (cases x)
  show ?case
    by (simp add: x Cons.IH Let_def split_beta)
qed

lemma batch_loop_seq:
  assumes "0 < batch_size"
  shows "batch_loop fs llm frame_data batch_size i (results, sent)
     = (let (rs, sent') = seq_run fs llm sent i (drop i frame_data)
        in (results @ rs, sent'))"
  using assms
proof (induction fs llm frame_data batch_size i "(results, sent)" arbitrary: results sent
    rule: batch_loop.induct)
  case (1 fs llm frame_data batch_size i results sent)
  show ?case
  proof (cases "i < length frame_data")
    case False
    then show ?thesis
      by (simp add: batch_loop.simps [of fs llm frame_data batch_size i])
  next
    case True
    define batch where "batch = take batch_size (drop i frame_data)"
    obtain rs1 sent1 where b: "seq_run fs llm sent i batch = (rs1, sent1)"
      by (cases "seq_run fs llm sent i batch")
    have "take batch_size (drop i frame_data) @ drop batch_size (drop i frame_data)
        = drop i frame_data"
      by (rule append_take_drop_id)
    then have split: "drop i frame_data = batch @ drop (i + batch_size) frame_data"
      by (simp add: batch_def add.commute)
    from True have len: "i + length batch = min (i + batch_size) (length frame_data)"
      by (auto simp: batch_def min_def)
    have rest: "drop (i + batch_size) frame_data = drop (i + length batch) frame_data"
      by (simp add: len min_def)
    have IH: "batch_loop fs llm frame_data batch_size (i + batch_size) (results @ rs1, sent1)
        = (let (rs, sent') = seq_run fs llm sent1 (i + batch_size) (drop (i + batch_size) frame_data)
           in ((results @ rs1) @ rs, sent'))"
      using True "1.prems" b
      by (intro "1.hyps" [OF _ refl]) (simp_all add: batch_def run_batch_seq)
    have idx: "seq_run fs llm sent1 (i + batch_size) (drop (i + batch_size) frame_data)
        = seq_run fs llm sent1 (i + length batch) (drop (i + batch_size) frame_data)"
    proof (cases "i + batch_size \<le> length frame_data")
      case True
      then show ?thesis by (simp add: len min_def)
    next
      case False
      then show ?thesis by simp
    qed
    have "batch_loop fs llm frame_data batch_size i (results, sent)
        = batch_loop fs llm frame_data batch_size (i + batch_size) (results @ rs1, sent1)"
      using True "1.prems" b
      by (simp add: batch_loop.simps [of fs llm frame_data batch_size i] run_batch_seq
          batch_def [symmetric])
    also note IH
    finally show ?thesis
      by (subst split) (simp add: seq_run_append b idx split_beta)
  qed
qed

lemma length_frame_requests:
  "length (frame_requests fs custom_prompt path) = (if fs path = None then 0 else 1)"
  by (simp add: frame_requests_def split: option.splits)

lemma calls_before_0: "calls_before fs frame_data 0 = 0"
  by (simp add: calls_before_def)

lemma calls_before_Cons:
  "calls_before fs ((ts, path) # rest) (Suc k)
     = (if fs path = None then 0 else 1) + calls_before fs rest k"
  by (simp add: calls_before_def)

lemma seq_run_length: "length (fst (seq_run fs llm sent i xs)) = length xs"
proof (induction xs arbitrary: sent i)
  case Nil
  show ?case by simp
next
  case (Cons x xs)
  obtain ts path where x: "x = (ts, path)" by (cases x)
  show ?case by (simp add: x Cons.IH Let_def split_beta)
qed

lemma seq_run_nth:
  assumes "k < length xs"
  shows "fst (seq_run fs llm sent i xs) ! k
     = with_metadata (fst (xs ! k)) (snd (xs ! k)) (i + k)
         (analysis_of (frame_try fs llm (length sent + calls_before fs xs k) (snd (xs ! k)) None))"
  using assms
proof (induction xs arbitrary: sent i k)
  case Nil
  then show ?case by simp
next
  case (Cons x xs)
  obtain ts path where x: "x = (ts, path)" by (cases x)
  show ?case
  proof (cases k)
    case 0
    then show ?thesis
      by (simp add: x analyze_frame_async_eq calls_before_0 Let_def split_beta)
  next
    case (Suc m)
    with Cons.prems have m: "m < length xs" by simp
    have "fst (seq_run fs llm sent i (x # xs)) ! k
        = fst (seq_run fs llm (sent @ frame_requests fs None path) (Suc i) xs) ! m"
      by (simp add: x Suc analyze_frame_async_eq Let_def split_beta)
    also have "\<dots> = with_metadata (fst (xs ! m)) (snd (xs ! m)) (Suc i + m)
         (analysis_of (frame_try fs llm
            (length (sent @ frame_requests fs None path) + calls_before fs xs m)
            (snd (xs ! m)) None))"
      by (rule Cons.IH [OF m])
    also have "length (sent @ frame_requests fs None path) + calls_before fs xs m
        = length sent + calls_before fs (x # xs) k"
      by (simp add: x Suc calls_before_Cons length_frame_requests)
    finally show ?thesis by (simp add: Suc)
  qed
qed

lemma with_metadata_sel:
  "timestamp (with_metadata ts path idx r) = ts"
  "frame_path (with_metadata ts path idx r) = path"
  "frame_number (with_metadata ts path idx r) = int idx + 1"
  "success (with_metadata ts path idx r) = success r"
  "error (with_metadata ts path idx r) = error r"
  "description (with_metadata ts path idx r) = description r"
  "tokens_used (with_metadata ts path idx r) = tokens_used r"
  "analysis_result.truncate (with_metadata ts path idx r) = r"
  by (simp_all add: with_metadata_def analysis_result.defs frame_analysis.defs)

lemma analyze_multiple_frames_async_seq:
  assumes "0 < batch_size"
  shows "analyze_multiple_frames_async fs llm sent frame_data batch_size
     = (Inr (fst (seq_run fs llm sent 0 frame_data)), snd (seq_run fs llm sent 0 frame_data))"
proof -
  from assms have "0 < nat batch_size" by simp
  then have "batch_loop fs llm frame_data (nat batch_size) 0 ([], sent)
      = (let (rs, sent') = seq_run fs llm sent 0 (drop 0 frame_data) in ([] @ rs, sent'))"
    by (rule batch_loop_seq)
  with assms show ?thesis
    by (simp add: analyze_multiple_frames_async_def split_beta)
qed

lemma calls_before_mono: "j \<le> k \<Longrightarrow> calls_before fs xs j \<le> calls_before fs xs k"
proof -
  assume "j \<le> k"
  then have "take k xs = take j xs @ take (k - j) (drop j xs)"
    by (metis le_add_diff_inverse take_add)
  then show ?thesis by (simp add: calls_before_def)
qed

lemma calls_before_step:
  assumes "j < length xs" "fs (snd (xs ! j)) \<noteq> None"
  shows "calls_before fs xs (Suc j) = Suc (calls_before fs xs j)"
  using assms by (simp add: calls_before_def take_Suc_conv_app_nth split_beta)

lemma calls_before_distinct:
  assumes "j < length xs" "k < length xs" "j \<noteq> k"
    "fs (snd (xs ! j)) \<noteq> None" "fs (snd (xs ! k)) \<noteq> None"
  shows "calls_before fs xs j \<noteq> calls_before fs xs k"
proof (cases "j < k")
  case True
  then have "calls_before fs xs (Suc j) \<le> calls_before fs xs k"
    by (intro calls_before_mono) simp
  moreover have "calls_before fs xs (Suc j) = Suc (calls_before fs xs j)"
    using assms(1,4) by (rule calls_before_step)
  ultimately show ?thesis by simp
next
  case False
  with assms(3) have "k < j" by simp
  then have "calls_before fs xs (Suc k) \<le> calls_before fs xs j"
    by (intro calls_before_mono) simp
  moreover have "calls_before fs xs (Suc k) = Suc (calls_before fs xs k)"
    using assms(2,5) by (rule calls_before_step)
  ultimately show ?thesis by simp
qed

lemma frame_try_cong:
  assumes "fs path \<noteq> None \<longrightarrow> (\<forall>r. llm' n r = llm n r)"
  shows "frame_try fs llm' n path cp = frame_try fs llm n path cp"
  using assms by (simp add: frame_try_def split: option.splits)

lemma truncate_sel:
  "success (analysis_result.truncate r) = success r"
  "error (analysis_result.truncate r) = error r"
  by (simp_all add: analysis_result.defs)

section \<open>Properties of the similarity engine\<close>

lemma summary_entry_Inr:
  "dl_info v \<noteq> None \<Longrightarrow> summary_entry i v = Inr (entry_of (i, v))"
  by (auto simp: entry_of_def summary_entry_def Let_def)

lemma prepare_loop_eq:
  assumes "\<forall>p \<in> set ps. well_formed (snd p)"
  shows "prepare_loop ps summaries
     = Inr (summaries @ map entry_of (filter (\<lambda>p. breakdown_success (snd p)) ps))"
  using assms
proof (induction ps arbitrary: summaries)
  case Nil
  show ?case by simp
next
  case (Cons p ps)
  obtain i v where p: "p = (i, v)" by (cases p)
  show ?case
  proof (cases "breakdown_success v")
    case False
    with Cons show ?thesis by (simp add: p)
  next
    case True
    with Cons.prems have "dl_info v \<noteq> None" by (simp add: p well_formed_def)
    then have "summary_entry i v = Inr (entry_of (i, v))" by (rule summary_entry_Inr)
    with True Cons show ?thesis by (simp add: p)
  qed
qed

lemma prepare_video_summaries_eq:
  assumes "\<forall>v \<in> set video_results. well_formed v"
  shows "prepare_video_summaries video_results
     = Inr (map entry_of (filter (\<lambda>p. breakdown_success (snd p)) (enumerate 0 video_results)))"
proof -
  have "\<forall>p \<in> set (enumerate 0 video_results). well_formed (snd p)"
  proof
    fix p assume p: "p \<in> set (enumerate 0 video_results)"
    obtain i v where iv: "p = (i, v)" by (cases p)
    with p have "v \<in> set video_results" by (auto simp: in_set_enumerate_eq)
    with assms iv show "well_formed (snd p)" by simp
  qed
  then show ?thesis
    by (simp add: prepare_video_summaries_def prepare_loop_eq)
qed

lemma length_successes:
  "length (filter (\<lambda>p. breakdown_success (snd p)) (enumerate n video_results))
     = length (filter breakdown_success video_results)"
proof -
  have "map snd (filter (breakdown_success \<circ> snd) (enumerate n video_results))
      = filter breakdown_success (map snd (enumerate n video_results))"
    by (simp only: filter_map)
  then have "length (filter (breakdown_success \<circ> snd) (enumerate n video_results))
      = length (filter breakdown_success video_results)"
    by (metis length_map map_snd_enumerate)
  then show ?thesis by (simp add: comp_def)
qed

lemma compare_pair_eq:
  "compare_pair llm summaries i j (comparisons, sent)
     = (comparisons @ [pair_entry summaries (i, j) (llm (length sent) (pair_request summaries (i, j)))],
        sent @ [pair_request summaries (i, j)])"
  by (simp add: compare_pair_def chat_completions_create_def pair_entry_def pair_request_def
      Let_def split: sum.splits)

lemma fold_concat_eq: "fold f (concat xss) = fold (fold f) xss"
  by (induction xss) simp_all

lemma pair_loops_flat:
  "pair_loops llm summaries sent
     = fold (\<lambda>p. compare_pair llm summaries (fst p) (snd p)) (index_pairs (length summaries))
         ([], sent)"
  by (simp add: pair_loops_def index_pairs_def fold_concat_eq fold_map comp_def)

lemma fold_compare_pair:
  "fold (\<lambda>p. compare_pair llm summaries (fst p) (snd p)) ps (comparisons, sent)
     = (comparisons @ map (\<lambda>(n, p). pair_entry summaries p (llm n (pair_request summaries p)))
                        (enumerate (length sent) ps),
        sent @ map (pair_request summaries) ps)"
proof (induction ps arbitrary: comparisons sent)
  case Nil
  show ?case by simp
next
  case (Cons p ps)
  show ?case
    by (simp add: compare_pair_eq Cons.IH)
qed

lemma length_index_pairs: "length (index_pairs m) = m * (m - 1) div 2"
proof -
  have "length (index_pairs m) = sum_list (map (\<lambda>i. m - Suc i) [0..<m])"
    by (simp add: index_pairs_def length_concat comp_def)
  also have "\<dots> = (\<Sum>i<m. m - Suc i)"
    by (simp add: interv_sum_list_conv_sum_set_nat atLeast0LessThan)
  also have "\<dots> = (\<Sum>i<m. i)"
    by (rule sum.nat_diff_reindex)
  also have "\<dots> = m * (m - 1) div 2"
    by (metis Sum_Ico_nat atLeast0LessThan diff_zero mult_zero_left div_0 mult.commute)
  finally show ?thesis .
qed

lemma pair_loops_eq:
  "pair_loops llm summaries sent
     = (map (\<lambda>(n, p). pair_entry summaries p (llm n (pair_request summaries p)))
          (enumerate (length sent) (index_pairs (length summaries))),
        sent @ map (pair_request summaries) (index_pairs (length summaries)))"
  by (simp add: pair_loops_flat fold_compare_pair)

lemma index_pairs_indices:
  "map (\<lambda>p. (fst p + 1, snd p + 1)) (index_pairs m)
     = concat (map (\<lambda>i. map (\<lambda>j. (i + 1, j + 1)) [i + 1..<m]) [0..<m])"
  by (simp add: index_pairs_def map_concat comp_def)

lemma summaries_urls:
  assumes "\<forall>v \<in> set video_results. well_formed v"
  shows "map vs_url (map entry_of
            (filter (\<lambda>p. breakdown_success (snd p)) (enumerate n video_results)))
     = map dl_url (filter breakdown_success video_results)"
proof -
  define ps where "ps = filter (\<lambda>p. breakdown_success (snd p)) (enumerate n video_results)"
  have "map snd (filter (breakdown_success \<circ> snd) (enumerate n video_results))
      = filter breakdown_success (map snd (enumerate n video_results))"
    by (simp only: filter_map)
  then have sel: "map snd ps = filter breakdown_success video_results"
    by (simp add: ps_def comp_def)
  have "vs_url (entry_of p) = dl_url (snd p)" if "p \<in> set ps" for p
  proof -
    from that have "breakdown_success (snd p)" and "p \<in> set (enumerate n video_results)"
      by (simp_all add: ps_def)
    moreover obtain i v where iv: "p = (i, v)" by (cases p)
    ultimately have "v \<in> set video_results" and "breakdown_success v"
      by (auto simp: in_set_enumerate_eq)
    with assms have "dl_info v \<noteq> None" by (auto simp: well_formed_def)
    then show ?thesis
      by (auto simp: iv entry_of_def summary_entry_def Let_def)
  qed
  then have "map (vs_url \<circ> entry_of) ps = map (dl_url \<circ> snd) ps"
    by (intro map_cong) simp_all
  then have "map vs_url (map entry_of ps) = map dl_url (map snd ps)"
    by (simp only: map_map)
  with sel show ?thesis by (simp add: ps_def)
qed

lemma pair_entry_sel:
  "video1_index (pair_entry summaries p outcome) = fst p + 1"
  "video2_index (pair_entry summaries p outcome) = snd p + 1"
  "comparison_text (pair_entry summaries p (Inl e)) = ''Error: '' @ e"
  "cmp_tokens_used (pair_entry summaries p (Inl e)) = 0"
  "comparison_text (pair_entry summaries p (Inr response)) = content response"
  "cmp_tokens_used (pair_entry summaries p (Inr response)) = total_tokens response"
  by (simp_all add: pair_entry_def)

lemma generate_pairwise_comparisons_eq:
  assumes "prepare_video_summaries video_results = Inr summaries" "2 \<le> length summaries"
  shows "generate_pairwise_comparisons llm sent video_results
     = (Inr \<lparr>pw_success = True, pw_error = None,
            pairwise_comparisons = Some (fst (pair_loops llm summaries sent)),
            total_pairs = Some (length (fst (pair_loops llm summaries sent))),
            total_tokens_used =
              Some (sum_list (map cmp_tokens_used (fst (pair_loops llm summaries sent)))),
            videos_analyzed = Some (length summaries)\<rparr>,
        snd (pair_loops llm summaries sent))"
  using assms by (simp add: generate_pairwise_comparisons_def split_beta)

section \<open>Properties of the downloader and the orchestrator\<close>

lemma download_loop_eq:
  "download_loop yt duration_seconds urls results
     = results @ map (download_one yt duration_seconds) urls"
  by (induction urls arbitrary: results) simp_all

lemma limit_take:
  "0 \<le> max_videos \<Longrightarrow>
     (if int (length valid) > max_videos then py_take max_videos valid else valid)
       = take (nat max_videos) valid"
  by (simp add: py_take_def)

lemma download_multiple_videos_eq:
  assumes "0 \<le> max_videos"
  shows "download_multiple_videos yt urls duration_seconds max_videos
     = map (download_one yt duration_seconds)
         (take (nat max_videos) (filter is_valid_youtube_url urls))"
  by (simp only: download_multiple_videos_def validate_urls_def Let_def split_conv
      limit_take [OF assms] download_loop_eq append_Nil)

lemma download_one_sel:
  "dl_url (download_one yt duration_seconds url) = url"
  "\<not> dl_success (download_one yt duration_seconds url) \<Longrightarrow>
     dl_error (download_one yt duration_seconds url) \<noteq> None"
  "dl_success (download_one yt duration_seconds url) \<Longrightarrow>
     dl_info (download_one yt duration_seconds url) \<noteq> None
     \<and> dl_video_path (download_one yt duration_seconds url) \<noteq> None"
  by (simp_all add: download_one_def Let_def split: option.splits)

lemma breakdown_failed_sel:
  "download_result.truncate (breakdown_failed dr msg) = dr"
  "\<not> breakdown_success (breakdown_failed dr msg)"
  "breakdown_error (breakdown_failed dr msg) = Some msg"
  "dl_url (breakdown_failed dr msg) = dl_url dr"
  by (simp_all add: breakdown_failed_def download_result.defs video_result.defs)

lemma breakdown_done_sel:
  "download_result.truncate (breakdown_done dr data n1 n2 t i) = dr"
  "breakdown_success (breakdown_done dr data n1 n2 t i)"
  "breakdown_data (breakdown_done dr data n1 n2 t i) = Some data"
  "dl_info (breakdown_done dr data n1 n2 t i) = dl_info dr"
  "dl_url (breakdown_done dr data n1 n2 t i) = dl_url dr"
  "breakdown_error (breakdown_done dr data n1 n2 t i) = None"
  "vr_video_index (breakdown_done dr data n1 n2 t i) = Some i"
  "vr_frames_extracted (breakdown_done dr data n1 n2 t i) = Some n1"
  by (simp_all add: breakdown_done_def download_result.defs video_result.defs)

lemma result_of_failed: "result_of dr (breakdown_failed dr msg)"
  by (simp add: result_of_def breakdown_failed_sel)

lemma result_of_done: "dl_info dr \<noteq> None \<Longrightarrow> result_of dr (breakdown_done dr data n1 n2 t i)"
  by (simp add: result_of_def breakdown_done_sel)

lemma process_single_video_result_of:
  "result_of dr (fst (process_single_video w sent dr d mf bs i dir))"
  by (simp add: process_single_video_def single_video_try_def Let_def split_beta
      result_of_failed result_of_done
      split: option.splits sum.splits prod.splits if_splits)

lemma get_video_info_ok:
  "is_opened cap \<Longrightarrow> 0 < cap_fps cap \<Longrightarrow> \<exists>detailed_info. get_video_info cap = Inr detailed_info"
  by (simp add: get_video_info_def)

lemma process_single_video_processed:
  assumes "dl_video_path dr = Some path" "dl_info dr = Some info"
  shows "processed w d mf bs dir i path info (fst (process_single_video w sent dr d mf bs i dir))"
proof -
  define cap where "cap = w_capture w path"
  define extracted where "extracted = fst (extract_fixed_frames cap
      (os_path_join dir (''video_'' @ digits10 i @ ''_'' @ yt_id info)) mf (py_float d))"
  define r where "r = fst (process_single_video w sent dr d mf bs i dir)"
  have invalid: "\<not> breakdown_success r \<and> breakdown_error r = Some ''Video file validation failed''"
    if "\<not> (w_exists w path \<and> is_opened cap)"
    using that
    by (simp add: r_def process_single_video_def single_video_try_def assms
        cap_def [symmetric] validate_video_file_def breakdown_failed_sel)
  have empty: "\<not> breakdown_success r \<and> breakdown_error r = Some ''No frames were extracted''"
    if "w_exists w path \<and> is_opened cap \<and> 0 < cap_fps cap \<and> extracted = Inr []"
  proof -
    from that get_video_info_ok [of cap] obtain detailed_info where
      "get_video_info cap = Inr detailed_info" by blast
    with that [unfolded extracted_def] show ?thesis
      by (simp add: r_def process_single_video_def single_video_try_def assms
          cap_def [symmetric] validate_video_file_def Let_def breakdown_failed_sel)
  qed
  have good: "breakdown_success r \<and> breakdown_error r = None
      \<and> vr_video_index r = Some i
      \<and> vr_frames_extracted r = Some (length frames)
      \<and> (\<exists>data. breakdown_data r = Some data \<and> bd_video_file data = path
            \<and> length (bd_frame_analyses data) = length frames)"
    if "w_exists w path \<and> is_opened cap \<and> 0 < cap_fps cap
        \<and> extracted = Inr frames \<and> frames \<noteq> [] \<and> 0 < bs
        \<and> w_write_error w (BreakdownFile i (yt_id info)) = None" for frames
  proof -
    from that get_video_info_ok [of cap] obtain detailed_info where
      info: "get_video_info cap = Inr detailed_info" by blast
    from that have bs: "0 < bs" by simp
    define frame_data where "frame_data = map (\<lambda>(ts, path). (ts, w_path_text w path)) frames"
    have len: "length (fst (seq_run (w_files w) (w_llm w) sent 0 frame_data)) = length frames"
      by (simp add: seq_run_length frame_data_def)
    from that [unfolded extracted_def] info show ?thesis
      by (simp add: r_def process_single_video_def single_video_try_def assms
          cap_def [symmetric] validate_video_file_def Let_def
          frame_data_def [symmetric] analyze_multiple_frames_async_seq [OF bs]
          split_beta breakdown_done_sel len)
  qed
  from invalid empty good show ?thesis
    unfolding processed_def Let_def cap_def [symmetric] extracted_def [symmetric]
      r_def [symmetric]
    by blast
qed

lemma process_single_video_outcome:
  "video_outcome w d mf bs dir (i, dr) (fst (process_single_video w sent dr d mf bs i dir))"
  by (simp add: video_outcome_def process_single_video_result_of
      process_single_video_processed)

lemma video_loop_results:
  "\<exists>rs sent'. video_loop w d mf bs dir ps (vrs, sent) = (vrs @ rs, sent')
     \<and> list_all2 (video_outcome w d mf bs dir) ps rs"
proof (induction ps arbitrary: vrs sent)
  case Nil
  show ?case by simp
next
  case (Cons p ps)
  obtain i dr where p: "p = (i, dr)" by (cases p)
  define r where "r = fst (process_single_video w sent dr d mf bs i dir)"
  define sent1 where "sent1 = snd (process_single_video w sent dr d mf bs i dir)"
  have r: "video_outcome w d mf bs dir (i, dr) r"
    unfolding r_def by (rule process_single_video_outcome)
  from Cons.IH [of "vrs @ [r]" sent1] obtain rs sent' where
    rest: "video_loop w d mf bs dir ps (vrs @ [r], sent1) = ((vrs @ [r]) @ rs, sent')"
    and all: "list_all2 (video_outcome w d mf bs dir) ps rs"
    by blast
  have "video_loop w d mf bs dir (p # ps) (vrs, sent) = (vrs @ (r # rs), sent')"
    by (simp add: p split_beta r_def [symmetric] sent1_def [symmetric] rest)
  moreover from r all have "list_all2 (video_outcome w d mf bs dir) (p # ps) (r # rs)"
    by (simp add: p)
  ultimately show ?case by blast
qed

lemma video_outcome_result_of:
  "list_all2 (video_outcome w d mf bs dir) ps rs \<Longrightarrow> list_all2 result_of (map snd ps) rs"
  by (induction rule: list_all2_induct) (simp_all add: video_outcome_def)

lemma result_of_truncate:
  "list_all2 result_of drs rs \<Longrightarrow> map download_result.truncate rs = drs"
  by (induction rule: list_all2_induct) (simp_all add: result_of_def)

lemma result_of_set:
  assumes "list_all2 result_of drs rs" "r \<in> set rs"
  shows "(\<not> breakdown_success r \<longrightarrow> breakdown_error r \<noteq> None)
       \<and> (breakdown_success r \<longrightarrow> dl_info r \<noteq> None \<and> breakdown_data r \<noteq> None)"
  using assms by (induction rule: list_all2_induct) (auto simp: result_of_def)

lemma titles_of_ok:
  "\<forall>r \<in> set rs. dl_info r \<noteq> None \<Longrightarrow> \<exists>titles. titles_of rs = Inr titles"
  by (induction rs) auto

lemma analyze_similarities_async_ok:
  assumes "prepare_video_summaries video_results = Inr summaries"
  shows "\<exists>r sent'. analyze_similarities_async llm sent video_results = (Inr r, sent')"
  using assms
  by (simp add: analyze_similarities_async_def split_beta split: sum.splits)

lemma analyze_video_similarities_combined:
  assumes wf: "\<forall>v \<in> set video_results. breakdown_success v \<longrightarrow> dl_info v \<noteq> None"
    and two: "2 \<le> length (filter breakdown_success video_results)"
    and wr: "w_write_error w SimilarityFile = None"
  shows "\<exists>sim pw t sent'.
      analyze_video_similarities w sent video_results = (Combined sim pw t, sent')
    \<and> pw_success pw
    \<and> total_pairs pw
        = Some (length (filter breakdown_success video_results)
                * (length (filter breakdown_success video_results) - 1) div 2)"
proof -
  define summaries where "summaries
      = map entry_of (filter (\<lambda>p. breakdown_success (snd p)) (enumerate 0 video_results))"
  from wf have "\<forall>v \<in> set video_results. well_formed v" by (simp add: well_formed_def)
  then have prep: "prepare_video_summaries video_results = Inr summaries"
    unfolding summaries_def by (rule prepare_video_summaries_eq)
  have m: "length summaries = length (filter breakdown_success video_results)"
    by (simp add: summaries_def length_successes)
  with two have m2: "2 \<le> length summaries" by simp
  from analyze_similarities_async_ok [OF prep] obtain sim sent1 where
    sim: "analyze_similarities_async (w_llm w) sent video_results = (Inr sim, sent1)"
    by blast
  define cs where "cs = fst (pair_loops (w_llm w) summaries sent1)"
  have pw: "generate_pairwise_comparisons (w_llm w) sent1 video_results
      = (Inr \<lparr>pw_success = True, pw_error = None, pairwise_comparisons = Some cs,
            total_pairs = Some (length cs),
            total_tokens_used = Some (sum_list (map cmp_tokens_used cs)),
            videos_analyzed = Some (length summaries)\<rparr>,
         snd (pair_loops (w_llm w) summaries sent1))"
    unfolding cs_def by (rule generate_pairwise_comparisons_eq [OF prep m2])
  have len: "length cs = length summaries * (length summaries - 1) div 2"
    by (simp add: cs_def pair_loops_eq length_index_pairs)
  from sim pw wr len m show ?thesis
    by (simp add: analyze_video_similarities_def)
qed

lemma truncate_url: "dl_url (download_result.truncate r) = dl_url r"
  by (simp add: download_result.defs)

lemma video_loop_nth:
  assumes "list_all2 (video_outcome w d mf bs dir) (enumerate (Suc 0) drs) rs"
    and "k < length rs"
    and "dl_video_path (drs ! k) = Some path" and "dl_info (drs ! k) = Some info"
  shows "processed w d mf bs dir (Suc k) path info (rs ! k)"
proof -
  from assms(1) have len: "length rs = length drs"
    by (simp add: list_all2_lengthD [symmetric])
  from assms(1,2) have "video_outcome w d mf bs dir (enumerate (Suc 0) drs ! k) (rs ! k)"
    by (simp add: list_all2_conv_all_nth)
  moreover from assms(2) len have "enumerate (Suc 0) drs ! k = (Suc k, drs ! k)"
    by (simp add: nth_enumerate_eq)
  ultimately show ?thesis
    using assms(3,4) by (simp add: video_outcome_def)
qed

section \<open>The arithmetic of the concrete videos\<close>

lemma clip_5s_window: "analysis_frames_of clip_5s 20 = 50"
  by code_simp

lemma clip_5s_count:
  "\<lfloor>float_mul (cap_fps clip_5s)
      (min (float_div (py_float (py_int (cap_frame_count clip_5s))) (cap_fps clip_5s)) 20)\<rfloor> = 50"
  by code_simp

text \<open>
  The doubles of the fifteen frame clip: \<open>15 / 11\<close> rounds to
  \<open>6141272219141585 / 2\<^sup>5\<^sup>2\<close>, and 11 times that rounds to \<open>8444249301319679 / 2\<^sup>4\<^sup>9\<close>,
  the double just below 15.
\<close>

lemma short_clip_duration: "float_div (py_float 15) 11 = 6141272219141585 / 4503599627370496"
proof -
  have "to_double (15 / 11) = 6141272219141585 / 4503599627370496"
    by (rule to_double_eqI [where k = "- 52" and m = 6141272219141585])
      (simp_all add: power_int_minus)
  then show ?thesis by (simp add: float_div_def py_float_numeral)
qed

lemma short_clip_product:
  "float_mul 11 (6141272219141585 / 4503599627370496) = 8444249301319679 / 562949953421312"
  unfolding float_mul_def
  by (rule to_double_eqI [where k = "- 49" and m = 8444249301319679])
    (simp_all add: power_int_minus)

lemma short_clip_count:
  "\<lfloor>float_mul (cap_fps short_clip)
      (min (float_div (py_float (py_int (cap_frame_count short_clip))) (cap_fps short_clip)) 20)\<rfloor> = 14"
proof -
  have "py_int (cap_frame_count short_clip) = 15" "cap_fps short_clip = 11"
    by (simp_all add: short_clip_def py_int_def)
  moreover have "\<lfloor>8444249301319679 / 562949953421312 :: rat\<rfloor> = 14"
    by (rule floor_unique) simp_all
  ultimately show ?thesis
    by (simp add: short_clip_duration short_clip_product)
qed

lemma short_clip_window: "analysis_frames_of short_clip 20 = 14"
proof -
  have "(0::rat) \<le> float_mul (cap_fps short_clip)
      (min (float_div (py_float (py_int (cap_frame_count short_clip))) (cap_fps short_clip)) 20)"
    by (rule window_nonneg) (simp_all add: short_clip_def py_int_def)
  then show ?thesis by (simp only: analysis_frames_floor(2) short_clip_count)
qed

lemma skip_clip_window: "analysis_frames_of skip_clip 20 = 40"
  by code_simp

lemma skip_clip_stamps:
  "float_div (py_float 0) 8 = 0" "float_div (py_float 20) 8 = 5 / 2"
  by code_simp+

lemma gap_clip_window: "analysis_frames_of gap_clip 20 = 30"
  by code_simp

text \<open>
  The doubles of interval sampling: \<open>7 / 7.75\<close> rounds to \<open>8135534810733799 / 2\<^sup>5\<^sup>3\<close>;
  25 times the double 1.16 rounds to \<open>8162774324609023 / 2\<^sup>4\<^sup>8\<close>, just below 29;
  \<open>28 / 25\<close> and \<open>56 / 25\<close> round to \<open>1261007895663739 / 2\<^sup>5\<^sup>0\<close> and
  \<open>1261007895663739 / 2\<^sup>4\<^sup>9\<close>.
\<close>

lemma odd_rate_interval: "py_int (float_mul (31 / 4) 1) = 7"
  by code_simp

lemma odd_rate_stamps:
  "float_div (py_float 0) (31 / 4) = 0"
  "float_div (py_float 7) (31 / 4) = 8135534810733799 / 9007199254740992"
proof -
  show "float_div (py_float 0) (31 / 4) = 0" by simp
  have "to_double (28 / 31) = 8135534810733799 / 9007199254740992"
    by (rule to_double_eqI [where k = "- 53" and m = 8135534810733799])
      (simp_all add: power_int_minus)
  then show "float_div (py_float 7) (31 / 4) = 8135534810733799 / 9007199254740992"
    by (simp add: float_div_def py_float_numeral)
qed

lemma pal_interval: "py_int (float_mul 25 interval_1_16) = 28"
proof -
  have "float_mul 25 interval_1_16 = to_double (130604389193744375 / 4503599627370496)"
    by (simp add: float_mul_def interval_1_16_def)
  also have "\<dots> = 8162774324609023 / 281474976710656"
    by (rule to_double_eqI [where k = "- 48" and m = 8162774324609023])
      (simp_all add: power_int_minus)
  finally have "py_int (float_mul 25 interval_1_16)
      = py_int (8162774324609023 / 281474976710656)"
    by (rule arg_cong)
  also have "\<dots> = 28"
    by (rule py_int_eqI) simp_all
  finally show ?thesis .
qed

lemma pal_stamps:
  "float_div (py_float 0) 25 = 0"
  "float_div (py_float 28) 25 = 1261007895663739 / 1125899906842624"
  "float_div (py_float 56) 25 = 1261007895663739 / 562949953421312"
proof -
  show "float_div (py_float 0) 25 = 0" by simp
  have "to_double (28 / 25) = 1261007895663739 / 1125899906842624"
    by (rule to_double_eqI [where k = "- 52" and m = 5044031582654956])
      (simp_all add: power_int_minus)
  then show "float_div (py_float 28) 25 = 1261007895663739 / 1125899906842624"
    by (simp add: float_div_def py_float_numeral)
  have "to_double (56 / 25) = 1261007895663739 / 562949953421312"
    by (rule to_double_eqI [where k = "- 51" and m = 5044031582654956])
      (simp_all add: power_int_minus)
  then show "float_div (py_float 56) 25 = 1261007895663739 / 562949953421312"
    by (simp add: float_div_def py_float_numeral)
qed

text \<open>The five second clip with four frames requested yields frames.\<close>

lemma clip_5s_frames:
  "\<exists>frames. fst (extract_fixed_frames clip_5s dir 4 (py_float 20)) = Inr frames \<and> frames \<noteq> []"
proof -
  have sel: "select_indices (analysis_frames_of clip_5s 20) 4 = [0, 12, 25, 37]"
    by (simp only: clip_5s_window) code_simp
  have "is_opened clip_5s" "cap_fps clip_5s \<noteq> 0" by (simp_all add: clip_5s_def)
  then have "fst (extract_fixed_frames clip_5s dir 4 20)
      = Inr (map (frame_of dir (cap_fps clip_5s))
          (filter (kept clip_5s) (enumerate 0 (select_indices (analysis_frames_of clip_5s 20) 4))))"
    by (simp add: extract_fixed_frames_ok)
  moreover have "filter (kept clip_5s) (enumerate 0 [0, 12, 25, 37]) \<noteq> []"
    by (simp add: kept_def clip_5s_def enumerate_eq_zip)
  ultimately show ?thesis
    by (simp add: sel py_float_numeral)
qed

lemma latin1_url_valid: "is_valid_youtube_url latin1_url"
  by code_simp

section \<open>The claims on fixed-count extraction\<close>

text \<open>
  C1. For an opened video with positive frame rate and \<open>max_frames > 0\<close>, the analysis
  frame count is \<open>\<lfloor>fps * min duration max_duration\<rfloor>\<close>, with the duration and the product
  computed in doubles as the source computes them. The indices the extraction runs over
  are all of \<open>0, \<dots>, count - 1\<close> when the count is at most \<open>max_frames\<close>; otherwise they
  are \<open>max_frames\<close> indices that start with index 0, namely \<open>\<lfloor>i * count / max_frames\<rfloor>\<close>
  for \<open>i = 0, \<dots>, max_frames - 1\<close>, strictly increasing. The quotient is a double as well:
  its truncation is the exact \<open>\<lfloor>i * count / max_frames\<rfloor>\<close> for
  \<open>count * max_frames \<le> 2\<^sup>5\<^sup>3\<close>, the range in which a double holds every integer.
\<close>

theorem C1_frame_index_selection:
  fixes cap :: video
  assumes "is_opened cap" and "0 < cap_fps cap" and "0 < max_frames"
  shows "let duration = float_div (py_float (py_int (cap_frame_count cap))) (cap_fps cap);
             analysis_frame_count = \<lfloor>float_mul (cap_fps cap) (min duration max_duration)\<rfloor>;
             selected = select_indices (analysis_frames_of cap max_duration) max_frames
         in extract_fixed_frames cap output_dir max_frames max_duration
              = (Inr (extract_loop cap output_dir (cap_fps cap) (enumerate 0 selected) []), Released)
          \<and> (analysis_frame_count \<le> max_frames \<longrightarrow> selected = [0..analysis_frame_count - 1])
          \<and> (max_frames < analysis_frame_count \<longrightarrow>
               length selected = nat max_frames
               \<and> hd selected = 0
               \<and> (analysis_frame_count * max_frames \<le> 2 ^ 53 \<longrightarrow>
                    selected
                      = map (\<lambda>i. (i * analysis_frame_count) div max_frames) [0..max_frames - 1]
                    \<and> sorted_wrt (<) selected))"
proof -
  define x where "x = float_mul (cap_fps cap)
      (min (float_div (py_float (py_int (cap_frame_count cap))) (cap_fps cap)) max_duration)"
  define selected where "selected = select_indices (analysis_frames_of cap max_duration) max_frames"
  have sel: "selected = select_indices \<lfloor>x\<rfloor> max_frames"
    unfolding selected_def x_def by (rule analysis_frames_floor(1))
  have run: "extract_fixed_frames cap output_dir max_frames max_duration
      = (Inr (extract_loop cap output_dir (cap_fps cap) (enumerate 0 selected) []), Released)"
    using assms(1,2) by (simp add: extract_fixed_frames_def Let_def selected_def)
  have dense: "selected = [0..\<lfloor>x\<rfloor> - 1]" if "\<lfloor>x\<rfloor> \<le> max_frames"
    using that by (simp add: sel select_indices_def py_range_def)
  have sparse: "length selected = nat max_frames \<and> hd selected = 0"
    if lt: "max_frames < \<lfloor>x\<rfloor>"
  proof -
    from lt have "length selected = nat max_frames"
      by (simp add: sel length_select_indices)
    moreover have "hd selected = 0"
      by (simp only: sel hd_sparse_indices [OF assms(3) lt])
    ultimately show ?thesis by blast
  qed
  have exact: "selected = map (\<lambda>i. (i * \<lfloor>x\<rfloor>) div max_frames) [0..max_frames - 1]
      \<and> sorted_wrt (<) selected"
    if lt: "max_frames < \<lfloor>x\<rfloor>" and bound: "\<lfloor>x\<rfloor> * max_frames \<le> 2 ^ 53"
  proof -
    have "selected = map (\<lambda>i. (i * \<lfloor>x\<rfloor>) div max_frames) [0..max_frames - 1]"
      by (simp only: sel sparse_indices_div [OF assms(3) lt bound] py_range_def)
    moreover have "sorted_wrt (<) selected"
      by (simp only: sel sparse_indices_strict [OF assms(3) lt bound])
    ultimately show ?thesis by blast
  qed
  from run dense sparse exact show ?thesis
    unfolding Let_def x_def [symmetric] selected_def [symmetric] by blast
qed

text \<open>
  C1 at the fifteen frame clip at 11 frames per second, where the count is 14, and at the
  five second clip with 20 frames requested: the indices 0, 2, 5, 7, 10, \<dots>
\<close>

theorem C1_frame_index_selection_witness:
  "select_indices (analysis_frames_of short_clip 20) 20
     = [0, 1, 2, 3, 4, 5, 6, 7, 8, 9, 10, 11, 12, 13]
   \<and> select_indices (analysis_frames_of clip_5s 20) 20
     = [0, 2, 5, 7, 10, 12, 15, 17, 20, 22, 25, 27, 30, 32, 35, 37, 40, 42, 45, 47]
   \<and> fst (extract_fixed_frames clip_5s ''frames'' 20 20)
     = Inr (extract_loop clip_5s ''frames'' 10 (enumerate 0 (select_indices (analysis_frames_of clip_5s 20) 20)) [])"
proof -
  have opened: "is_opened short_clip" "0 < cap_fps short_clip" "is_opened clip_5s"
    "0 < cap_fps clip_5s" "cap_fps clip_5s = 10"
    by (simp_all add: short_clip_def clip_5s_def)
  note dense = C1_frame_index_selection [OF opened(1,2), where max_frames = 20
      and max_duration = 20 and output_dir = "''frames''", unfolded Let_def short_clip_count]
  note sparse = C1_frame_index_selection [OF opened(3,4), where max_frames = 20
      and max_duration = 20 and output_dir = "''frames''", unfolded Let_def clip_5s_count]
  from dense have "select_indices (analysis_frames_of short_clip 20) 20 = [0..14 - 1]"
    by simp
  moreover from sparse have "select_indices (analysis_frames_of clip_5s 20) 20
      = map (\<lambda>i. (i * 50) div 20) [0..20 - 1]
    \<and> fst (extract_fixed_frames clip_5s ''frames'' 20 20)
      = Inr (extract_loop clip_5s ''frames'' 10
          (enumerate 0 (select_indices (analysis_frames_of clip_5s 20) 20)) [])"
    by (simp add: opened(5))
  ultimately show ?thesis
    by (simp add: upto.simps)
qed

lemma zero_duration_window:
  fixes cap :: video
  assumes "0 < cap_fps cap" "py_int (cap_frame_count cap) = 0"
  shows "analysis_frames_of cap max_duration \<le> 0"
proof -
  have "min 0 max_duration \<le> 0" by simp
  with assms(1) have "cap_fps cap * min 0 max_duration \<le> 0"
    by (simp add: mult_le_0_iff)
  then have "float_mul (cap_fps cap) (min 0 max_duration) \<le> 0"
    unfolding float_mul_def by (rule to_double_nonpos)
  then have "py_int (float_mul (cap_fps cap) (min 0 max_duration)) \<le> 0"
    by (simp add: py_int_def floor_le_iff ceiling_le_iff)
  with assms(2) show ?thesis
    by (simp add: analysis_frames_of_def Let_def)
qed

text \<open>
  C10. For an opened video with positive frame rate, \<open>max_frames \<le> 0\<close> is not rejected
  and nothing is raised: no index is selected, so no frame is decoded or written, and the
  empty list is returned.
\<close>

theorem C10_nonpositive_max_frames:
  fixes cap :: video
  assumes "is_opened cap" and "0 < cap_fps cap" and "max_frames \<le> 0"
  shows "select_indices (analysis_frames_of cap max_duration) max_frames = []
       \<and> extract_fixed_frames cap output_dir max_frames max_duration = (Inr [], Released)"
proof -
  from assms(3) have "select_indices (analysis_frames_of cap max_duration) max_frames = []"
    by (rule select_indices_nonpos)
  moreover from assms(2) have "cap_fps cap \<noteq> 0" by simp
  ultimately show ?thesis
    using assms(1) by (simp add: extract_fixed_frames_ok)
qed

text \<open>C10 at the five second clip with \<open>max_frames = -3\<close>.\<close>

theorem C10_nonpositive_max_frames_witness:
  "select_indices (analysis_frames_of clip_5s 20) (- 3) = []
   \<and> extract_fixed_frames clip_5s ''frames'' (- 3) 20 = (Inr [], Released)"
  using C10_nonpositive_max_frames [where cap = clip_5s and output_dir = "''frames''"
        and max_frames = "- 3" and max_duration = 20]
  by (simp add: clip_5s_def)

text \<open>
  C8 as stated fails: a video of zero duration (no frames, positive frame rate) is not
  refused; the extraction returns the empty list.
\<close>

theorem C8_zero_duration_counterexample:
  "is_opened empty_clip \<and> 0 < cap_fps empty_clip
   \<and> of_int (py_int (cap_frame_count empty_clip)) / cap_fps empty_clip = 0
   \<and> extract_fixed_frames empty_clip ''frames'' 20 20 = (Inr [], Released)"
  by (simp add: empty_clip_def extract_fixed_frames_def analysis_frames_of_def
      select_indices_def py_range_def py_int_def Let_def)

text \<open>
  C8, amended. A video that cannot be opened fails with the explicit
  "Could not open video file" error before anything is measured. An opened video with
  positive frame rate and no frames (zero duration) is not an error: no index is
  selected and the empty list is returned.
\<close>

theorem C8_unopenable_or_empty:
  fixes cap :: video
  shows "(\<not> is_opened cap \<longrightarrow>
            extract_fixed_frames cap output_dir max_frames max_duration
              = (Inl (ValueError (''Error: Could not open video file '' @ video_path cap)), NotOpened))
       \<and> (is_opened cap \<and> 0 < cap_fps cap \<and> py_int (cap_frame_count cap) = 0 \<longrightarrow>
            select_indices (analysis_frames_of cap max_duration) max_frames = []
            \<and> extract_fixed_frames cap output_dir max_frames max_duration = (Inr [], Released))"
proof (intro conjI impI)
  assume "\<not> is_opened cap"
  then show "extract_fixed_frames cap output_dir max_frames max_duration
      = (Inl (ValueError (''Error: Could not open video file '' @ video_path cap)), NotOpened)"
    by (simp add: extract_fixed_frames_def)
next
  assume a: "is_opened cap \<and> 0 < cap_fps cap \<and> py_int (cap_frame_count cap) = 0"
  then have "analysis_frames_of cap max_duration \<le> 0"
    by (intro zero_duration_window) simp_all
  then show e: "select_indices (analysis_frames_of cap max_duration) max_frames = []"
    by (rule select_indices_empty_window)
  from a have "cap_fps cap \<noteq> 0" by simp
  with a e show "extract_fixed_frames cap output_dir max_frames max_duration = (Inr [], Released)"
    by (simp add: extract_fixed_frames_ok)
qed

text \<open>C8 (amended) at a file that does not open and at a file without frames.\<close>

theorem C8_unopenable_or_empty_witness:
  "extract_fixed_frames missing_clip ''frames'' 20 20
     = (Inl (ValueError ''Error: Could not open video file missing.mp4''), NotOpened)
   \<and> extract_fixed_frames empty_clip ''frames'' 20 20 = (Inr [], Released)"
  using C8_unopenable_or_empty [where cap = missing_clip and output_dir = "''frames''"
        and max_frames = 20 and max_duration = 20]
    C8_unopenable_or_empty [where cap = empty_clip and output_dir = "''frames''"
        and max_frames = 20 and max_duration = 20]
  by (simp add: missing_clip_def empty_clip_def py_int_def)

text \<open>
  C9. The handle is released on the normal path only. At an opened video that reports a
  frame rate of zero, the division of line 30 raises and the operation is left with the
  handle still open.
\<close>

theorem C9_handle_left_open:
  "is_opened stalled_clip
   \<and> extract_fixed_frames stalled_clip ''frames'' 20 20 = (Inl ZeroDivisionError, Opened)"
  by (simp add: stalled_clip_def extract_fixed_frames_def)

lemma ordinals_upto: "map (\<lambda>n. int n + 1) [0..<n] = [1..int n]"
proof (induction n)
  case 0
  show ?case by simp
next
  case (Suc n)
  have "[1..int (Suc n)] = [1..int n] @ [int n + 1]"
    by (simp add: upto_rec2 add.commute)
  with Suc show ?case by simp
qed

text \<open>
  C5 as stated fails: the ordinal in a file name is the position of the frame's index in
  the selection, not in the returned list. With three frames selected and the first one
  undecodable, the two returned frames are named with the ordinals 2 and 3.
\<close>

theorem C5_skipped_frame_counterexample:
  "fst (extract_fixed_frames gap_clip ''frames'' 3 20)
     = Inr [(1, FramePath ''frames'' 2 1), (2, FramePath ''frames'' 3 2)]
   \<and> map (path_ordinal \<circ> snd)
       [(1::rat, FramePath ''frames'' 2 1), (2, FramePath ''frames'' 3 2)] = [2, 3]"
proof -
  have "select_indices (analysis_frames_of gap_clip 20) 3 = [0, 10, 20]"
    by (simp only: gap_clip_window) code_simp
  moreover have "float_div (py_float 10) 10 = 1" "float_div (py_float 20) 10 = 2"
    by (simp_all add: float_div_def py_float_numeral to_double_numeral)
  ultimately show ?thesis
    by (simp add: gap_clip_def extract_fixed_frames_def Let_def enumerate_eq_zip)
qed

text \<open>
  C5, amended. For an opened video with positive frame rate the extraction succeeds and
  returns, in the order of the selection, one frame for every selected index that could be
  read and written. The ordinal in the file name of a frame is the position of its index
  in the selection, counted from 1; its timestamp is its index divided by the frame rate.
  So the ordinals are strictly increasing and lie between 1 and \<open>max_frames\<close>; they are
  exactly \<open>1, \<dots>, n\<close> (\<open>n\<close> the number of selected indices) when no selected index is
  skipped. The length is at most \<open>max_frames\<close> (zero when \<open>max_frames\<close> is not positive),
  with or without skipped indices. The timestamps are strictly increasing, with or without
  skipped indices, for an analysis window in the range in which doubles hold the frame
  indices exactly: at most \<open>2\<^sup>5\<^sup>2\<close> frames, and \<open>count * max_frames \<le> 2\<^sup>5\<^sup>3\<close> when it holds
  more than \<open>max_frames\<close>.
\<close>

theorem C5_sampled_frames_invariant:
  fixes cap :: video
  assumes "is_opened cap" and "0 < cap_fps cap"
  shows "\<exists>frames. extract_fixed_frames cap output_dir max_frames max_duration
                    = (Inr frames, Released)
     \<and> frames
         = map (\<lambda>(i, k). (float_div (py_float k) (cap_fps cap),
                          FramePath output_dir (int i + 1) (float_div (py_float k) (cap_fps cap))))
             (filter (\<lambda>(i, k). read_ok cap k \<and> write_ok cap k)
                (enumerate 0 (select_indices (analysis_frames_of cap max_duration) max_frames)))
     \<and> sorted_wrt (<) (map (path_ordinal \<circ> snd) frames)
     \<and> (\<forall>f \<in> set frames. 1 \<le> path_ordinal (snd f) \<and> path_ordinal (snd f) \<le> max_frames)
     \<and> ((\<forall>k \<in> set (select_indices (analysis_frames_of cap max_duration) max_frames).
            read_ok cap k \<and> write_ok cap k) \<longrightarrow>
          map (path_ordinal \<circ> snd) frames
            = [1..int (length (select_indices (analysis_frames_of cap max_duration) max_frames))])
     \<and> int (length frames) \<le> max 0 max_frames
     \<and> (analysis_frames_of cap max_duration \<le> 2 ^ 52
          \<and> (max_frames < analysis_frames_of cap max_duration \<longrightarrow>
                analysis_frames_of cap max_duration * max_frames \<le> 2 ^ 53) \<longrightarrow>
          sorted_wrt (<) (map fst frames))"
proof -
  define selected where "selected = select_indices (analysis_frames_of cap max_duration) max_frames"
  define frames where
    "frames = map (frame_of output_dir (cap_fps cap)) (filter (kept cap) (enumerate 0 selected))"
  from assms(1,2) have run: "extract_fixed_frames cap output_dir max_frames max_duration
      = (Inr frames, Released)"
    by (simp add: extract_fixed_frames_ok frames_def selected_def)
  have "frame_of output_dir (cap_fps cap)
      = (\<lambda>(i, k). (float_div (py_float k) (cap_fps cap),
                    FramePath output_dir (int i + 1) (float_div (py_float k) (cap_fps cap))))"
    by (simp add: fun_eq_iff frame_of_def)
  moreover have "kept cap = (\<lambda>(i, k). read_ok cap k \<and> write_ok cap k)"
    by (simp add: fun_eq_iff kept_def)
  ultimately have shape: "frames
      = map (\<lambda>(i, k). (float_div (py_float k) (cap_fps cap),
                       FramePath output_dir (int i + 1) (float_div (py_float k) (cap_fps cap))))
          (filter (\<lambda>(i, k). read_ok cap k \<and> write_ok cap k) (enumerate 0 selected))"
    by (simp only: frames_def)
  have len_sel: "int (length selected) \<le> max 0 max_frames"
    by (simp add: selected_def length_select_indices)
  have ord: "sorted_wrt (<) (map (path_ordinal \<circ> snd) frames)"
    unfolding frames_def by (rule ordinals_strict)
  have rng: "\<forall>f \<in> set frames. 1 \<le> path_ordinal (snd f) \<and> path_ordinal (snd f) \<le> max_frames"
  proof
    fix f assume "f \<in> set frames"
    then have "1 \<le> path_ordinal (snd f) \<and> path_ordinal (snd f) \<le> int (length selected)"
      unfolding frames_def by (rule ordinals_range)
    with len_sel show "1 \<le> path_ordinal (snd f) \<and> path_ordinal (snd f) \<le> max_frames"
      by arith
  qed
  have full: "map (path_ordinal \<circ> snd) frames = [1..int (length selected)]"
    if "\<forall>k \<in> set selected. read_ok cap k \<and> write_ok cap k"
    unfolding frames_def by (simp only: ordinals_all_kept [OF that] ordinals_upto)
  have "length frames \<le> length selected"
    by (simp add: frames_def order_trans [OF length_filter_le])
  with len_sel have len: "int (length frames) \<le> max 0 max_frames" by simp
  have ts: "sorted_wrt (<) (map fst frames)"
    if small: "analysis_frames_of cap max_duration \<le> 2 ^ 52
          \<and> (max_frames < analysis_frames_of cap max_duration \<longrightarrow>
                analysis_frames_of cap max_duration * max_frames \<le> 2 ^ 53)"
  proof -
    from small have bound: "analysis_frames_of cap max_duration * max_frames \<le> 2 ^ 53"
      if "max_frames < analysis_frames_of cap max_duration"
      using that by simp
    have strict: "sorted_wrt (<) selected"
      unfolding selected_def by (rule select_indices_strict) (rule bound)
    have "\<forall>k \<in> set selected. 0 \<le> k \<and> k < 2 ^ 52"
    proof
      fix k assume "k \<in> set selected"
      have "0 \<le> k \<and> k < analysis_frames_of cap max_duration"
      proof (rule select_indices_bounds)
        show "analysis_frames_of cap max_duration * max_frames \<le> 2 ^ 53"
          if "max_frames < analysis_frames_of cap max_duration"
          using that by (rule bound)
        show "k \<in> set (select_indices (analysis_frames_of cap max_duration) max_frames)"
          using \<open>k \<in> set selected\<close> by (simp only: selected_def)
      qed
      with small show "0 \<le> k \<and> k < 2 ^ 52" by simp
    qed
    with assms(2) strict show ?thesis
      unfolding frames_def by (rule timestamps_strict)
  qed
  from run shape ord rng full len ts show ?thesis
    unfolding selected_def by blast
qed

text \<open>
  C5 (amended) at the forty frame clip with four frames requested: the indices 0, 10, 20
  and 30 are selected, the frame at 10 is not decoded and the one at 30 is not written,
  and the two frames returned carry the ordinals 1 and 3.
\<close>

theorem C5_sampled_frames_invariant_witness:
  "extract_fixed_frames skip_clip ''frames'' 4 20
     = (Inr [(0, FramePath ''frames'' 1 0), (5 / 2, FramePath ''frames'' 3 (5 / 2))], Released)
   \<and> map (path_ordinal \<circ> snd)
       [(0::rat, FramePath ''frames'' 1 0), (5 / 2, FramePath ''frames'' 3 (5 / 2))] = [1, 3]
   \<and> sorted_wrt (<)
       (map fst [(0::rat, FramePath ''frames'' 1 0), (5 / 2, FramePath ''frames'' 3 (5 / 2))])"
proof -
  have sel: "select_indices (analysis_frames_of skip_clip 20) 4 = [0, 10, 20, 30]"
    by (simp only: skip_clip_window) code_simp
  have ok: "is_opened skip_clip" "0 < cap_fps skip_clip" "cap_fps skip_clip = 8"
    by (simp_all add: skip_clip_def)
  have small: "analysis_frames_of skip_clip 20 \<le> 2 ^ 52
      \<and> (4 < analysis_frames_of skip_clip 20 \<longrightarrow> analysis_frames_of skip_clip 20 * 4 \<le> 2 ^ 53)"
    by (simp add: skip_clip_window)
  from C5_sampled_frames_invariant [OF ok(1,2), where output_dir = "''frames''"
      and max_frames = 4 and max_duration = 20]
  obtain frames where run: "extract_fixed_frames skip_clip ''frames'' 4 20 = (Inr frames, Released)"
    and shape: "frames
         = map (\<lambda>(i, k). (float_div (py_float k) (cap_fps skip_clip),
                          FramePath ''frames'' (int i + 1) (float_div (py_float k) (cap_fps skip_clip))))
             (filter (\<lambda>(i, k). read_ok skip_clip k \<and> write_ok skip_clip k)
                (enumerate 0 (select_indices (analysis_frames_of skip_clip 20) 4)))"
    and ts: "analysis_frames_of skip_clip 20 \<le> 2 ^ 52
          \<and> (4 < analysis_frames_of skip_clip 20 \<longrightarrow>
                analysis_frames_of skip_clip 20 * 4 \<le> 2 ^ 53) \<longrightarrow>
          sorted_wrt (<) (map fst frames)"
    by blast
  have "filter (\<lambda>(i, k). read_ok skip_clip k \<and> write_ok skip_clip k)
      (enumerate 0 [0, 10, 20, 30]) = [(0, 0), (2, 20)]"
    by (simp add: skip_clip_def enumerate_eq_zip)
  with shape have frames:
    "frames = [(0, FramePath ''frames'' 1 0), (5 / 2, FramePath ''frames'' 3 (5 / 2))]"
    by (simp add: sel ok(3) skip_clip_stamps)
  from ts small have "sorted_wrt (<) (map fst frames)" by (rule mp)
  with run frames show ?thesis by simp
qed

section \<open>The claim on interval sampling\<close>

text \<open>
  C7 as stated fails: the interval is \<^verbatim>\<open>int(fps * interval_seconds)\<close>, a truncation, not a
  rounding. At 7.75 frames per second and an interval of one second the rounded product
  is 8, and the sampler extracts the frames 0 and 7 (timestamps 0 and the double nearest
  to \<open>7 / 7.75\<close>).
\<close>

theorem C7_truncated_interval_counterexample:
  "round (cap_fps odd_rate_clip * 1) = 8
   \<and> extract_frames odd_rate_clip ''frames'' 1
     = Some (Inr [(0, StampPath ''frames'' 0),
                  (8135534810733799 / 9007199254740992,
                   StampPath ''frames'' (8135534810733799 / 9007199254740992))])"
proof -
  have r: "round (cap_fps odd_rate_clip * 1) = 8" by code_simp
  have fps: "cap_fps odd_rate_clip = 31 / 4" by (simp add: odd_rate_clip_def)
  have "read_loop odd_rate_clip ''frames'' (31 / 4) 7 0 []
      = Some (Inr ([] @ map (interval_frame_of ''frames'' (31 / 4))
          (filter (\<lambda>k. k mod 7 = 0 \<and> write_ok odd_rate_clip k) [0..9 - 1])))"
    by (rule read_loop_eq) (simp_all add: odd_rate_clip_def)
  also have "filter (\<lambda>k. k mod 7 = 0 \<and> write_ok odd_rate_clip k) [0..9 - 1] = [0, 7]"
    by (simp add: odd_rate_clip_def upto.simps)
  finally have "read_loop odd_rate_clip ''frames'' (31 / 4) 7 0 []
      = Some (Inr [(0, StampPath ''frames'' 0),
                   (8135534810733799 / 9007199254740992,
                    StampPath ''frames'' (8135534810733799 / 9007199254740992))])"
    by (simp add: interval_frame_of_def odd_rate_stamps)
  moreover have "extract_frames odd_rate_clip ''frames'' 1
      = read_loop odd_rate_clip ''frames'' (31 / 4) (py_int (float_mul (31 / 4) 1)) 0 []"
    by (simp add: extract_frames_def Let_def odd_rate_clip_def)
  ultimately show ?thesis
    by (simp only: r odd_rate_interval simp_thms)
qed

text \<open>
  C7, amended. For an opened video with positive frame rate whose reads succeed at the
  positions \<open>0, \<dots>, n - 1\<close> and fail at \<open>n\<close>, and an interval whose truncated product
  \<^verbatim>\<open>int(fps * interval_seconds)\<close> (the product a double, truncated toward zero) is not
  zero, the sampler returns, in order and with no bound on their number, exactly the
  frames at the positions below \<open>n\<close> that are multiples of that truncated product and
  whose image was written, each with its position divided by the frame rate as timestamp.
\<close>

theorem C7_interval_sampling:
  fixes cap :: video
  assumes "is_opened cap" and "0 < cap_fps cap"
    and "py_int (float_mul (cap_fps cap) interval_seconds) \<noteq> 0"
    and "0 \<le> n" and "\<forall>k. 0 \<le> k \<and> k < n \<longrightarrow> read_ok cap k" and "\<not> read_ok cap n"
  shows "extract_frames cap output_dir interval_seconds
     = Some (Inr (map (\<lambda>k. (float_div (py_float k) (cap_fps cap),
                             StampPath output_dir (float_div (py_float k) (cap_fps cap))))
         (filter (\<lambda>k. k mod py_int (float_mul (cap_fps cap) interval_seconds) = 0 \<and> write_ok cap k)
            [0..n - 1])))"
proof -
  from assms(2) have "cap_fps cap \<noteq> 0" by simp
  with assms(1) have "extract_frames cap output_dir interval_seconds
      = read_loop cap output_dir (cap_fps cap)
          (py_int (float_mul (cap_fps cap) interval_seconds)) 0 []"
    by (simp add: extract_frames_def Let_def)
  also have "\<dots> = Some (Inr ([] @ map (interval_frame_of output_dir (cap_fps cap))
         (filter (\<lambda>k. k mod py_int (float_mul (cap_fps cap) interval_seconds) = 0 \<and> write_ok cap k)
            [0..n - 1])))"
    by (rule read_loop_eq [OF assms(3) assms(5) assms(6) assms(4)])
  finally show ?thesis
    by (simp add: interval_frame_of_def [abs_def])
qed

text \<open>
  C7 (amended) at the sixty frame clip at 25 frames per second with an interval of 1.16
  seconds: the product of the two doubles is the double just below 29, the interval is 28
  frames, and the frames 0, 28 and 56 are returned.
\<close>

theorem C7_interval_sampling_witness:
  "extract_frames pal_clip ''frames'' interval_1_16
     = Some (Inr [(0, StampPath ''frames'' 0),
                  (1261007895663739 / 1125899906842624,
                   StampPath ''frames'' (1261007895663739 / 1125899906842624)),
                  (1261007895663739 / 562949953421312,
                   StampPath ''frames'' (1261007895663739 / 562949953421312))])"
proof -
  have fps: "cap_fps pal_clip = 25" by (simp add: pal_clip_def)
  have nz: "py_int (float_mul (cap_fps pal_clip) interval_1_16) \<noteq> 0"
    by (simp add: fps pal_interval)
  have opened: "is_opened pal_clip" "0 < cap_fps pal_clip"
    by (simp_all add: pal_clip_def)
  have reads: "(0::int) \<le> 60" "\<forall>k. 0 \<le> k \<and> k < 60 \<longrightarrow> read_ok pal_clip k"
    "\<not> read_ok pal_clip 60"
    by (simp_all add: pal_clip_def)
  have sel: "filter (\<lambda>k. k mod 28 = 0 \<and> write_ok pal_clip k) [0..60 - 1] = [0, 28, 56]"
    by (simp add: pal_clip_def upto.simps)
  show ?thesis
    using C7_interval_sampling [OF opened nz reads, where output_dir = "''frames''"]
    by (simp only: fps pal_interval sel) (simp add: pal_stamps)
qed

section \<open>The claims on frame analysis and summary\<close>

text \<open>
  C2. For a positive batch size the scheduler returns one result per input frame, in the
  order of the input: result \<open>k\<close> carries the timestamp and the path of frame \<open>k\<close> and the
  frame number \<open>k + 1\<close>, and its analysis part is what the analyzer makes of the outcome of
  frame \<open>k\<close>'s own \<^verbatim>\<open>try\<close> block. When that outcome is an exception, result \<open>k\<close> has
  \<open>success = False\<close> and the message as its error. Changing the oracle's answer to the
  request of frame \<open>k\<close> alone leaves the result of every other frame as it was. The
  analyzer itself returns the failure dict, with the message, whenever its \<^verbatim>\<open>try\<close> block
  raises.
\<close>

theorem C2_batch_scheduler:
  assumes "0 < batch_size"
  shows "\<exists>results sent'.
      analyze_multiple_frames_async fs llm sent frame_data batch_size = (Inr results, sent')
    \<and> length results = length frame_data
    \<and> (\<forall>k < length frame_data.
          timestamp (results ! k) = fst (frame_data ! k)
        \<and> frame_path (results ! k) = snd (frame_data ! k)
        \<and> frame_number (results ! k) = int k + 1
        \<and> analysis_result.truncate (results ! k)
            = analysis_of (frame_try fs llm (length sent + calls_before fs frame_data k)
                (snd (frame_data ! k)) None)
        \<and> (\<forall>e. frame_try fs llm (length sent + calls_before fs frame_data k)
                (snd (frame_data ! k)) None = Inl e \<longrightarrow>
              \<not> success (results ! k) \<and> error (results ! k) = Some e)
        \<and> (\<forall>llm'. fs (snd (frame_data ! k)) \<noteq> None
              \<and> (\<forall>n r. n \<noteq> length sent + calls_before fs frame_data k \<longrightarrow> llm' n r = llm n r) \<longrightarrow>
              (\<exists>results'.
                  fst (analyze_multiple_frames_async fs llm' sent frame_data batch_size)
                    = Inr results'
                \<and> length results' = length frame_data
                \<and> (\<forall>j < length frame_data. j \<noteq> k \<longrightarrow> results' ! j = results ! j))))
    \<and> (\<forall>sent0 image_path custom_prompt e.
          frame_try fs llm (length sent0) image_path custom_prompt = Inl e \<longrightarrow>
          fst (analyze_frame_async fs llm sent0 image_path custom_prompt)
            = \<lparr>success = False, description = ''Error analyzing frame: '' @ e,
               error = Some e, tokens_used = None, model = None\<rparr>)"
proof -
  define results where "results = fst (seq_run fs llm sent 0 frame_data)"
  define c where "c k = length sent + calls_before fs frame_data k" for k
  have run: "analyze_multiple_frames_async fs llm sent frame_data batch_size
      = (Inr results, snd (seq_run fs llm sent 0 frame_data))"
    by (simp add: results_def analyze_multiple_frames_async_seq [OF assms])
  have len: "length results = length frame_data"
    by (simp add: results_def seq_run_length)
  have nth: "results ! k = with_metadata (fst (frame_data ! k)) (snd (frame_data ! k)) k
      (analysis_of (frame_try fs llm (c k) (snd (frame_data ! k)) None))"
    if "k < length frame_data" for k
    using seq_run_nth [OF that, where fs = fs and llm = llm and sent = sent and i = 0]
    by (simp add: results_def c_def)
  have fail: "\<not> success (results ! k) \<and> error (results ! k) = Some e"
    if "k < length frame_data" "frame_try fs llm (c k) (snd (frame_data ! k)) None = Inl e"
    for k e
    using that by (simp add: nth with_metadata_sel analysis_of_failure)
  have isolated: "\<exists>results'.
        fst (analyze_multiple_frames_async fs llm' sent frame_data batch_size) = Inr results'
      \<and> length results' = length frame_data
      \<and> (\<forall>j < length frame_data. j \<noteq> k \<longrightarrow> results' ! j = results ! j)"
    if k: "k < length frame_data" and img: "fs (snd (frame_data ! k)) \<noteq> None"
      and same: "\<forall>n r. n \<noteq> c k \<longrightarrow> llm' n r = llm n r"
    for llm' k
  proof (intro exI conjI allI impI)
    show "fst (analyze_multiple_frames_async fs llm' sent frame_data batch_size)
        = Inr (fst (seq_run fs llm' sent 0 frame_data))"
      by (simp add: analyze_multiple_frames_async_seq [OF assms])
    show "length (fst (seq_run fs llm' sent 0 frame_data)) = length frame_data"
      by (rule seq_run_length)
    fix j assume j: "j < length frame_data" and jk: "j \<noteq> k"
    have "frame_try fs llm' (c j) (snd (frame_data ! j)) None
        = frame_try fs llm (c j) (snd (frame_data ! j)) None"
    proof (rule frame_try_cong, rule impI)
      assume "fs (snd (frame_data ! j)) \<noteq> None"
      with j k jk img have "calls_before fs frame_data j \<noteq> calls_before fs frame_data k"
        by (intro calls_before_distinct)
      then have "c j \<noteq> c k" by (simp add: c_def)
      with same show "\<forall>r. llm' (c j) r = llm (c j) r" by simp
    qed
    then show "fst (seq_run fs llm' sent 0 frame_data) ! j = results ! j"
      using seq_run_nth [OF j, where fs = fs and llm = llm' and sent = sent and i = 0]
      by (simp add: nth [OF j] c_def)
  qed
  have boundary: "fst (analyze_frame_async fs llm sent0 image_path custom_prompt)
      = \<lparr>success = False, description = ''Error analyzing frame: '' @ e,
         error = Some e, tokens_used = None, model = None\<rparr>"
    if "frame_try fs llm (length sent0) image_path custom_prompt = Inl e"
    for sent0 image_path custom_prompt e
    using that by (simp add: analyze_frame_async_eq analysis_of_failure)
  have perk: "\<forall>k < length frame_data.
          timestamp (results ! k) = fst (frame_data ! k)
        \<and> frame_path (results ! k) = snd (frame_data ! k)
        \<and> frame_number (results ! k) = int k + 1
        \<and> analysis_result.truncate (results ! k)
            = analysis_of (frame_try fs llm (length sent + calls_before fs frame_data k)
                (snd (frame_data ! k)) None)
        \<and> (\<forall>e. frame_try fs llm (length sent + calls_before fs frame_data k)
                (snd (frame_data ! k)) None = Inl e \<longrightarrow>
              \<not> success (results ! k) \<and> error (results ! k) = Some e)
        \<and> (\<forall>llm'. fs (snd (frame_data ! k)) \<noteq> None
              \<and> (\<forall>n r. n \<noteq> length sent + calls_before fs frame_data k \<longrightarrow> llm' n r = llm n r) \<longrightarrow>
              (\<exists>results'.
                  fst (analyze_multiple_frames_async fs llm' sent frame_data batch_size)
                    = Inr results'
                \<and> length results' = length frame_data
                \<and> (\<forall>j < length frame_data. j \<noteq> k \<longrightarrow> results' ! j = results ! j)))"
  proof (intro allI impI)
    fix k assume k: "k < length frame_data"
    have p1: "timestamp (results ! k) = fst (frame_data ! k)"
      by (simp add: nth [OF k] with_metadata_sel)
    have p2: "frame_path (results ! k) = snd (frame_data ! k)"
      by (simp add: nth [OF k] with_metadata_sel)
    have p3: "frame_number (results ! k) = int k + 1"
      by (simp add: nth [OF k] with_metadata_sel)
    have p4: "analysis_result.truncate (results ! k)
        = analysis_of (frame_try fs llm (length sent + calls_before fs frame_data k)
            (snd (frame_data ! k)) None)"
      by (simp add: nth [OF k] with_metadata_sel c_def)
    have p5: "\<forall>e. frame_try fs llm (length sent + calls_before fs frame_data k)
                (snd (frame_data ! k)) None = Inl e \<longrightarrow>
              \<not> success (results ! k) \<and> error (results ! k) = Some e"
      using fail [OF k] unfolding c_def by blast
    have p6: "\<forall>llm'. fs (snd (frame_data ! k)) \<noteq> None
              \<and> (\<forall>n r. n \<noteq> length sent + calls_before fs frame_data k \<longrightarrow> llm' n r = llm n r) \<longrightarrow>
              (\<exists>results'.
                  fst (analyze_multiple_frames_async fs llm' sent frame_data batch_size)
                    = Inr results'
                \<and> length results' = length frame_data
                \<and> (\<forall>j < length frame_data. j \<noteq> k \<longrightarrow> results' ! j = results ! j))"
      using isolated [OF k] unfolding c_def by blast
    from p1 p2 p3 p4 p5 p6
    show "timestamp (results ! k) = fst (frame_data ! k)
        \<and> frame_path (results ! k) = snd (frame_data ! k)
        \<and> frame_number (results ! k) = int k + 1
        \<and> analysis_result.truncate (results ! k)
            = analysis_of (frame_try fs llm (length sent + calls_before fs frame_data k)
                (snd (frame_data ! k)) None)
        \<and> (\<forall>e. frame_try fs llm (length sent + calls_before fs frame_data k)
                (snd (frame_data ! k)) None = Inl e \<longrightarrow>
              \<not> success (results ! k) \<and> error (results ! k) = Some e)
        \<and> (\<forall>llm'. fs (snd (frame_data ! k)) \<noteq> None
              \<and> (\<forall>n r. n \<noteq> length sent + calls_before fs frame_data k \<longrightarrow> llm' n r = llm n r) \<longrightarrow>
              (\<exists>results'.
                  fst (analyze_multiple_frames_async fs llm' sent frame_data batch_size)
                    = Inr results'
                \<and> length results' = length frame_data
                \<and> (\<forall>j < length frame_data. j \<noteq> k \<longrightarrow> results' ! j = results ! j)))"
      by (intro conjI)
  qed
  have bnd: "\<forall>sent0 image_path custom_prompt e.
          frame_try fs llm (length sent0) image_path custom_prompt = Inl e \<longrightarrow>
          fst (analyze_frame_async fs llm sent0 image_path custom_prompt)
            = \<lparr>success = False, description = ''Error analyzing frame: '' @ e,
               error = Some e, tokens_used = None, model = None\<rparr>"
    using boundary by blast
  from run len perk bnd show ?thesis
    by (intro exI [where x = results] exI [where x = "snd (seq_run fs llm sent 0 frame_data)"] conjI)
qed

text \<open>C2 at three frames in batches of two, with the second oracle call timing out.\<close>

theorem C2_batch_scheduler_witness:
  "\<exists>results sent'.
      analyze_multiple_frames_async demo_files flaky_llm [] demo_frames 2 = (Inr results, sent')
    \<and> length results = 3
    \<and> success (results ! 0) \<and> frame_number (results ! 0) = 1
    \<and> \<not> success (results ! 1) \<and> frame_number (results ! 1) = 2
    \<and> error (results ! 1) = Some ''Request timed out''
    \<and> success (results ! 2) \<and> frame_number (results ! 2) = 3"
proof -
  have pos: "(0::int) < 2" by simp
  have n: "length demo_frames = 3" by (simp add: demo_frames_def)
  have k: "0 < length demo_frames" "1 < length demo_frames" "2 < length demo_frames"
    by (simp_all add: n)
  have c: "length ([] :: request list) + calls_before demo_files demo_frames 0 = 0"
    "length ([] :: request list) + calls_before demo_files demo_frames 1 = 1"
    "length ([] :: request list) + calls_before demo_files demo_frames 2 = 2"
    by (simp_all add: calls_before_def demo_files_def demo_frames_def)
  have t: "frame_try demo_files flaky_llm 0 (snd (demo_frames ! 0)) None
        = Inr \<lparr>content = ''a scene'', total_tokens = 100\<rparr>"
    "frame_try demo_files flaky_llm 1 (snd (demo_frames ! 1)) None = Inl ''Request timed out''"
    "frame_try demo_files flaky_llm 2 (snd (demo_frames ! 2)) None
        = Inr \<lparr>content = ''a scene'', total_tokens = 100\<rparr>"
    by (simp_all add: frame_try_def demo_files_def demo_frames_def flaky_llm_def)
  from C2_batch_scheduler [OF pos, where fs = demo_files and llm = flaky_llm and sent = "[]"
      and frame_data = demo_frames]
  obtain results sent' where
    run: "analyze_multiple_frames_async demo_files flaky_llm [] demo_frames 2 = (Inr results, sent')"
    and len: "length results = length demo_frames"
    and per: "\<And>k. k < length demo_frames \<Longrightarrow>
        frame_number (results ! k) = int k + 1
      \<and> analysis_result.truncate (results ! k)
          = analysis_of (frame_try demo_files flaky_llm
              (length ([] :: request list) + calls_before demo_files demo_frames k)
              (snd (demo_frames ! k)) None)"
    by blast
  from per [OF k(1)] have a0: "analysis_result.truncate (results ! 0)
      = analysis_of (Inr \<lparr>content = ''a scene'', total_tokens = 100\<rparr>)"
    by (simp only: c t)
  from per [OF k(1)] have f0: "frame_number (results ! 0) = 1"
    by simp
  from per [OF k(2)] have a1: "analysis_result.truncate (results ! 1)
      = analysis_of (Inl ''Request timed out'')"
    by (simp only: c t)
  from per [OF k(2)] have f1: "frame_number (results ! 1) = 2"
    by simp
  from per [OF k(3)] have a2: "analysis_result.truncate (results ! 2)
      = analysis_of (Inr \<lparr>content = ''a scene'', total_tokens = 100\<rparr>)"
    by (simp only: c t)
  from per [OF k(3)] have f2: "frame_number (results ! 2) = 3"
    by simp
  have s0: "success (results ! 0)"
    using truncate_sel(1) [of "results ! 0", unfolded a0] by (simp add: analysis_of_def)
  have s1: "\<not> success (results ! 1)" "error (results ! 1) = Some ''Request timed out''"
    using truncate_sel [of "results ! 1", unfolded a1] by (simp_all add: analysis_of_def)
  have s2: "success (results ! 2)"
    using truncate_sel(1) [of "results ! 2", unfolded a2] by (simp add: analysis_of_def)
  from run len n f0 f1 f2 s0 s1 s2 show ?thesis by simp
qed

section \<open>The claims on insufficient input and pairwise comparison\<close>

text \<open>
  C3. A summary requested for frame results none of which succeeded returns
  \<open>success = False\<close> with an error message and sends no request: the log of requests
  comes back unchanged. With fewer than two successfully processed videos (each of them
  carrying its \<^verbatim>\<open>info\<close>), the holistic analysis and the pairwise comparison each return
  \<open>success = False\<close> with an error message, again with the log unchanged. In all three
  the check comes before any request.
\<close>

theorem C3_insufficient_input:
  "(filter success frame_analyses = [] \<longrightarrow>
      generate_comprehensive_summary llm sent frame_analyses info
        = (\<lparr>sum_success = False, sum_summary = None,
            sum_error = Some ''No successful frame analyses to summarize'',
            sum_tokens_used = None, sum_frames_analyzed = None\<rparr>, sent))
   \<and> ((\<forall>v \<in> set video_results. breakdown_success v \<longrightarrow> dl_info v \<noteq> None)
        \<and> length (filter breakdown_success video_results) < 2 \<longrightarrow>
      analyze_similarities_async llm sent video_results
        = (Inr \<lparr>sim_success = False,
             sim_error = Some ''Need at least 2 successfully analyzed videos for comparison'',
             sim_analysis = None, sim_tokens_used = None,
             sim_videos_analyzed = Some (length (filter breakdown_success video_results)),
             sim_videos_compared = None, sim_video_titles = None\<rparr>, sent)
      \<and> generate_pairwise_comparisons llm sent video_results
        = (Inr \<lparr>pw_success = False,
             pw_error = Some ''Need at least 2 successfully analyzed videos for comparison'',
             pairwise_comparisons = None, total_pairs = None,
             total_tokens_used = None, videos_analyzed = None\<rparr>, sent))"
proof (intro conjI impI)
  assume "filter success frame_analyses = []"
  then show "generate_comprehensive_summary llm sent frame_analyses info
        = (\<lparr>sum_success = False, sum_summary = None,
            sum_error = Some ''No successful frame analyses to summarize'',
            sum_tokens_used = None, sum_frames_analyzed = None\<rparr>, sent)"
    by (simp add: generate_comprehensive_summary_def)
next
  assume a: "(\<forall>v \<in> set video_results. breakdown_success v \<longrightarrow> dl_info v \<noteq> None)
        \<and> length (filter breakdown_success video_results) < 2"
  define summaries where "summaries
      = map entry_of (filter (\<lambda>p. breakdown_success (snd p)) (enumerate 0 video_results))"
  from a have "\<forall>v \<in> set video_results. well_formed v" by (simp add: well_formed_def)
  then have prep: "prepare_video_summaries video_results = Inr summaries"
    unfolding summaries_def by (rule prepare_video_summaries_eq)
  have len: "length summaries = length (filter breakdown_success video_results)"
    by (simp add: summaries_def length_successes)
  with a have few: "length summaries < 2" by simp
  from prep few len show "analyze_similarities_async llm sent video_results
        = (Inr \<lparr>sim_success = False,
             sim_error = Some ''Need at least 2 successfully analyzed videos for comparison'',
             sim_analysis = None, sim_tokens_used = None,
             sim_videos_analyzed = Some (length (filter breakdown_success video_results)),
             sim_videos_compared = None, sim_video_titles = None\<rparr>, sent)"
    by (simp add: analyze_similarities_async_def)
  from prep few show "generate_pairwise_comparisons llm sent video_results
        = (Inr \<lparr>pw_success = False,
             pw_error = Some ''Need at least 2 successfully analyzed videos for comparison'',
             pairwise_comparisons = None, total_pairs = None,
             total_tokens_used = None, videos_analyzed = None\<rparr>, sent)"
    by (simp add: generate_pairwise_comparisons_def)
qed

text \<open>C3 at two failed frame analyses and at two video results with one success.\<close>

theorem C3_insufficient_input_witness:
  "generate_comprehensive_summary flaky_llm [] failed_analyses demo_info
      = (\<lparr>sum_success = False, sum_summary = None,
          sum_error = Some ''No successful frame analyses to summarize'',
          sum_tokens_used = None, sum_frames_analyzed = None\<rparr>, [])
   \<and> analyze_similarities_async flaky_llm [] [demo_video ''a'' True, demo_video ''b'' False]
      = (Inr \<lparr>sim_success = False,
           sim_error = Some ''Need at least 2 successfully analyzed videos for comparison'',
           sim_analysis = None, sim_tokens_used = None, sim_videos_analyzed = Some 1,
           sim_videos_compared = None, sim_video_titles = None\<rparr>, [])
   \<and> generate_pairwise_comparisons flaky_llm [] [demo_video ''a'' True, demo_video ''b'' False]
      = (Inr \<lparr>pw_success = False,
           pw_error = Some ''Need at least 2 successfully analyzed videos for comparison'',
           pairwise_comparisons = None, total_pairs = None,
           total_tokens_used = None, videos_analyzed = None\<rparr>, [])"
  using C3_insufficient_input [where frame_analyses = failed_analyses and llm = flaky_llm
      and sent = "[]" and info = demo_info
      and video_results = "[demo_video ''a'' True, demo_video ''b'' False]"]
  by (simp add: failed_analyses_def demo_video_def)

text \<open>
  C4. With \<open>m \<ge> 2\<close> successfully processed videos (each carrying its \<^verbatim>\<open>info\<close>), the
  summaries keep the order of the input, and the output has exactly \<open>m * (m - 1) div 2\<close>
  comparisons, for the index pairs \<open>(i, j)\<close>, \<open>i < j\<close>, in the order of the nested loops
  (reported 1-based). Comparison \<open>k\<close> is made from the oracle's outcome for request
  \<open>k\<close> alone: an error gives the text "Error: " followed by the message and zero tokens,
  and changing the outcome of request \<open>k\<close> changes no other comparison. The reported
  total is the sum of the tokens of all comparisons.
\<close>

theorem C4_pairwise_comparisons:
  assumes wf: "\<forall>v \<in> set video_results. breakdown_success v \<longrightarrow> dl_info v \<noteq> None"
    and two: "2 \<le> length (filter breakdown_success video_results)"
  shows "\<exists>summaries comparisons sent'.
      prepare_video_summaries video_results = Inr summaries
    \<and> map vs_url summaries = map dl_url (filter breakdown_success video_results)
    \<and> generate_pairwise_comparisons llm sent video_results
        = (Inr \<lparr>pw_success = True, pw_error = None,
               pairwise_comparisons = Some comparisons,
               total_pairs = Some (length comparisons),
               total_tokens_used = Some (sum_list (map cmp_tokens_used comparisons)),
               videos_analyzed = Some (length summaries)\<rparr>, sent')
    \<and> length comparisons = length summaries * (length summaries - 1) div 2
    \<and> map (\<lambda>c. (video1_index c, video2_index c)) comparisons
        = concat (map (\<lambda>i. map (\<lambda>j. (i + 1, j + 1)) [i + 1..<length summaries])
            [0..<length summaries])
    \<and> (\<forall>k < length comparisons.
          comparisons ! k
            = pair_entry summaries (index_pairs (length summaries) ! k)
                (llm (length sent + k)
                   (pair_request summaries (index_pairs (length summaries) ! k)))
        \<and> (\<forall>e. llm (length sent + k)
                   (pair_request summaries (index_pairs (length summaries) ! k)) = Inl e \<longrightarrow>
               comparison_text (comparisons ! k) = ''Error: '' @ e
             \<and> cmp_tokens_used (comparisons ! k) = 0)
        \<and> (\<forall>llm'. (\<forall>n r. n \<noteq> length sent + k \<longrightarrow> llm' n r = llm n r) \<longrightarrow>
              (\<exists>r' comparisons'.
                  fst (generate_pairwise_comparisons llm' sent video_results) = Inr r'
                \<and> pairwise_comparisons r' = Some comparisons'
                \<and> length comparisons' = length comparisons
                \<and> (\<forall>j < length comparisons. j \<noteq> k \<longrightarrow> comparisons' ! j = comparisons ! j))))"
proof -
  define summaries where "summaries
      = map entry_of (filter (\<lambda>p. breakdown_success (snd p)) (enumerate 0 video_results))"
  define m where "m = length summaries"
  define ps where "ps = index_pairs m"
  define run where "run f = map (\<lambda>(n, p). pair_entry summaries p (f n (pair_request summaries p)))
      (enumerate (length sent) ps)" for f :: llm
  from wf have wf': "\<forall>v \<in> set video_results. well_formed v" by (simp add: well_formed_def)
  then have prep: "prepare_video_summaries video_results = Inr summaries"
    unfolding summaries_def by (rule prepare_video_summaries_eq)
  have urls: "map vs_url summaries = map dl_url (filter breakdown_success video_results)"
    unfolding summaries_def by (rule summaries_urls [OF wf'])
  have "length summaries = length (filter breakdown_success video_results)"
    by (simp add: summaries_def length_successes)
  with two have m2: "2 \<le> length summaries" by simp
  have loops: "pair_loops f summaries sent = (run f, sent @ map (pair_request summaries) ps)"
    for f
    by (simp add: pair_loops_eq run_def ps_def m_def)
  have gen: "generate_pairwise_comparisons f sent video_results
      = (Inr \<lparr>pw_success = True, pw_error = None,
               pairwise_comparisons = Some (run f),
               total_pairs = Some (length (run f)),
               total_tokens_used = Some (sum_list (map cmp_tokens_used (run f))),
               videos_analyzed = Some (length summaries)\<rparr>,
         sent @ map (pair_request summaries) ps)" for f
    by (simp add: generate_pairwise_comparisons_eq [OF prep m2] loops)
  have len: "length (run f) = m * (m - 1) div 2" for f
    by (simp add: run_def ps_def length_index_pairs)
  have nth: "run f ! k = pair_entry summaries (ps ! k) (f (length sent + k)
      (pair_request summaries (ps ! k)))" if "k < length (run f)" for f k
    using that by (simp add: run_def nth_enumerate_eq)
  have idx: "map (\<lambda>c. (video1_index c, video2_index c)) (run llm)
      = concat (map (\<lambda>i. map (\<lambda>j. (i + 1, j + 1)) [i + 1..<m]) [0..<m])"
  proof -
    have "map (\<lambda>c. (video1_index c, video2_index c)) (run llm)
        = map ((\<lambda>p. (fst p + 1, snd p + 1)) \<circ> snd) (enumerate (length sent) ps)"
      by (simp add: run_def pair_entry_sel split_beta comp_def)
    also have "\<dots> = map (\<lambda>p. (fst p + 1, snd p + 1)) (map snd (enumerate (length sent) ps))"
      by (simp only: map_map)
    also have "\<dots> = map (\<lambda>p. (fst p + 1, snd p + 1)) ps"
      by (simp only: map_snd_enumerate)
    finally show ?thesis
      by (simp only: ps_def index_pairs_indices)
  qed
  have perk: "\<forall>k < length (run llm).
          run llm ! k
            = pair_entry summaries (ps ! k) (llm (length sent + k) (pair_request summaries (ps ! k)))
        \<and> (\<forall>e. llm (length sent + k) (pair_request summaries (ps ! k)) = Inl e \<longrightarrow>
               comparison_text (run llm ! k) = ''Error: '' @ e
             \<and> cmp_tokens_used (run llm ! k) = 0)
        \<and> (\<forall>llm'. (\<forall>n r. n \<noteq> length sent + k \<longrightarrow> llm' n r = llm n r) \<longrightarrow>
              (\<exists>r' comparisons'.
                  fst (generate_pairwise_comparisons llm' sent video_results) = Inr r'
                \<and> pairwise_comparisons r' = Some comparisons'
                \<and> length comparisons' = length (run llm)
                \<and> (\<forall>j < length (run llm). j \<noteq> k \<longrightarrow> comparisons' ! j = run llm ! j)))"
  proof (intro allI impI)
    fix k assume k: "k < length (run llm)"
    have p1: "run llm ! k
        = pair_entry summaries (ps ! k) (llm (length sent + k) (pair_request summaries (ps ! k)))"
      by (rule nth [OF k])
    have p2: "\<forall>e. llm (length sent + k) (pair_request summaries (ps ! k)) = Inl e \<longrightarrow>
               comparison_text (run llm ! k) = ''Error: '' @ e
             \<and> cmp_tokens_used (run llm ! k) = 0"
      by (simp add: p1 pair_entry_sel)
    have p3: "\<forall>llm'. (\<forall>n r. n \<noteq> length sent + k \<longrightarrow> llm' n r = llm n r) \<longrightarrow>
              (\<exists>r' comparisons'.
                  fst (generate_pairwise_comparisons llm' sent video_results) = Inr r'
                \<and> pairwise_comparisons r' = Some comparisons'
                \<and> length comparisons' = length (run llm)
                \<and> (\<forall>j < length (run llm). j \<noteq> k \<longrightarrow> comparisons' ! j = run llm ! j))"
    proof (intro allI impI)
      fix llm' :: llm
      assume same: "\<forall>n r. n \<noteq> length sent + k \<longrightarrow> llm' n r = llm n r"
      have "\<forall>j < length (run llm). j \<noteq> k \<longrightarrow> run llm' ! j = run llm ! j"
      proof (intro allI impI)
        fix j assume j: "j < length (run llm)" and "j \<noteq> k"
        then have "length sent + j \<noteq> length sent + k" by simp
        with same have "llm' (length sent + j) (pair_request summaries (ps ! j))
            = llm (length sent + j) (pair_request summaries (ps ! j))"
          by blast
        moreover from j have "j < length (run llm')" by (simp add: len)
        ultimately show "run llm' ! j = run llm ! j"
          by (simp add: nth j)
      qed
      moreover have "length (run llm') = length (run llm)" by (simp add: len)
      moreover have "fst (generate_pairwise_comparisons llm' sent video_results)
          = Inr \<lparr>pw_success = True, pw_error = None,
               pairwise_comparisons = Some (run llm'),
               total_pairs = Some (length (run llm')),
               total_tokens_used = Some (sum_list (map cmp_tokens_used (run llm'))),
               videos_analyzed = Some (length summaries)\<rparr>"
        by (simp add: gen)
      ultimately show "\<exists>r' comparisons'.
                  fst (generate_pairwise_comparisons llm' sent video_results) = Inr r'
                \<and> pairwise_comparisons r' = Some comparisons'
                \<and> length comparisons' = length (run llm)
                \<and> (\<forall>j < length (run llm). j \<noteq> k \<longrightarrow> comparisons' ! j = run llm ! j)"
        by simp
    qed
    from p1 p2 p3 show "run llm ! k
            = pair_entry summaries (ps ! k) (llm (length sent + k) (pair_request summaries (ps ! k)))
        \<and> (\<forall>e. llm (length sent + k) (pair_request summaries (ps ! k)) = Inl e \<longrightarrow>
               comparison_text (run llm ! k) = ''Error: '' @ e
             \<and> cmp_tokens_used (run llm ! k) = 0)
        \<and> (\<forall>llm'. (\<forall>n r. n \<noteq> length sent + k \<longrightarrow> llm' n r = llm n r) \<longrightarrow>
              (\<exists>r' comparisons'.
                  fst (generate_pairwise_comparisons llm' sent video_results) = Inr r'
                \<and> pairwise_comparisons r' = Some comparisons'
                \<and> length comparisons' = length (run llm)
                \<and> (\<forall>j < length (run llm). j \<noteq> k \<longrightarrow> comparisons' ! j = run llm ! j)))"
      by (intro conjI)
  qed
  from prep urls gen [of llm] len [of llm] idx perk show ?thesis
    unfolding ps_def m_def
    by (intro exI [where x = summaries] exI [where x = "run llm"]
        exI [where x = "sent @ map (pair_request summaries) (index_pairs (length summaries))"] conjI)
qed

text \<open>C4 at four video results, three of them successful, the second request timing out.\<close>

theorem C4_pairwise_comparisons_witness:
  "\<exists>comparisons sent'.
      generate_pairwise_comparisons flaky_llm [] demo_videos
        = (Inr \<lparr>pw_success = True, pw_error = None,
               pairwise_comparisons = Some comparisons, total_pairs = Some 3,
               total_tokens_used = Some 200, videos_analyzed = Some 3\<rparr>, sent')
    \<and> map (\<lambda>c. (video1_index c, video2_index c)) comparisons = [(1, 2), (1, 3), (2, 3)]
    \<and> comparison_text (comparisons ! 1) = ''Error: Request timed out''
    \<and> cmp_tokens_used (comparisons ! 1) = 0"
proof -
  have wf: "\<forall>v \<in> set demo_videos. breakdown_success v \<longrightarrow> dl_info v \<noteq> None"
    by (simp add: demo_videos_def demo_video_def)
  have succ: "filter breakdown_success demo_videos
      = [demo_video ''a'' True, demo_video ''c'' True, demo_video ''d'' True]"
    by (simp add: demo_videos_def demo_video_def)
  have two: "2 \<le> length (filter breakdown_success demo_videos)"
    by (simp add: succ)
  from C4_pairwise_comparisons [OF wf two, where llm = flaky_llm and sent = "[]"]
  obtain summaries comparisons sent' where
    urls: "map vs_url summaries = map dl_url (filter breakdown_success demo_videos)"
    and gen: "generate_pairwise_comparisons flaky_llm [] demo_videos
        = (Inr \<lparr>pw_success = True, pw_error = None,
               pairwise_comparisons = Some comparisons,
               total_pairs = Some (length comparisons),
               total_tokens_used = Some (sum_list (map cmp_tokens_used comparisons)),
               videos_analyzed = Some (length summaries)\<rparr>, sent')"
    and len: "length comparisons = length summaries * (length summaries - 1) div 2"
    and idx: "map (\<lambda>c. (video1_index c, video2_index c)) comparisons
        = concat (map (\<lambda>i. map (\<lambda>j. (i + 1, j + 1)) [i + 1..<length summaries])
            [0..<length summaries])"
    and per: "\<And>k. k < length comparisons \<Longrightarrow>
          comparisons ! k
            = pair_entry summaries (index_pairs (length summaries) ! k)
                (flaky_llm (length ([] :: request list) + k)
                   (pair_request summaries (index_pairs (length summaries) ! k)))"
    by blast
  from urls have "length (map vs_url summaries) = 3" by (simp add: succ)
  then have m: "length summaries = 3" by simp
  from len have n: "length comparisons = 3" by (simp add: m)
  have k: "0 < length comparisons" "1 < length comparisons" "2 < length comparisons"
    by (simp_all add: n)
  have tok: "cmp_tokens_used (comparisons ! 0) = 100" "cmp_tokens_used (comparisons ! 1) = 0"
    "cmp_tokens_used (comparisons ! 2) = 100"
    "comparison_text (comparisons ! 1) = ''Error: Request timed out''"
    by (simp_all only: per [OF k(1)] per [OF k(2)] per [OF k(3)])
      (simp_all add: flaky_llm_def pair_entry_sel)
  from n obtain a b c where abc: "comparisons = [a, b, c]"
    by (auto simp: length_Suc_conv numeral_3_eq_3)
  from tok(1,2,3) have "cmp_tokens_used a = 100" "cmp_tokens_used b = 0" "cmp_tokens_used c = 100"
    by (simp_all add: abc)
  then have total: "sum_list (map cmp_tokens_used comparisons) = 200"
    by (simp add: abc)
  have order: "map (\<lambda>c. (video1_index c, video2_index c)) comparisons = [(1, 2), (1, 3), (2, 3)]"
    by (simp add: idx m upt_rec)
  from gen order tok show ?thesis
    by (simp only: n m total) simp
qed

section \<open>The claim on the batch orchestrator\<close>

text \<open>
  C6 as stated fails: a URL that is not a valid video URL gets no entry in the download
  results. It is printed in a warning and dropped before the loop.
\<close>

theorem C6_invalid_url_dropped_counterexample:
  "''not a url'' \<in> set demo_urls
   \<and> int (length demo_urls) \<le> 10
   \<and> map dl_url (download_multiple_videos demo_downloader demo_urls 20 10)
     = [''https://youtu.be/first1'', ''https://www.youtube.com/watch?v=broken'',
        ''https://youtu.be/third3'', ''https://youtu.be/fourth4'']"
proof -
  have valid: "filter is_valid_youtube_url demo_urls
      = [''https://youtu.be/first1'', ''https://www.youtube.com/watch?v=broken'',
         ''https://youtu.be/third3'', ''https://youtu.be/fourth4'']"
    by code_simp
  have "download_multiple_videos demo_downloader demo_urls 20 10
      = map (download_one demo_downloader 20) (take (nat 10) (filter is_valid_youtube_url demo_urls))"
    by (rule download_multiple_videos_eq) simp
  then show ?thesis
    by (simp add: valid download_one_sel comp_def) (simp add: demo_urls_def)
qed

text \<open>
  C6, amended. With a non-negative video limit, the download results hold one entry for
  each of the first \<open>max_videos\<close> valid URLs of the input, in the order of the input, and
  none for an invalid URL; an entry whose lookup or download failed has
  \<open>success = False\<close> and an error message, a successful one has a video path and an info.
  When no download succeeded the batch returns the early failure with these download
  results. Otherwise, when the final report can be written, the batch returns a report
  that carries the download results unchanged and one video result for every successful
  download, in order, each made from its own download result, whatever happened to the
  videos before it. The video result of the \<open>k\<close>-th successful download is

    \<^item> the failure \<open>Video file validation failed\<close> when its file does not exist or does not
      open;
    \<^item> the failure \<open>No frames were extracted\<close> when the file validates, the frame rate is
      positive and the extraction returns no frame;
    \<^item> a success when the file validates, the frame rate is positive, the extraction
      returns at least one frame, the batch size is positive and the breakdown file can
      be written: it carries the video number \<open>k\<close>, the number of extracted frames and
      a breakdown with one analysis for every extracted frame, whether or not the oracle
      answered.

  Every failure has \<open>breakdown_success = False\<close> and a breakdown error, every success a
  breakdown. With at least two successful breakdowns and a similarity file that can be
  written, the report carries the combined similarity result with all pairwise
  comparisons.
\<close>

theorem C6_batch_orchestrator:
  assumes "0 \<le> max_videos" and "w_write_error w ReportFile = None"
  shows "\<exists>downloads.
      downloads = download_multiple_videos (w_downloader w) urls duration_seconds max_videos
    \<and> downloads = map (download_one (w_downloader w) duration_seconds)
                     (take (nat max_videos) (filter is_valid_youtube_url urls))
    \<and> map dl_url downloads = take (nat max_videos) (filter is_valid_youtube_url urls)
    \<and> (\<forall>r \<in> set downloads. \<not> dl_success r \<longrightarrow> dl_error r \<noteq> None)
    \<and> (\<forall>r \<in> set downloads. dl_success r \<longrightarrow> dl_video_path r \<noteq> None \<and> dl_info r \<noteq> None)
    \<and> (filter dl_success downloads = [] \<longrightarrow>
          process_youtube_urls w sent output_dir urls duration_seconds max_videos
            max_frames_per_video batch_size = (Inr (NoDownloads downloads), sent))
    \<and> (filter dl_success downloads \<noteq> [] \<longrightarrow>
          (\<exists>report sent'.
              process_youtube_urls w sent output_dir urls duration_seconds max_videos
                max_frames_per_video batch_size = (Inr (Report report), sent')
            \<and> download_results report = downloads
            \<and> map download_result.truncate (video_analyses report) = filter dl_success downloads
            \<and> (\<forall>v \<in> set (video_analyses report).
                  \<not> breakdown_success v \<longrightarrow> breakdown_error v \<noteq> None)
            \<and> (\<forall>v \<in> set (video_analyses report).
                  breakdown_success v \<longrightarrow> breakdown_data v \<noteq> None)
            \<and> (\<forall>k path info.
                  k < length (video_analyses report)
                  \<and> dl_video_path (filter dl_success downloads ! k) = Some path
                  \<and> dl_info (filter dl_success downloads ! k) = Some info \<longrightarrow>
                  (let v = video_analyses report ! k;
                       cap = w_capture w path;
                       extracted = fst (extract_fixed_frames cap
                           (os_path_join (os_path_join output_dir ''frames'')
                              (''video_'' @ digits10 (Suc k) @ ''_'' @ yt_id info))
                           max_frames_per_video (py_float duration_seconds))
                   in (\<not> (w_exists w path \<and> is_opened cap) \<longrightarrow>
                         \<not> breakdown_success v
                         \<and> breakdown_error v = Some ''Video file validation failed'')
                    \<and> (w_exists w path \<and> is_opened cap \<and> 0 < cap_fps cap
                          \<and> extracted = Inr [] \<longrightarrow>
                         \<not> breakdown_success v
                         \<and> breakdown_error v = Some ''No frames were extracted'')
                    \<and> (\<forall>frames. w_exists w path \<and> is_opened cap \<and> 0 < cap_fps cap
                           \<and> extracted = Inr frames \<and> frames \<noteq> [] \<and> 0 < batch_size
                           \<and> w_write_error w (BreakdownFile (Suc k) (yt_id info)) = None \<longrightarrow>
                         breakdown_success v \<and> breakdown_error v = None
                         \<and> vr_video_index v = Some (Suc k)
                         \<and> vr_frames_extracted v = Some (length frames)
                         \<and> (\<exists>data. breakdown_data v = Some data \<and> bd_video_file data = path
                               \<and> length (bd_frame_analyses data) = length frames))))
            \<and> (2 \<le> length (filter breakdown_success (video_analyses report))
                 \<and> w_write_error w SimilarityFile = None \<longrightarrow>
                 (\<exists>sim pw t. similarity_analysis report = Combined sim pw t
                    \<and> pw_success pw
                    \<and> total_pairs pw
                        = Some (length (filter breakdown_success (video_analyses report))
                            * (length (filter breakdown_success (video_analyses report)) - 1)
                            div 2)))))"
proof -
  define valid where "valid = take (nat max_videos) (filter is_valid_youtube_url urls)"
  define downloads where
    "downloads = download_multiple_videos (w_downloader w) urls duration_seconds max_videos"
  define dir where "dir = os_path_join output_dir ''frames''"
  have dl: "downloads = map (download_one (w_downloader w) duration_seconds) valid"
    unfolding downloads_def valid_def by (rule download_multiple_videos_eq [OF assms(1)])
  have urls: "map dl_url downloads = valid"
    by (simp add: dl download_one_sel comp_def)
  have errs: "\<forall>r \<in> set downloads. \<not> dl_success r \<longrightarrow> dl_error r \<noteq> None"
  proof
    fix r assume "r \<in> set downloads"
    then obtain url where "r = download_one (w_downloader w) duration_seconds url"
      by (auto simp: dl)
    then show "\<not> dl_success r \<longrightarrow> dl_error r \<noteq> None"
      using download_one_sel(2) by blast
  qed
  have files: "\<forall>r \<in> set downloads. dl_success r \<longrightarrow> dl_video_path r \<noteq> None \<and> dl_info r \<noteq> None"
  proof
    fix r assume "r \<in> set downloads"
    then obtain url where "r = download_one (w_downloader w) duration_seconds url"
      by (auto simp: dl)
    then show "dl_success r \<longrightarrow> dl_video_path r \<noteq> None \<and> dl_info r \<noteq> None"
      using download_one_sel(3) by blast
  qed
  have none: "process_youtube_urls w sent output_dir urls duration_seconds max_videos
      max_frames_per_video batch_size = (Inr (NoDownloads downloads), sent)"
    if "filter dl_success downloads = []"
    using that by (simp add: process_youtube_urls_def downloads_def [symmetric] Let_def)
  have some: "\<exists>report sent'.
        process_youtube_urls w sent output_dir urls duration_seconds max_videos
          max_frames_per_video batch_size = (Inr (Report report), sent')
      \<and> download_results report = downloads
      \<and> map download_result.truncate (video_analyses report) = filter dl_success downloads
      \<and> (\<forall>v \<in> set (video_analyses report). \<not> breakdown_success v \<longrightarrow> breakdown_error v \<noteq> None)
      \<and> (\<forall>v \<in> set (video_analyses report). breakdown_success v \<longrightarrow> breakdown_data v \<noteq> None)
      \<and> (\<forall>k path info.
            k < length (video_analyses report)
            \<and> dl_video_path (filter dl_success downloads ! k) = Some path
            \<and> dl_info (filter dl_success downloads ! k) = Some info \<longrightarrow>
            processed w duration_seconds max_frames_per_video batch_size dir (Suc k) path info
              (video_analyses report ! k))
      \<and> (2 \<le> length (filter breakdown_success (video_analyses report))
           \<and> w_write_error w SimilarityFile = None \<longrightarrow>
           (\<exists>sim pw t. similarity_analysis report = Combined sim pw t
              \<and> pw_success pw
              \<and> total_pairs pw
                  = Some (length (filter breakdown_success (video_analyses report))
                      * (length (filter breakdown_success (video_analyses report)) - 1)
                      div 2)))"
    if ne: "filter dl_success downloads \<noteq> []"
  proof -
    from video_loop_results [of w duration_seconds max_frames_per_video batch_size dir
        "enumerate (Suc 0) (filter dl_success downloads)" "[]" sent]
    obtain vrs sent1 where
      loop: "video_loop w duration_seconds max_frames_per_video batch_size dir
          (enumerate (Suc 0) (filter dl_success downloads)) ([], sent) = (vrs, sent1)"
      and outcome: "list_all2
          (video_outcome w duration_seconds max_frames_per_video batch_size dir)
          (enumerate (Suc 0) (filter dl_success downloads)) vrs"
      by auto
    from outcome have "list_all2 result_of
        (map snd (enumerate (Suc 0) (filter dl_success downloads))) vrs"
      by (rule video_outcome_result_of)
    then have all: "list_all2 result_of (filter dl_success downloads) vrs"
      by (simp only: map_snd_enumerate)
    define sa where "sa = fst (analyze_video_similarities w sent1 vrs)"
    define sent2 where "sent2 = snd (analyze_video_similarities w sent1 vrs)"
    have trunc: "map download_result.truncate vrs = filter dl_success downloads"
      using all by (rule result_of_truncate)
    have props: "(\<not> breakdown_success v \<longrightarrow> breakdown_error v \<noteq> None)
        \<and> (breakdown_success v \<longrightarrow> dl_info v \<noteq> None \<and> breakdown_data v \<noteq> None)"
      if "v \<in> set vrs" for v
      using all that by (rule result_of_set)
    then have "\<forall>r \<in> set (filter breakdown_success vrs). dl_info r \<noteq> None" by simp
    then obtain titles where titles: "titles_of (filter breakdown_success vrs) = Inr titles"
      using titles_of_ok by blast
    define report where "report = projr (generate_final_report downloads vrs sa)"
    have gen: "generate_final_report downloads vrs sa = Inr report"
      by (simp add: report_def generate_final_report_def titles Let_def)
    have fields: "download_results report = downloads" "video_analyses report = vrs"
      "similarity_analysis report = sa"
      by (simp_all add: report_def generate_final_report_def titles Let_def)
    have run: "process_youtube_urls w sent output_dir urls duration_seconds max_videos
        max_frames_per_video batch_size = (Inr (Report report), sent2)"
      using ne assms(2)
      by (simp add: process_youtube_urls_def downloads_def [symmetric] dir_def [symmetric]
          Let_def loop split_beta sa_def [symmetric] sent2_def [symmetric] gen)
    have sim: "\<exists>sim pw t. sa = Combined sim pw t \<and> pw_success pw
        \<and> total_pairs pw = Some (length (filter breakdown_success vrs)
            * (length (filter breakdown_success vrs) - 1) div 2)"
      if "2 \<le> length (filter breakdown_success vrs) \<and> w_write_error w SimilarityFile = None"
    proof -
      from props have wf: "\<forall>v \<in> set vrs. breakdown_success v \<longrightarrow> dl_info v \<noteq> None" by blast
      from that have two: "2 \<le> length (filter breakdown_success vrs)"
        and wr: "w_write_error w SimilarityFile = None" by simp_all
      from analyze_video_similarities_combined [OF wf two wr, of sent1]
      show ?thesis by (auto simp: sa_def)
    qed
    have c3: "map download_result.truncate (video_analyses report) = filter dl_success downloads"
      by (simp only: fields trunc)
    have c4: "\<forall>v \<in> set (video_analyses report).
        \<not> breakdown_success v \<longrightarrow> breakdown_error v \<noteq> None"
      unfolding fields using props by blast
    have c5: "\<forall>v \<in> set (video_analyses report).
        breakdown_success v \<longrightarrow> breakdown_data v \<noteq> None"
      unfolding fields using props by blast
    have c6: "\<forall>k path info.
          k < length (video_analyses report)
          \<and> dl_video_path (filter dl_success downloads ! k) = Some path
          \<and> dl_info (filter dl_success downloads ! k) = Some info \<longrightarrow>
          processed w duration_seconds max_frames_per_video batch_size dir (Suc k) path info
            (video_analyses report ! k)"
      unfolding fields using video_loop_nth [OF outcome] by blast
    have c7: "2 \<le> length (filter breakdown_success (video_analyses report))
           \<and> w_write_error w SimilarityFile = None \<longrightarrow>
           (\<exists>sim pw t. similarity_analysis report = Combined sim pw t
              \<and> pw_success pw
              \<and> total_pairs pw
                  = Some (length (filter breakdown_success (video_analyses report))
                      * (length (filter breakdown_success (video_analyses report)) - 1)
                      div 2))"
      unfolding fields using sim by blast
    from run fields(1) c3 c4 c5 c6 c7 show ?thesis
      by (intro exI [where x = report] exI [where x = sent2] conjI)
  qed
  from dl urls errs files none some show ?thesis
    unfolding valid_def downloads_def dir_def processed_def Let_def
    by (intro exI [where x = "download_multiple_videos (w_downloader w) urls duration_seconds
        max_videos"] conjI impI) simp_all
qed

text \<open>
  C6 (amended) at the concrete batch: the second URL is dropped, the third one fails to
  download, the file of the fourth does not validate, the two other videos are analysed
  (one oracle call of the first one times out), and the one pair is compared.
\<close>

theorem C6_batch_orchestrator_witness:
  "\<exists>report sent'.
      process_youtube_urls demo_world [] ''out'' demo_urls 20 10 4 5 = (Inr (Report report), sent')
    \<and> map dl_url (download_results report)
        = [''https://youtu.be/first1'', ''https://www.youtube.com/watch?v=broken'',
           ''https://youtu.be/third3'', ''https://youtu.be/fourth4'']
    \<and> map dl_success (download_results report) = [True, False, True, True]
    \<and> map dl_error (download_results report) = [None, Some ''Download failed'', None, None]
    \<and> map dl_url (video_analyses report)
        = [''https://youtu.be/first1'', ''https://youtu.be/third3'', ''https://youtu.be/fourth4'']
    \<and> map breakdown_success (video_analyses report) = [True, False, True]
    \<and> map breakdown_error (video_analyses report)
        = [None, Some ''Video file validation failed'', None]
    \<and> (\<exists>sim pw t. similarity_analysis report = Combined sim pw t
          \<and> pw_success pw \<and> total_pairs pw = Some 1)"
proof -
  have a1: "(0::int) \<le> 10" by simp
  have a2: "w_write_error demo_world ReportFile = None"
    and a3: "w_write_error demo_world SimilarityFile = None"
    by (simp_all add: demo_world_def)
  have env: "w_capture demo_world p = clip_5s" "w_write_error demo_world f = None"
    "w_exists demo_world ''downloads/first1.mp4''"
    "\<not> w_exists demo_world ''downloads/third3.mp4''"
    "w_exists demo_world ''downloads/fourth4.mp4''" for p f
    by (simp_all add: demo_world_def)
  have clip: "is_opened clip_5s" "0 < cap_fps clip_5s" "(0::int) < 5"
    by (simp_all add: clip_5s_def)
  have valid: "filter is_valid_youtube_url demo_urls
      = [''https://youtu.be/first1'', ''https://www.youtube.com/watch?v=broken'',
         ''https://youtu.be/third3'', ''https://youtu.be/fourth4'']"
    by code_simp
  from C6_batch_orchestrator [OF a1 a2, where urls = demo_urls and sent = "[]"
      and output_dir = "''out''" and duration_seconds = 20 and max_frames_per_video = 4
      and batch_size = 5]
  obtain downloads where
    d: "downloads = map (download_one (w_downloader demo_world) 20)
          (take (nat 10) (filter is_valid_youtube_url demo_urls))"
    and rep: "filter dl_success downloads \<noteq> [] \<longrightarrow>
          (\<exists>report sent'.
              process_youtube_urls demo_world [] ''out'' demo_urls 20 10 4 5
                = (Inr (Report report), sent')
            \<and> download_results report = downloads
            \<and> map download_result.truncate (video_analyses report) = filter dl_success downloads
            \<and> (\<forall>k path info.
                  k < length (video_analyses report)
                  \<and> dl_video_path (filter dl_success downloads ! k) = Some path
                  \<and> dl_info (filter dl_success downloads ! k) = Some info \<longrightarrow>
                  (let v = video_analyses report ! k;
                       cap = w_capture demo_world path;
                       extracted = fst (extract_fixed_frames cap
                           (os_path_join (os_path_join ''out'' ''frames'')
                              (''video_'' @ digits10 (Suc k) @ ''_'' @ yt_id info))
                           4 (py_float 20))
                   in (\<not> (w_exists demo_world path \<and> is_opened cap) \<longrightarrow>
                         \<not> breakdown_success v
                         \<and> breakdown_error v = Some ''Video file validation failed'')
                    \<and> (w_exists demo_world path \<and> is_opened cap \<and> 0 < cap_fps cap
                          \<and> extracted = Inr [] \<longrightarrow>
                         \<not> breakdown_success v
                         \<and> breakdown_error v = Some ''No frames were extracted'')
                    \<and> (\<forall>frames. w_exists demo_world path \<and> is_opened cap \<and> 0 < cap_fps cap
                           \<and> extracted = Inr frames \<and> frames \<noteq> [] \<and> (0::int) < 5
                           \<and> w_write_error demo_world (BreakdownFile (Suc k) (yt_id info)) = None \<longrightarrow>
                         breakdown_success v \<and> breakdown_error v = None
                         \<and> vr_video_index v = Some (Suc k)
                         \<and> vr_frames_extracted v = Some (length frames)
                         \<and> (\<exists>data. breakdown_data v = Some data \<and> bd_video_file data = path
                               \<and> length (bd_frame_analyses data) = length frames))))
            \<and> (2 \<le> length (filter breakdown_success (video_analyses report))
                 \<and> w_write_error demo_world SimilarityFile = None \<longrightarrow>
                 (\<exists>sim pw t. similarity_analysis report = Combined sim pw t
                    \<and> pw_success pw
                    \<and> total_pairs pw
                        = Some (length (filter breakdown_success (video_analyses report))
                            * (length (filter breakdown_success (video_analyses report)) - 1)
                            div 2))))"
    by blast
  have urls: "map dl_url downloads
      = [''https://youtu.be/first1'', ''https://www.youtube.com/watch?v=broken'',
         ''https://youtu.be/third3'', ''https://youtu.be/fourth4'']"
    and ok: "map dl_success downloads = [True, False, True, True]"
    and errs: "map dl_error downloads = [None, Some ''Download failed'', None, None]"
    and good: "map dl_url (filter dl_success downloads)
      = [''https://youtu.be/first1'', ''https://youtu.be/third3'', ''https://youtu.be/fourth4'']"
    and paths: "map dl_video_path (filter dl_success downloads)
      = [Some ''downloads/first1.mp4'', Some ''downloads/third3.mp4'',
         Some ''downloads/fourth4.mp4'']"
    and infos: "map dl_info (filter dl_success downloads)
      = [Some \<lparr>yt_id = ''first1'', yt_title = ''video first1''\<rparr>,
         Some \<lparr>yt_id = ''third3'', yt_title = ''video third3''\<rparr>,
         Some \<lparr>yt_id = ''fourth4'', yt_title = ''video fourth4''\<rparr>]"
    by (simp_all add: d valid download_one_def demo_world_def demo_downloader_def)
  from paths infos obtain a b c where succ: "filter dl_success downloads = [a, b, c]"
    and files: "dl_video_path a = Some ''downloads/first1.mp4''"
      "dl_video_path b = Some ''downloads/third3.mp4''"
      "dl_video_path c = Some ''downloads/fourth4.mp4''"
    and info: "dl_info a = Some \<lparr>yt_id = ''first1'', yt_title = ''video first1''\<rparr>"
      "dl_info b = Some \<lparr>yt_id = ''third3'', yt_title = ''video third3''\<rparr>"
      "dl_info c = Some \<lparr>yt_id = ''fourth4'', yt_title = ''video fourth4''\<rparr>"
    by auto
  then have "filter dl_success downloads \<noteq> []" by simp
  with rep obtain report sent' where
    run: "process_youtube_urls demo_world [] ''out'' demo_urls 20 10 4 5
        = (Inr (Report report), sent')"
    and dls: "download_results report = downloads"
    and trunc: "map download_result.truncate (video_analyses report) = filter dl_success downloads"
    and cases: "\<And>k path info.
          k < length (video_analyses report)
          \<and> dl_video_path (filter dl_success downloads ! k) = Some path
          \<and> dl_info (filter dl_success downloads ! k) = Some info \<Longrightarrow>
          (let v = video_analyses report ! k;
               cap = w_capture demo_world path;
               extracted = fst (extract_fixed_frames cap
                   (os_path_join (os_path_join ''out'' ''frames'')
                      (''video_'' @ digits10 (Suc k) @ ''_'' @ yt_id info))
                   4 (py_float 20))
           in (\<not> (w_exists demo_world path \<and> is_opened cap) \<longrightarrow>
                 \<not> breakdown_success v
                 \<and> breakdown_error v = Some ''Video file validation failed'')
            \<and> (w_exists demo_world path \<and> is_opened cap \<and> 0 < cap_fps cap
                  \<and> extracted = Inr [] \<longrightarrow>
                 \<not> breakdown_success v
                 \<and> breakdown_error v = Some ''No frames were extracted'')
            \<and> (\<forall>frames. w_exists demo_world path \<and> is_opened cap \<and> 0 < cap_fps cap
                   \<and> extracted = Inr frames \<and> frames \<noteq> [] \<and> (0::int) < 5
                   \<and> w_write_error demo_world (BreakdownFile (Suc k) (yt_id info)) = None \<longrightarrow>
                 breakdown_success v \<and> breakdown_error v = None
                 \<and> vr_video_index v = Some (Suc k)
                 \<and> vr_frames_extracted v = Some (length frames)
                 \<and> (\<exists>data. breakdown_data v = Some data \<and> bd_video_file data = path
                       \<and> length (bd_frame_analyses data) = length frames)))"
    and sim: "2 \<le> length (filter breakdown_success (video_analyses report))
          \<and> w_write_error demo_world SimilarityFile = None \<longrightarrow>
          (\<exists>sim pw t. similarity_analysis report = Combined sim pw t
             \<and> pw_success pw
             \<and> total_pairs pw
                 = Some (length (filter breakdown_success (video_analyses report))
                     * (length (filter breakdown_success (video_analyses report)) - 1)
                     div 2))"
    by blast
  from trunc succ obtain va vb vc where vs: "video_analyses report = [va, vb, vc]"
    by auto
  have first: "breakdown_success va \<and> breakdown_error va = None"
  proof -
    from clip_5s_frames obtain frames where
      "fst (extract_fixed_frames clip_5s
          (os_path_join (os_path_join ''out'' ''frames'')
             (''video_'' @ digits10 (Suc 0) @ ''_'' @ ''first1'')) 4 (py_float 20)) = Inr frames"
      "frames \<noteq> []"
      by blast
    with cases [of 0 "''downloads/first1.mp4''" "\<lparr>yt_id = ''first1'', yt_title = ''video first1''\<rparr>"]
    show ?thesis
      by (simp add: Let_def vs succ files info env clip)
  qed
  have second: "\<not> breakdown_success vb
      \<and> breakdown_error vb = Some ''Video file validation failed''"
    using cases [of 1 "''downloads/third3.mp4''" "\<lparr>yt_id = ''third3'', yt_title = ''video third3''\<rparr>"]
    by (simp add: Let_def vs succ files info env)
  have third: "breakdown_success vc \<and> breakdown_error vc = None"
  proof -
    from clip_5s_frames obtain frames where
      "fst (extract_fixed_frames clip_5s
          (os_path_join (os_path_join ''out'' ''frames'')
             (''video_'' @ digits10 (Suc 2) @ ''_'' @ ''fourth4'')) 4 (py_float 20)) = Inr frames"
      "frames \<noteq> []"
      by blast
    with cases [of 2 "''downloads/fourth4.mp4''" "\<lparr>yt_id = ''fourth4'', yt_title = ''video fourth4''\<rparr>"]
    show ?thesis
      by (simp add: Let_def vs succ files info env clip)
  qed
  from first second third have flags: "map breakdown_success (video_analyses report) = [True, False, True]"
    and fails: "map breakdown_error (video_analyses report)
        = [None, Some ''Video file validation failed'', None]"
    by (simp_all add: vs)
  from first second third have "length (filter breakdown_success (video_analyses report)) = 2"
    by (simp add: vs)
  with sim a3 have s: "\<exists>sim pw t. similarity_analysis report = Combined sim pw t
      \<and> pw_success pw \<and> total_pairs pw = Some 1"
    by simp
  have "map dl_url (video_analyses report)
      = map dl_url (map download_result.truncate (video_analyses report))"
    by (simp add: truncate_url comp_def)
  with trunc good have vids: "map dl_url (video_analyses report)
      = [''https://youtu.be/first1'', ''https://youtu.be/third3'', ''https://youtu.be/fourth4'']"
    by simp
  from run urls ok errs vids flags fails s show ?thesis
    unfolding dls [symmetric]
    by (intro exI [where x = report] exI [where x = sent'] conjI)
qed

end
